theory Spec2Isabelle
  imports
    Complex_Main
    "HOL-Library.Word"
    "HOL-Library.Multiset"
    "HOL-Library.Char_ord"
    "HOL-Library.List_Lexorder"
    "HOL-Library.Log_Nat"
begin

section \<open>The emoji mosaic compositor of \<^verbatim>\<open>video_emojisaic.py\<close>\<close>

text \<open>
  The development follows the Python source function by function. Conventions:
  \<^item> a numpy array of two dimensions is a record of its shape and its rows; the
    numpy invariant that every row has \<open>shape[1]\<close> elements is the predicate
    \<open>well_shaped\<close>;
  \<^item> Python's unbounded integers are \<open>int\<close>; loop indices produced by \<open>range\<close> are
    never negative and are \<open>nat\<close>;
  \<^item> every exception the source can raise in the modelled functions is a value of
    \<open>error\<close>, and a function that can raise returns \<open>error + 'a\<close>;
  \<^item> a floating-point number is the real it denotes; the one non-finite value that
    the source can produce (the mean of zero rows, a triple of NaN) is the separate
    value \<open>NaNf\<close>. The \<open>float64\<close> means of \<open>average_color\<close> are taken over the reals.
    The \<open>float32\<close> operations of the quantizer (the cast of the palette, the mean of
    a region, the squared distances) round, and the rounding decides which tile is
    nearest: they are the fields of a record \<open>numpy_ops\<close> that the quantizer takes as
    an argument, and \<open>float32_ops\<close> is their IEEE 754 model;
  \<^item> the imaging library (decoding, resizing, pasting) is a collaborator: the model
    records the requests made to it, not their pixel results, and the sizes that
    \<open>Image.new\<close> and \<open>resize\<close> refuse with \<open>ValueError\<close>;
  \<^item> names are those of the source, but for the parameter \<open>size\<close>, which is \<open>tsize\<close>
    here (\<open>size\<close> is a constant of HOL).
\<close>

subsection \<open>Errors, arrays and Python slicing\<close>

datatype error = ValueError | ZeroDivisionError | IndexError | DecodeError

record 'a ndarray =
  nrows :: nat
  ncols :: nat
  cells :: "'a list list"

text \<open>The rows are as many as \<open>shape[0]\<close>, and each has \<open>shape[1]\<close> elements.\<close>

definition well_shaped :: "'a ndarray \<Rightarrow> bool" where
  "well_shaped a \<longleftrightarrow>
     length (cells a) = nrows a \<and> list_all (\<lambda>r. length r = ncols a) (cells a)"

text \<open>\<open>np.zeros((rows, cols), dtype=bool)\<close> and, in general, a constant array.\<close>

definition full :: "nat \<Rightarrow> nat \<Rightarrow> 'a \<Rightarrow> 'a ndarray" where
  "full rows cols v = \<lparr>nrows = rows, ncols = cols, cells = replicate rows (replicate cols v)\<rparr>"

text \<open>
  A slice bound \<open>i\<close> of a sequence of length \<open>n\<close>: a negative bound counts from the
  end, and every bound is clipped to \<open>0..n\<close>.
\<close>

definition py_bound :: "nat \<Rightarrow> int \<Rightarrow> nat" where
  "py_bound n i = (if i < 0 then nat (int n + i) else min n (nat i))"

text \<open>\<open>xs[lo:hi]\<close>\<close>

definition py_slice :: "int \<Rightarrow> int \<Rightarrow> 'a list \<Rightarrow> 'a list" where
  "py_slice lo hi xs =
     (let a = py_bound (length xs) lo; b = py_bound (length xs) hi
      in take (b - a) (drop a xs))"

text \<open>\<open>a[r0:r1, c0:c1]\<close>\<close>

definition slice2 :: "'a list list \<Rightarrow> int \<Rightarrow> int \<Rightarrow> int \<Rightarrow> int \<Rightarrow> 'a list list" where
  "slice2 a r0 r1 c0 c1 = map (py_slice c0 c1) (py_slice r0 r1 a)"

text \<open>
  \<open>a[r0:r1, c0:c1] = v\<close> for bounds that are not negative: the cells whose indices
  lie in both ranges are overwritten, the ranges being clipped to the array.
\<close>

definition assign_slice2 :: "'a list list \<Rightarrow> nat \<Rightarrow> nat \<Rightarrow> nat \<Rightarrow> nat \<Rightarrow> 'a \<Rightarrow> 'a list list" where
  "assign_slice2 a r0 r1 c0 c1 v =
     map (\<lambda>i. map (\<lambda>j. if r0 \<le> i \<and> i < r1 \<and> c0 \<le> j \<and> j < c1 then v else a ! i ! j)
                 [0..<length (a ! i)])
         [0..<length a]"

text \<open>\<open>xs[i]\<close> on a Python list: a negative index counts from the end.\<close>

definition py_get :: "'a list \<Rightarrow> int \<Rightarrow> error + 'a" where
  "py_get xs i =
     (if 0 \<le> i \<and> i < int (length xs) then Inr (xs ! nat i)
      else if i < 0 \<and> - int (length xs) \<le> i then Inr (xs ! nat (int (length xs) + i))
      else Inl IndexError)"

text \<open>\<open>range(n, 0, -1)\<close>\<close>

definition range_down :: "int \<Rightarrow> nat list" where
  "range_down n = rev [1..<Suc (nat n)]"

subsection \<open>\<open>largest_uniform_square\<close>\<close>

text \<open>
  The test of one candidate side, line 87 of the source:
  \<open>np.all(block == emoji_index) and not np.any(covered[row:row+side, col:col+side])\<close>.
\<close>

definition block_free :: "int ndarray \<Rightarrow> bool ndarray \<Rightarrow> nat \<Rightarrow> nat \<Rightarrow> int \<Rightarrow> nat \<Rightarrow> bool" where
  "block_free grid covered row col emoji_index side =
     (let block = slice2 (cells grid) (int row) (int row + int side) (int col) (int col + int side)
      in list_all (list_all (\<lambda>x. x = emoji_index)) block \<and>
         \<not> list_ex (list_ex (\<lambda>b. b))
             (slice2 (cells covered) (int row) (int row + int side) (int col) (int col + int side)))"

text \<open>
  The \<open>for\<close> loop of lines 85 to 88: the first candidate of \<open>range(max_possible, 0, -1)\<close>
  that passes the test, or \<open>None\<close> when the loop runs to its end.
\<close>

definition search_side :: "int ndarray \<Rightarrow> bool ndarray \<Rightarrow> nat \<Rightarrow> nat \<Rightarrow> int \<Rightarrow> int \<Rightarrow> nat option" where
  "search_side grid covered row col emoji_index max_side =
     (let max_possible = min max_side (min (int (nrows grid) - int row) (int (ncols grid) - int col))
      in List.find (block_free grid covered row col emoji_index) (range_down max_possible))"

definition largest_uniform_square :: "int ndarray \<Rightarrow> bool ndarray \<Rightarrow> nat \<Rightarrow> nat \<Rightarrow> int \<Rightarrow> int \<Rightarrow> nat" where
  "largest_uniform_square grid covered row col emoji_index max_side =
     (case search_side grid covered row col emoji_index max_side of
        Some side \<Rightarrow> side
      | None \<Rightarrow> 1)"

lemma range_down_set: "set (range_down n) = {s. 1 \<le> s \<and> int s \<le> n}"
  by (auto simp: range_down_def)

lemma largest_uniform_square_pos:
  "1 \<le> largest_uniform_square grid covered row col emoji_index max_side"
proof (cases "search_side grid covered row col emoji_index max_side")
  case None
  then show ?thesis by (simp add: largest_uniform_square_def)
next
  case (Some side)
  then have "side \<in> set (range_down (min max_side
      (min (int (nrows grid) - int row) (int (ncols grid) - int col))))"
    by (auto simp: search_side_def find_Some_iff in_set_conv_nth)
  then have "1 \<le> side" by (simp add: range_down_set)
  with Some show ?thesis by (simp add: largest_uniform_square_def)
qed

subsection \<open>The merge and paste loops of \<open>mosaic_image\<close>\<close>

text \<open>
  An image handed to the imaging library is either an image the caller supplied or
  the result of \<open>resize((w, h), Image.LANCZOS)\<close> on one.
\<close>

datatype 'a pil_image = Source 'a | Resize "'a pil_image" int int

text \<open>
  One \<open>out.paste(emoji, box, mask)\<close> request, together with the loop variables
  \<open>row\<close>, \<open>col\<close>, \<open>emoji_index\<close> and \<open>side\<close> of the block it was issued for.
\<close>

record 'a paste =
  p_row :: nat
  p_col :: nat
  p_index :: int
  p_side :: nat
  p_image :: "'a pil_image"
  p_box :: "int \<times> int"
  p_mask :: "'a pil_image"

text \<open>The canvas: the size given to \<open>Image.new("RGB", size)\<close> and the pastes issued so far.\<close>

record 'a canvas =
  c_width :: int
  c_height :: int
  c_pastes :: "'a paste list"

definition image_new :: "int \<times> int \<Rightarrow> 'a canvas" where
  "image_new sz = \<lparr>c_width = fst sz, c_height = snd sz, c_pastes = []\<rparr>"

text \<open>
  The \<open>while col < cols\<close> loop of lines 100 to 114, for one \<open>row\<close>, started at
  column \<open>col\<close>. The state is the coverage mask and the canvas. The mask has the
  shape of the grid and \<open>row\<close>, \<open>col\<close> are inside it, so the reads \<open>covered[row, col]\<close>
  and \<open>grid[row, col]\<close> are in range; \<open>palette_images[emoji_index]\<close> is a list access
  and can raise.
\<close>

function row_loop ::
  "int ndarray \<Rightarrow> 'a pil_image list \<Rightarrow> int \<Rightarrow> int \<Rightarrow> int \<Rightarrow> nat \<Rightarrow> nat \<Rightarrow>
   bool ndarray \<times> 'a canvas \<Rightarrow> error + (bool ndarray \<times> 'a canvas)" where
  "row_loop grid palette_images tsize zoom max_emoji_block row col (covered, out) =
     (if col < ncols grid then
        if cells covered ! row ! col then
          row_loop grid palette_images tsize zoom max_emoji_block row (col + 1) (covered, out)
        else
          let emoji_index = cells grid ! row ! col;
              side = largest_uniform_square grid covered row col emoji_index max_emoji_block;
              covered' = covered\<lparr>cells :=
                           assign_slice2 (cells covered) row (row + side) col (col + side) True\<rparr>
          in case py_get palette_images emoji_index of
               Inl e \<Rightarrow> Inl e
             | Inr emoji \<Rightarrow>
                 let target_size = int side * tsize * zoom;
                     emoji' = (if side \<noteq> 1 \<or> zoom \<noteq> 1
                               then Resize emoji target_size target_size else emoji);
                     out' = out\<lparr>c_pastes := c_pastes out @
                              [\<lparr>p_row = row, p_col = col, p_index = emoji_index, p_side = side,
                                p_image = emoji',
                                p_box = (int col * tsize * zoom, int row * tsize * zoom),
                                p_mask = emoji'\<rparr>]\<rparr>
                 in row_loop grid palette_images tsize zoom max_emoji_block row (col + side)
                      (covered', out')
      else Inr (covered, out))"
  by pat_completeness auto
termination
proof (relation "measure (\<lambda>(grid, palette_images, tsize, zoom, max_emoji_block, row, col, st).
                            ncols grid - col)")
  show "wf (measure (\<lambda>(grid, palette_images, tsize, zoom, max_emoji_block, row, col, st).
                            ncols grid - col))"
    by simp
next
  fix grid :: "int ndarray" and palette_images :: "'a pil_image list"
    and tsize zoom max_emoji_block :: int and row col :: nat
    and covered :: "bool ndarray" and out :: "'a canvas"
  assume "col < ncols grid"
  then show "((grid, palette_images, tsize, zoom, max_emoji_block, row, col + 1, covered, out),
              (grid, palette_images, tsize, zoom, max_emoji_block, row, col, covered, out))
             \<in> measure (\<lambda>(grid, palette_images, tsize, zoom, max_emoji_block, row, col, st).
                            ncols grid - col)"
    by simp
next
  fix grid :: "int ndarray" and palette_images :: "'a pil_image list"
    and tsize zoom max_emoji_block :: int and row col side :: nat
    and covered covered' :: "bool ndarray" and out out' :: "'a canvas"
    and emoji_index :: int
  assume "col < ncols grid"
    and "emoji_index = cells grid ! row ! col"
    and "side = largest_uniform_square grid covered row col emoji_index max_emoji_block"
  moreover have "1 \<le> largest_uniform_square grid covered row col emoji_index max_emoji_block"
    by (rule largest_uniform_square_pos)
  ultimately show
    "((grid, palette_images, tsize, zoom, max_emoji_block, row, col + side, covered', out'),
      (grid, palette_images, tsize, zoom, max_emoji_block, row, col, covered, out))
     \<in> measure (\<lambda>(grid, palette_images, tsize, zoom, max_emoji_block, row, col, st).
                    ncols grid - col)"
    by simp
qed

declare row_loop.simps [simp del]

text \<open>The \<open>for row in range(rows)\<close> loop of line 98, over the rows still to do.\<close>

fun rows_loop ::
  "int ndarray \<Rightarrow> 'a pil_image list \<Rightarrow> int \<Rightarrow> int \<Rightarrow> int \<Rightarrow> nat list \<Rightarrow>
   bool ndarray \<times> 'a canvas \<Rightarrow> error + (bool ndarray \<times> 'a canvas)" where
  "rows_loop grid palette_images tsize zoom max_emoji_block [] st = Inr st"
| "rows_loop grid palette_images tsize zoom max_emoji_block (row # rest) st =
     (case row_loop grid palette_images tsize zoom max_emoji_block row 0 st of
        Inl e \<Rightarrow> Inl e
      | Inr st' \<Rightarrow> rows_loop grid palette_images tsize zoom max_emoji_block rest st')"

text \<open>
  Lines 94 to 116 of \<open>mosaic_image\<close>: everything after the grid has been built. The
  final coverage mask is returned beside the canvas so that it can be inspected.
\<close>

definition render_grid ::
  "int ndarray \<Rightarrow> 'a pil_image list \<Rightarrow> int \<Rightarrow> int \<Rightarrow> int \<Rightarrow>
   error + (bool ndarray \<times> 'a canvas)" where
  "render_grid grid palette_images tsize zoom max_emoji_block =
     (let rows = nrows grid; cols = ncols grid;
          out = image_new (int cols * tsize * zoom, int rows * tsize * zoom);
          covered = full rows cols False
      in rows_loop grid palette_images tsize zoom max_emoji_block [0..<rows] (covered, out))"

subsection \<open>The sizes the imaging library refuses\<close>

text \<open>
  The loops above record \<open>Image.new\<close> and \<open>resize\<close> as requests that are granted. The
  library refuses some sizes: \<open>Image.new(mode, (w, h))\<close> raises \<open>ValueError\<close> when \<open>w\<close>
  or \<open>h\<close> is negative (an image of no pixels is allowed), and \<open>resize((w, h), ...)\<close>
  raises \<open>ValueError\<close> when \<open>w\<close> or \<open>h\<close> is below one. (\<open>resize\<close> to the size the image
  already has is a copy; a tile has at least one pixel, so that this never applies to
  a refused size.) \<open>paste\<close> of a tile with itself as the mask is granted: the tiles
  are of mode RGBA.
\<close>

definition pil_new :: "int \<times> int \<Rightarrow> error + 'a canvas" where
  "pil_new sz = (if fst sz < 0 \<or> snd sz < 0 then Inl ValueError else Inr (image_new sz))"

definition pil_resize :: "'a pil_image \<Rightarrow> int \<times> int \<Rightarrow> error + 'a pil_image" where
  "pil_resize img sz =
     (if fst sz < 1 \<or> snd sz < 1 then Inl ValueError else Inr (Resize img (fst sz) (snd sz)))"

lemma side_decreases:
  "col < ncols grid \<Longrightarrow>
   ncols grid - (col + largest_uniform_square grid covered row col v max_side) < ncols grid - col"
  using largest_uniform_square_pos [of grid covered row col v max_side] by simp

text \<open>
  Lines 100 to 114 again, statement by statement, with the refusals: the loop stops at
  the first exception, be it of \<open>palette_images[emoji_index]\<close> or of \<open>emoji.resize\<close>.
\<close>

function row_loop_pil ::
  "int ndarray \<Rightarrow> 'a pil_image list \<Rightarrow> int \<Rightarrow> int \<Rightarrow> int \<Rightarrow> nat \<Rightarrow> nat \<Rightarrow>
   bool ndarray \<times> 'a canvas \<Rightarrow> error + (bool ndarray \<times> 'a canvas)" where
  "row_loop_pil grid palette_images tsize zoom max_emoji_block row col (covered, out) =
     (if col < ncols grid then
        if cells covered ! row ! col then
          row_loop_pil grid palette_images tsize zoom max_emoji_block row (col + 1) (covered, out)
        else
          let emoji_index = cells grid ! row ! col;
              side = largest_uniform_square grid covered row col emoji_index max_emoji_block;
              covered' = covered\<lparr>cells :=
                           assign_slice2 (cells covered) row (row + side) col (col + side) True\<rparr>
          in case py_get palette_images emoji_index of
               Inl e \<Rightarrow> Inl e
             | Inr emoji \<Rightarrow>
                 let target_size = int side * tsize * zoom
                 in case (if side \<noteq> 1 \<or> zoom \<noteq> 1
                          then pil_resize emoji (target_size, target_size) else Inr emoji) of
                      Inl e \<Rightarrow> Inl e
                    | Inr emoji' \<Rightarrow>
                        let out' = out\<lparr>c_pastes := c_pastes out @
                              [\<lparr>p_row = row, p_col = col, p_index = emoji_index, p_side = side,
                                p_image = emoji',
                                p_box = (int col * tsize * zoom, int row * tsize * zoom),
                                p_mask = emoji'\<rparr>]\<rparr>
                        in row_loop_pil grid palette_images tsize zoom max_emoji_block row
                             (col + side) (covered', out')
      else Inr (covered, out))"
  by pat_completeness auto
termination
  by (relation "measure (\<lambda>(grid, palette_images, tsize, zoom, max_emoji_block, row, col, st).
                            ncols grid - col)")
     (simp_all add: side_decreases)

declare row_loop_pil.simps [simp del]

fun rows_loop_pil ::
  "int ndarray \<Rightarrow> 'a pil_image list \<Rightarrow> int \<Rightarrow> int \<Rightarrow> int \<Rightarrow> nat list \<Rightarrow>
   bool ndarray \<times> 'a canvas \<Rightarrow> error + (bool ndarray \<times> 'a canvas)" where
  "rows_loop_pil grid palette_images tsize zoom max_emoji_block [] st = Inr st"
| "rows_loop_pil grid palette_images tsize zoom max_emoji_block (row # rest) st =
     (case row_loop_pil grid palette_images tsize zoom max_emoji_block row 0 st of
        Inl e \<Rightarrow> Inl e
      | Inr st' \<Rightarrow> rows_loop_pil grid palette_images tsize zoom max_emoji_block rest st')"

text \<open>Lines 94 to 116 with the refusals: \<open>Image.new\<close> comes first and can be refused.\<close>

definition render_grid_pil ::
  "int ndarray \<Rightarrow> 'a pil_image list \<Rightarrow> int \<Rightarrow> int \<Rightarrow> int \<Rightarrow>
   error + (bool ndarray \<times> 'a canvas)" where
  "render_grid_pil grid palette_images tsize zoom max_emoji_block =
     (let rows = nrows grid; cols = ncols grid
      in case pil_new (int cols * tsize * zoom, int rows * tsize * zoom) of
           Inl e \<Rightarrow> Inl e
         | Inr out \<Rightarrow>
             let covered = full rows cols False
             in rows_loop_pil grid palette_images tsize zoom max_emoji_block [0..<rows]
                  (covered, out))"

subsection \<open>Colours and \<open>average_color\<close>\<close>

text \<open>
  A pixel channel is a \<open>uint8\<close>. A colour computed by numpy is three finite reals, or
  the triple of NaN that \<open>mean\<close> yields over zero rows.
\<close>

type_synonym rgb = "8 word \<times> 8 word \<times> 8 word"

type_synonym rgba = "8 word \<times> 8 word \<times> 8 word \<times> 8 word"

datatype fcolor = RGBf real real real | NaNf

text \<open>
  \<open>np.array(img)\<close>: shape \<open>(height, width, 4)\<close> for an image of mode RGBA and
  \<open>(height, width, 3)\<close> for one of mode RGB, the two modes the callers convert to
  (\<open>build_emoji_palette\<close> passes \<open>convert("RGBA")\<close>). The test \<open>arr.shape[-1] == 4\<close>
  of the source tells them apart. Arrays of other modes are not modelled.
\<close>

datatype image_array = RGBA "rgba ndarray" | RGB "rgb ndarray"

definition red :: "rgb \<Rightarrow> real" where "red p = real (unat (fst p))"

definition green :: "rgb \<Rightarrow> real" where "green p = real (unat (fst (snd p)))"

definition blue :: "rgb \<Rightarrow> real" where "blue p = real (unat (snd (snd p)))"

text \<open>\<open>a.mean(axis=0)\<close> for an array \<open>a\<close> of shape \<open>(n, 3)\<close>.\<close>

definition mean_rgb :: "rgb list \<Rightarrow> fcolor" where
  "mean_rgb px =
     (if px = [] then NaNf
      else RGBf (sum_list (map red px) / real (length px))
                (sum_list (map green px) / real (length px))
                (sum_list (map blue px) / real (length px)))"

fun average_color :: "image_array \<Rightarrow> fcolor" where
  "average_color (RGBA arr) =
     (let px = concat (cells arr);
          mask = (\<lambda>(r, g, b, a). real (unat a) / 255 > 0)
      in if \<not> list_ex mask px then RGBf 0 0 0
         else mean_rgb (map (\<lambda>(r, g, b, a). (r, g, b)) (filter mask px)))"
| "average_color (RGB arr) = mean_rgb (concat (cells arr))"

subsection \<open>\<open>nearest_emoji_index\<close>\<close>

text \<open>
  The \<open>float32\<close> operations of numpy that the quantizer uses:
  \<^item> \<open>f32_array\<close>, one row of \<open>np.array(colors, dtype=np.float32)\<close>: a colour cast to
    \<open>float32\<close>;
  \<^item> \<open>f32_mean\<close>, \<open>a.mean(axis=0)\<close> for a \<open>float32\<close> array \<open>a\<close> of shape \<open>(n, 3)\<close> holding
    the given pixels in this order;
  \<^item> \<open>f32_sq_distance color p\<close>, the entry of
    \<open>np.sum((palette_colors - color) ** 2, axis=1)\<close> for the row \<open>p\<close> of
    \<open>palette_colors\<close>; \<open>None\<close> is NaN. (The operations are elementwise and the sum
    runs along each row, so that an entry depends on its own row only.)
\<close>

record numpy_ops =
  f32_array :: "fcolor \<Rightarrow> fcolor"
  f32_mean :: "rgb list \<Rightarrow> fcolor"
  f32_sq_distance :: "fcolor \<Rightarrow> fcolor \<Rightarrow> real option"

text \<open>
  \<open>np.argmin\<close>: one scan from the left that keeps the first smallest value seen, and
  stops at the first NaN. An empty array raises \<open>ValueError\<close>.
\<close>

fun argmin_scan :: "nat \<Rightarrow> real \<Rightarrow> nat \<Rightarrow> real option list \<Rightarrow> nat" where
  "argmin_scan best bv i [] = best"
| "argmin_scan best bv i (None # ds) = i"
| "argmin_scan best bv i (Some d # ds) =
     (if d < bv then argmin_scan i d (Suc i) ds else argmin_scan best bv (Suc i) ds)"

fun np_argmin :: "real option list \<Rightarrow> error + nat" where
  "np_argmin [] = Inl ValueError"
| "np_argmin (None # ds) = Inr 0"
| "np_argmin (Some d # ds) = Inr (argmin_scan 0 d 1 ds)"

text \<open>
  \<open>palette_colors\<close> is \<open>np.array(colors, dtype=np.float32)\<close>: of shape \<open>(n, 3)\<close> for
  \<open>n > 0\<close> colours, but of shape \<open>(0,)\<close> for none, which does not broadcast against
  a colour of shape \<open>(3,)\<close>.
\<close>

definition nearest_emoji_index :: "numpy_ops \<Rightarrow> fcolor \<Rightarrow> fcolor list \<Rightarrow> error + nat" where
  "nearest_emoji_index np color palette_colors =
     (if palette_colors = [] then Inl ValueError
      else np_argmin (map (f32_sq_distance np color) palette_colors))"

subsection \<open>\<open>build_emoji_grid\<close>\<close>

text \<open>The first exception raised while a list is built, or the list.\<close>

fun sequence :: "(error + 'a) list \<Rightarrow> error + 'a list" where
  "sequence [] = Inr []"
| "sequence (Inl e # rs) = Inl e"
| "sequence (Inr x # rs) = (case sequence rs of Inl e \<Rightarrow> Inl e | Inr xs \<Rightarrow> Inr (x # xs))"

text \<open>
  The image is of mode RGB (the callers pass \<open>img.convert("RGB")\<close>); its \<open>size\<close> is
  the shape of its pixel array, and \<open>np.array(img, dtype=np.float32)\<close> holds its channel
  values, which are whole numbers below 256, unchanged. \<open>math.ceil(width / size)\<close>
  raises for \<open>size = 0\<close>, and \<open>np.empty\<close> raises for a negative dimension. The two
  nested \<open>for\<close> loops of lines 70 to 78 fill the grid in row-major order and stop at the
  first exception. The cells are \<open>int32\<close> in the source; an index is taken to fit (a
  palette of fewer than \<open>2^31\<close> tiles).
\<close>

definition build_emoji_grid ::
  "numpy_ops \<Rightarrow> rgb ndarray \<Rightarrow> int \<Rightarrow> fcolor list \<Rightarrow> error + int ndarray" where
  "build_emoji_grid np img tsize palette_colors =
     (let width = int (ncols img); height = int (nrows img)
      in if tsize = 0 then Inl ZeroDivisionError
         else
           let cols = \<lceil>real_of_int width / real_of_int tsize\<rceil>;
               rows = \<lceil>real_of_int height / real_of_int tsize\<rceil>
           in if rows < 0 \<or> cols < 0 then Inl ValueError
              else
                case sequence (map (\<lambda>y.
                       let top = int y * tsize; bottom = min (top + tsize) height
                       in sequence (map (\<lambda>x.
                            let left = int x * tsize; right = min (left + tsize) width;
                                tile_pixels = slice2 (cells img) top bottom left right;
                                color = f32_mean np (concat tile_pixels)
                            in map_sum id int (nearest_emoji_index np color palette_colors))
                          [0..<nat cols]))
                     [0..<nat rows]) of
                  Inl e \<Rightarrow> Inl e
                | Inr grid \<Rightarrow> Inr \<lparr>nrows = nat rows, ncols = nat cols, cells = grid\<rparr>)"

subsection \<open>\<open>mosaic_image\<close>\<close>

text \<open>
  Line 93 builds the grid; lines 94 to 116 are \<open>render_grid_pil\<close>, of which the canvas
  is returned.
\<close>

definition mosaic_image ::
  "numpy_ops \<Rightarrow> rgb ndarray \<Rightarrow> fcolor list \<Rightarrow> 'a pil_image list \<Rightarrow> int \<Rightarrow> int \<Rightarrow> int \<Rightarrow>
   error + 'a canvas" where
  "mosaic_image np img palette_colors palette_images tsize zoom max_emoji_block =
     (case build_emoji_grid np img tsize palette_colors of
        Inl e \<Rightarrow> Inl e
      | Inr grid \<Rightarrow>
          (case render_grid_pil grid palette_images tsize zoom max_emoji_block of
             Inl e \<Rightarrow> Inl e
           | Inr (covered, out) \<Rightarrow> Inr out))"

subsection \<open>\<open>build_emoji_palette\<close>\<close>

text \<open>
  A directory is the list of its entries in the order the file system yields them:
  a name, and the pixels of \<open>Image.open(path).convert("RGBA")\<close>, or \<open>None\<close> when the
  imaging library cannot open the entry. \<open>glob("*.png")\<close> keeps the names that end
  in \<open>.png\<close> (in lower case: the match is case-sensitive, as on POSIX systems), and
  \<open>sorted\<close> orders the paths of one directory by their names. The render image of a
  tile is \<open>img.resize((size, size), Image.LANCZOS)\<close>, which the library refuses for a
  \<open>size\<close> below one; the loop of lines 49 to 53 stops at the first exception. The colours
  are returned as \<open>np.array(colors, dtype=np.float32)\<close>.
\<close>

type_synonym dir_entry = "string \<times> rgba ndarray option"

definition glob_png :: "string \<Rightarrow> bool" where
  "glob_png name \<longleftrightarrow> 4 \<le> length name \<and> drop (length name - 4) name = ''.png''"

definition build_emoji_palette ::
  "numpy_ops \<Rightarrow> dir_entry list \<Rightarrow> int \<Rightarrow>
   error + (fcolor list \<times> rgba ndarray pil_image list)" where
  "build_emoji_palette np emojis_dir tsize =
     (case sequence (map (\<lambda>(path, content).
              case content of
                None \<Rightarrow> Inl DecodeError
              | Some img \<Rightarrow>
                  (case pil_resize (Source img) (tsize, tsize) of
                     Inl e \<Rightarrow> Inl e
                   | Inr render \<Rightarrow> Inr (average_color (RGBA img), render)))
            (sort_key fst (filter (\<lambda>(path, content). glob_png path) emojis_dir))) of
        Inl e \<Rightarrow> Inl e
      | Inr tiles \<Rightarrow> Inr (map (\<lambda>t. f32_array np (fst t)) tiles, map snd tiles))"

subsection \<open>\<open>main\<close>\<close>

text \<open>
  The command line's treatment of \<open>--max-emoji-block\<close>, line 145 of the source:
  \<open>max_emoji_block = max(1, args.max_emoji_block)\<close>.
\<close>

definition main_max_emoji_block :: "int \<Rightarrow> int" where
  "main_max_emoji_block n = max 1 n"

subsection \<open>The \<open>float32\<close> operations of numpy\<close>

text \<open>
  A \<open>float32\<close> has 24 significant bits and an exponent of at least \<open>-126\<close>, below
  which the spacing of the numbers stays \<open>2^-149\<close>. Every operation returns the
  \<open>float32\<close> nearest to the exact result, the one of even significand on a tie. The
  numbers of this program stay far below \<open>2^128\<close>, where \<open>float32\<close> overflows, so
  that overflow is not modelled.
\<close>

definition pow2 :: "int \<Rightarrow> real" where
  "pow2 e = (if 0 \<le> e then 2 ^ nat e else 1 / 2 ^ nat (- e))"

text \<open>The exponent of a positive real \<open>x\<close>: the \<open>e\<close> with \<open>2^e \<le> x < 2^(e+1)\<close>.\<close>

definition floor_log2 :: "real \<Rightarrow> int" where
  "floor_log2 x =
     (if 1 \<le> x then bitlen \<lfloor>x\<rfloor> - 1
      else let k = bitlen \<lfloor>1 / x\<rfloor> - 1 in if 1 / x = pow2 k then - k else - k - 1)"

definition round_half_even :: "real \<Rightarrow> int" where
  "round_half_even q =
     (let f = \<lfloor>q\<rfloor>; d = q - of_int f
      in if d < 1 / 2 then f else if 1 / 2 < d then f + 1 else if even f then f else f + 1)"

definition round_float32 :: "real \<Rightarrow> real" where
  "round_float32 x =
     (if x = 0 then 0
      else let e = max (floor_log2 \<bar>x\<bar>) (- 126); ulp = pow2 (e - 23)
           in sgn x * of_int (round_half_even (\<bar>x\<bar> / ulp)) * ulp)"

text \<open>\<open>np.array(colors, dtype=np.float32)\<close>, one row.\<close>

fun float32_array :: "fcolor \<Rightarrow> fcolor" where
  "float32_array (RGBf r g b) = RGBf (round_float32 r) (round_float32 g) (round_float32 b)"
| "float32_array NaNf = NaNf"

text \<open>
  \<open>a.mean(axis=0)\<close> on a \<open>float32\<close> array of shape \<open>(n, 3)\<close>: numpy adds the rows one
  after the other to an accumulator of \<open>float32\<close> that starts at zero, and divides the
  sum by \<open>n\<close> (for fewer than \<open>2^24\<close> rows, \<open>n\<close> is a \<open>float32\<close>). Over zero rows it
  divides zero by zero.
\<close>

definition sum_float32 :: "real list \<Rightarrow> real" where
  "sum_float32 xs = foldl (\<lambda>acc x. round_float32 (acc + x)) 0 xs"

definition float32_mean :: "rgb list \<Rightarrow> fcolor" where
  "float32_mean px =
     (if px = [] then NaNf
      else RGBf (round_float32 (sum_float32 (map red px) / real (length px)))
                (round_float32 (sum_float32 (map green px) / real (length px)))
                (round_float32 (sum_float32 (map blue px) / real (length px))))"

text \<open>
  One entry of \<open>np.sum((palette_colors - color) ** 2, axis=1)\<close>: the three differences,
  their squares, and the sum of the squares from the left, each a \<open>float32\<close>.
\<close>

fun float32_sq_distance :: "fcolor \<Rightarrow> fcolor \<Rightarrow> real option" where
  "float32_sq_distance (RGBf r g b) (RGBf pr pg pb) =
     (let dr = round_float32 (pr - r); dg = round_float32 (pg - g); db = round_float32 (pb - b);
          sr = round_float32 (dr * dr); sg = round_float32 (dg * dg); sb = round_float32 (db * db)
      in Some (round_float32 (round_float32 (sr + sg) + sb)))"
| "float32_sq_distance _ _ = None"

definition float32_ops :: numpy_ops where
  "float32_ops = \<lparr>f32_array = float32_array, f32_mean = float32_mean,
                   f32_sq_distance = float32_sq_distance\<rparr>"

section \<open>The vocabulary of the specification\<close>

text \<open>The \<open>(row, col, index, side)\<close> block of a paste and the cells it covers.\<close>

definition covers :: "nat \<Rightarrow> nat \<Rightarrow> 'a paste \<Rightarrow> bool" where
  "covers i j p \<longleftrightarrow>
     p_row p \<le> i \<and> i < p_row p + p_side p \<and> p_col p \<le> j \<and> j < p_col p + p_side p"

definition inside :: "int ndarray \<Rightarrow> 'a paste \<Rightarrow> bool" where
  "inside grid p \<longleftrightarrow>
     1 \<le> p_side p \<and> p_row p + p_side p \<le> nrows grid \<and> p_col p + p_side p \<le> ncols grid"

text \<open>
  The specification's reading of a candidate block: every cell of the \<open>side \<times> side\<close>
  block anchored at \<open>(row, col)\<close> equals \<open>v\<close> and none of them is covered.
\<close>

definition uniform_uncovered ::
  "int ndarray \<Rightarrow> bool ndarray \<Rightarrow> nat \<Rightarrow> nat \<Rightarrow> int \<Rightarrow> nat \<Rightarrow> bool" where
  "uniform_uncovered grid covered row col v side \<longleftrightarrow>
     (\<forall>i \<in> {row..<row + side}. \<forall>j \<in> {col..<col + side}.
        cells grid ! i ! j = v \<and> \<not> cells covered ! i ! j)"

text \<open>
  The squared Euclidean distance of the specification, between a region colour and a
  palette colour given by their channels.
\<close>

definition squared_distance :: "real \<times> real \<times> real \<Rightarrow> real \<times> real \<times> real \<Rightarrow> real" where
  "squared_distance c p =
     (fst c - fst p)\<^sup>2 + (fst (snd c) - fst (snd p))\<^sup>2 + (snd (snd c) - snd (snd p))\<^sup>2"

text \<open>The mean of one channel over a list of pixels, as the specification words it.\<close>

definition channel_mean :: "(rgb \<Rightarrow> real) \<Rightarrow> rgb list \<Rightarrow> real" where
  "channel_mean ch pixels = (\<Sum>p\<leftarrow>pixels. ch p) / real (length pixels)"

text \<open>The pixels of the region of cell \<open>(y, x)\<close>: the block clipped to the image.\<close>

definition region :: "rgb ndarray \<Rightarrow> nat \<Rightarrow> nat \<Rightarrow> nat \<Rightarrow> rgb list" where
  "region img s y x =
     [cells img ! py ! px. py \<leftarrow> [y * s..<min (y * s + s) (nrows img)],
                          px \<leftarrow> [x * s..<min (x * s + s) (ncols img)]]"

section \<open>Predicates of the proofs\<close>

text \<open>What the search of \<open>largest_uniform_square\<close> is run on, as a natural number.\<close>

definition max_possible :: "int ndarray \<Rightarrow> nat \<Rightarrow> nat \<Rightarrow> int \<Rightarrow> nat" where
  "max_possible grid row col max_side =
     nat (min max_side (min (int (nrows grid) - int row) (int (ncols grid) - int col)))"

text \<open>The cell the scan stands on: in bounds, not covered, and holding the queried index.\<close>

definition at_free_cell :: "int ndarray \<Rightarrow> bool ndarray \<Rightarrow> nat \<Rightarrow> nat \<Rightarrow> int \<Rightarrow> bool" where
  "at_free_cell grid covered row col v \<longleftrightarrow>
     well_shaped grid \<and> well_shaped covered \<and>
     nrows covered = nrows grid \<and> ncols covered = ncols grid \<and>
     row < nrows grid \<and> col < ncols grid \<and>
     \<not> cells covered ! row ! col \<and> cells grid ! row ! col = v"

text \<open>Every cell of the grid is an index into a palette of \<open>n\<close> tiles.\<close>

definition palette_indices :: "int ndarray \<Rightarrow> nat \<Rightarrow> bool" where
  "palette_indices grid n \<longleftrightarrow> list_all (list_all (\<lambda>v. 0 \<le> v \<and> v < int n)) (cells grid)"

text \<open>What the loop body guarantees of each paste it issues.\<close>

definition paste_ok ::
  "int ndarray \<Rightarrow> 'a pil_image list \<Rightarrow> int \<Rightarrow> int \<Rightarrow> int \<Rightarrow> 'a paste \<Rightarrow> bool" where
  "paste_ok grid palette_images tsize zoom max_side p \<longleftrightarrow>
     inside grid p \<and>
     (1 \<le> max_side \<longrightarrow> int (p_side p) \<le> max_side) \<and>
     p_index p = cells grid ! p_row p ! p_col p \<and>
     (\<forall>i j. covers i j p \<longrightarrow> cells grid ! i ! j = p_index p) \<and>
     (\<exists>emoji. py_get palette_images (p_index p) = Inr emoji \<and>
        p_image p = (if p_side p \<noteq> 1 \<or> zoom \<noteq> 1
                     then Resize emoji (int (p_side p) * tsize * zoom) (int (p_side p) * tsize * zoom)
                     else emoji)) \<and>
     p_mask p = p_image p \<and>
     p_box p = (int (p_col p) * tsize * zoom, int (p_row p) * tsize * zoom)"

text \<open>The invariant of both loops: the mask records exactly the cells pasted over, once each.\<close>

definition loop_inv ::
  "int ndarray \<Rightarrow> 'a pil_image list \<Rightarrow> int \<Rightarrow> int \<Rightarrow> int \<Rightarrow> bool ndarray \<times> 'a canvas \<Rightarrow> bool" where
  "loop_inv grid palette_images tsize zoom max_side st \<longleftrightarrow>
     well_shaped (fst st) \<and> nrows (fst st) = nrows grid \<and> ncols (fst st) = ncols grid \<and>
     c_width (snd st) = int (ncols grid) * tsize * zoom \<and>
     c_height (snd st) = int (nrows grid) * tsize * zoom \<and>
     (\<forall>p \<in> set (c_pastes (snd st)). paste_ok grid palette_images tsize zoom max_side p) \<and>
     (\<forall>i j. i < nrows grid \<and> j < ncols grid \<longrightarrow>
        length (filter (covers i j) (c_pastes (snd st))) = (if cells (fst st) ! i ! j then 1 else 0))"

text \<open>Every cell before \<open>(row, col)\<close> in row-major order is covered.\<close>

definition scanned :: "bool ndarray \<Rightarrow> nat \<Rightarrow> nat \<Rightarrow> bool" where
  "scanned covered row col \<longleftrightarrow>
     (\<forall>i j. i < nrows covered \<and> j < ncols covered \<and> (i < row \<or> i = row \<and> j < col)
        \<longrightarrow> cells covered ! i ! j)"

section \<open>Example inputs\<close>

definition example_grid :: "int ndarray" where
  "example_grid = \<lparr>nrows = 2, ncols = 3, cells = [[1, 1, 0], [1, 1, 0]]\<rparr>"

definition example_tiles :: "nat pil_image list" where
  "example_tiles = [Source 0, Source 1]"

definition example_image :: "rgb ndarray" where
  "example_image = \<lparr>nrows = 2, ncols = 3,
      cells = [[(0, 0, 0), (10, 10, 10), (250, 250, 250)],
               [(0, 0, 0), (20, 0, 0), (255, 255, 255)]]\<rparr>"

definition example_palette :: "fcolor list" where
  "example_palette = [RGBf 0 0 0, RGBf 255 255 255]"

text \<open>
  Three pixels whose red channels sum to one, and two palette colours, both
  \<open>float32\<close>: the neighbours above and below of the \<open>float32\<close> nearest to one third.
\<close>

definition third_image :: "rgb ndarray" where
  "third_image = \<lparr>nrows = 1, ncols = 3, cells = [[(1, 0, 0), (0, 0, 0), (0, 0, 0)]]\<rparr>"

definition third_palette :: "fcolor list" where
  "third_palette = [RGBf (11184812 / 33554432) 0 0, RGBf (11184810 / 33554432) 0 0]"

definition example_tile :: "rgba ndarray" where
  "example_tile = \<lparr>nrows = 1, ncols = 3,
      cells = [[(255, 0, 0, 255), (0, 0, 255, 0), (55, 0, 100, 1)]]\<rparr>"

definition transparent_tile :: "rgba ndarray" where
  "transparent_tile = \<lparr>nrows = 1, ncols = 2, cells = [[(255, 0, 0, 0), (0, 9, 255, 0)]]\<rparr>"

definition example_dir :: "dir_entry list" where
  "example_dir =
     [(''b.png'', Some \<lparr>nrows = 1, ncols = 1, cells = [[(255, 0, 0, 255)]]\<rparr>),
      (''a.jpg'', Some \<lparr>nrows = 1, ncols = 1, cells = [[(0, 255, 0, 255)]]\<rparr>),
      (''notes.txt'', None),
      (''a.png'', Some \<lparr>nrows = 1, ncols = 1, cells = [[(0, 0, 9, 0)]]\<rparr>)]"

section \<open>Properties\<close>

subsection \<open>Slices of well-shaped arrays\<close>

lemma py_bound_int: "py_bound n (int a) = min n a"
  by (simp add: py_bound_def)

lemma py_slice_nat: "py_slice (int a) (int a + int s) xs = take s (drop a xs)"
proof -
  have "int a + int s = int (a + s)" by simp
  then have "py_slice (int a) (int a + int s) xs
      = take (min (length xs) (a + s) - min (length xs) a) (drop (min (length xs) a) xs)"
    by (simp only: py_slice_def py_bound_int Let_def)
  also have "\<dots> = take s (drop a xs)"
  proof (cases "a \<le> length xs")
    case True
    then show ?thesis by (cases "a + s \<le> length xs") (simp_all add: min_def)
  next
    case False
    then show ?thesis by (simp add: min_def)
  qed
  finally show ?thesis .
qed

lemma slice2_nat:
  "slice2 a (int r) (int r + int s) (int c) (int c + int s)
     = map (\<lambda>xs. take s (drop c xs)) (take s (drop r a))"
  by (simp add: slice2_def py_slice_nat)

lemma well_shaped_nth:
  "well_shaped a \<Longrightarrow> i < nrows a \<Longrightarrow> length (cells a ! i) = ncols a"
  by (simp add: well_shaped_def list_all_length)

lemma well_shaped_length: "well_shaped a \<Longrightarrow> length (cells a) = nrows a"
  by (simp add: well_shaped_def)

lemma all_block_iff:
  assumes "well_shaped a" and "r + s \<le> nrows a" and "c + s \<le> ncols a"
  shows "list_all (list_all P) (map (\<lambda>xs. take s (drop c xs)) (take s (drop r (cells a))))
         \<longleftrightarrow> (\<forall>i j. r \<le> i \<and> i < r + s \<and> c \<le> j \<and> j < c + s \<longrightarrow> P (cells a ! i ! j))"
proof
  assume L: "list_all (list_all P) (map (\<lambda>xs. take s (drop c xs)) (take s (drop r (cells a))))"
  show "\<forall>i j. r \<le> i \<and> i < r + s \<and> c \<le> j \<and> j < c + s \<longrightarrow> P (cells a ! i ! j)"
  proof (intro allI impI)
    fix i j assume ij: "r \<le> i \<and> i < r + s \<and> c \<le> j \<and> j < c + s"
    then have i: "i - r < s" "r + (i - r) = i" and j: "j - c < s" "c + (j - c) = j" by auto
    from assms ij have len: "length (cells a) = nrows a" "length (cells a ! i) = ncols a"
      by (auto simp: well_shaped_length well_shaped_nth)
    from i assms len have "i - r < length (take s (drop r (cells a)))" by simp
    with L have "list_all P (take s (drop c (take s (drop r (cells a)) ! (i - r))))"
      by (simp add: list_all_length)
    with i assms len have row: "list_all P (take s (drop c (cells a ! i)))" by simp
    from j assms len have "j - c < length (take s (drop c (cells a ! i)))" by simp
    with row have "P (take s (drop c (cells a ! i)) ! (j - c))"
      by (simp only: list_all_length)
    with j assms len show "P (cells a ! i ! j)" by simp
  qed
next
  assume R: "\<forall>i j. r \<le> i \<and> i < r + s \<and> c \<le> j \<and> j < c + s \<longrightarrow> P (cells a ! i ! j)"
  from assms have len: "length (cells a) = nrows a" by (simp add: well_shaped_length)
  show "list_all (list_all P) (map (\<lambda>xs. take s (drop c xs)) (take s (drop r (cells a))))"
    unfolding list_all_length
  proof (intro allI impI)
    fix n assume n: "n < length (map (\<lambda>xs. take s (drop c xs)) (take s (drop r (cells a))))"
    then have ns: "n < s" by simp
    with assms len have rn: "r + n < nrows a" by simp
    then have lenr: "length (cells a ! (r + n)) = ncols a"
      using assms by (simp add: well_shaped_nth)
    fix m assume m: "m < length (map (\<lambda>xs. take s (drop c xs)) (take s (drop r (cells a))) ! n)"
    with ns rn len have ms: "m < s" by simp
    from R ns ms have "P (cells a ! (r + n) ! (c + m))" by simp
    with ns ms rn len lenr assms show "P (map (\<lambda>xs. take s (drop c xs)) (take s (drop r (cells a))) ! n ! m)"
      by simp
  qed
qed

lemma block_free_iff:
  assumes "well_shaped grid" and "well_shaped covered"
    and "nrows covered = nrows grid" and "ncols covered = ncols grid"
    and "row + side \<le> nrows grid" and "col + side \<le> ncols grid"
  shows "block_free grid covered row col v side \<longleftrightarrow>
     (\<forall>i j. row \<le> i \<and> i < row + side \<and> col \<le> j \<and> j < col + side \<longrightarrow>
        cells grid ! i ! j = v \<and> \<not> cells covered ! i ! j)"
proof -
  have ex: "\<not> list_ex (list_ex (\<lambda>b. b)) xss \<longleftrightarrow> list_all (list_all (\<lambda>b. \<not> b)) xss" for xss
    by (auto simp: list_all_iff list_ex_iff)
  show ?thesis
    using assms
    by (simp add: block_free_def Let_def slice2_nat ex all_block_iff) blast
qed

subsection \<open>The search of \<open>largest_uniform_square\<close>\<close>

lemma range_down_nat: "range_down n = range_down (int (nat n))"
  by (simp add: range_down_def)

lemma range_down_0: "range_down (int 0) = []"
  by (simp add: range_down_def)

lemma range_down_Suc: "range_down (int (Suc m)) = Suc m # range_down (int m)"
proof -
  have "nat (int (Suc m)) = Suc m" and "nat (int m) = m" by simp_all
  then show ?thesis unfolding range_down_def by (simp only: upt_Suc rev_append) simp
qed

lemma find_range_down_Some:
  "List.find P (range_down (int m)) = Some s \<longleftrightarrow>
     1 \<le> s \<and> s \<le> m \<and> P s \<and> (\<forall>t. s < t \<and> t \<le> m \<longrightarrow> \<not> P t)"
proof (induction m)
  case 0
  show ?case by (simp only: range_down_0) auto
next
  case (Suc m)
  show ?case
  proof (cases "P (Suc m)")
    case True
    have "s = Suc m" if "s \<le> Suc m" "\<forall>t. s < t \<and> t \<le> Suc m \<longrightarrow> \<not> P t" for s
      using that True by (cases "s = Suc m") auto
    with True show ?thesis
      by (simp only: range_down_Suc) auto
  next
    case False
    have "(\<forall>t. s < t \<and> t \<le> Suc m \<longrightarrow> \<not> P t) \<longleftrightarrow> (\<forall>t. s < t \<and> t \<le> m \<longrightarrow> \<not> P t)"
      using False by (auto simp: le_Suc_eq)
    moreover have "P s \<Longrightarrow> s \<le> Suc m \<longleftrightarrow> s \<le> m"
      using False by (auto simp: le_Suc_eq)
    ultimately show ?thesis
      using False Suc.IH by (simp only: range_down_Suc) auto
  qed
qed

lemma find_range_down_None:
  "List.find P (range_down (int m)) = None \<longleftrightarrow> (\<forall>s. 1 \<le> s \<and> s \<le> m \<longrightarrow> \<not> P s)"
  by (auto simp: find_None_iff range_down_set)

lemma search_side_eq:
  "search_side grid covered row col v max_side =
     List.find (block_free grid covered row col v)
       (range_down (int (max_possible grid row col max_side)))"
  unfolding search_side_def Let_def max_possible_def
  by (rule arg_cong [OF range_down_nat])

lemma max_possible_le:
  "row < nrows grid \<Longrightarrow> col < ncols grid \<Longrightarrow>
   row + max_possible grid row col max_side \<le> nrows grid \<and>
   col + max_possible grid row col max_side \<le> ncols grid"
  by (auto simp: max_possible_def)

lemma max_possible_pos:
  "row < nrows grid \<Longrightarrow> col < ncols grid \<Longrightarrow> 1 \<le> max_side \<Longrightarrow>
   1 \<le> max_possible grid row col max_side \<and> int (max_possible grid row col max_side) \<le> max_side"
  by (auto simp: max_possible_def)

lemma block_free_1:
  assumes "at_free_cell grid covered row col v"
  shows "block_free grid covered row col v 1"
proof -
  from assms have "row + 1 \<le> nrows grid" "col + 1 \<le> ncols grid"
    by (auto simp: at_free_cell_def)
  moreover have "i = row \<and> j = col"
    if "row \<le> i \<and> i < row + 1 \<and> col \<le> j \<and> j < col + 1" for i j
    using that by auto
  ultimately show ?thesis
    using assms by (simp add: block_free_iff at_free_cell_def) (metis le_antisym less_Suc_eq_le)
qed

lemma search_side_Some:
  assumes "at_free_cell grid covered row col v" and "1 \<le> max_side"
  shows "\<exists>side. search_side grid covered row col v max_side = Some side"
proof -
  from assms have "1 \<le> max_possible grid row col max_side"
    using max_possible_pos [of row grid col max_side] by (simp add: at_free_cell_def)
  with block_free_1 [OF assms(1)]
  have "List.find (block_free grid covered row col v)
          (range_down (int (max_possible grid row col max_side))) \<noteq> None"
    by (auto simp: find_range_down_None simp del: One_nat_def)
  then show ?thesis by (auto simp: search_side_eq)
qed

text \<open>
  The side returned, whatever \<open>max_side\<close> is: at least one, inside the grid, and
  the block passes the test.
\<close>

lemma largest_uniform_square_free:
  assumes "at_free_cell grid covered row col v"
  shows "block_free grid covered row col v
           (largest_uniform_square grid covered row col v max_side) \<and>
         row + largest_uniform_square grid covered row col v max_side \<le> nrows grid \<and>
         col + largest_uniform_square grid covered row col v max_side \<le> ncols grid"
proof (cases "search_side grid covered row col v max_side")
  case None
  with assms block_free_1 [OF assms] show ?thesis
    by (auto simp: largest_uniform_square_def at_free_cell_def)
next
  case (Some side)
  then have "side \<le> max_possible grid row col max_side \<and> block_free grid covered row col v side"
    by (simp add: search_side_eq find_range_down_Some)
  moreover from assms have "row + max_possible grid row col max_side \<le> nrows grid \<and>
      col + max_possible grid row col max_side \<le> ncols grid"
    by (simp add: max_possible_le at_free_cell_def)
  ultimately show ?thesis using Some by (simp add: largest_uniform_square_def)
qed

lemma largest_uniform_square_le:
  assumes "at_free_cell grid covered row col v" and "1 \<le> max_side"
  shows "int (largest_uniform_square grid covered row col v max_side) \<le> max_side"
proof -
  from search_side_Some [OF assms] obtain side
    where S: "search_side grid covered row col v max_side = Some side" by blast
  then have "side \<le> max_possible grid row col max_side"
    by (simp add: search_side_eq find_range_down_Some)
  moreover from assms have "int (max_possible grid row col max_side) \<le> max_side"
    using max_possible_pos [of row grid col max_side] by (simp add: at_free_cell_def)
  ultimately show ?thesis using S by (simp add: largest_uniform_square_def)
qed

subsection \<open>The loop invariant\<close>

lemma assign_slice2_length: "length (assign_slice2 a r0 r1 c0 c1 v) = length a"
  by (simp add: assign_slice2_def)

lemma assign_slice2_row_length:
  "i < length a \<Longrightarrow> length (assign_slice2 a r0 r1 c0 c1 v ! i) = length (a ! i)"
  by (simp add: assign_slice2_def)

lemma assign_slice2_nth:
  "i < length a \<Longrightarrow> j < length (a ! i) \<Longrightarrow>
   assign_slice2 a r0 r1 c0 c1 v ! i ! j =
     (if r0 \<le> i \<and> i < r1 \<and> c0 \<le> j \<and> j < c1 then v else a ! i ! j)"
  by (simp add: assign_slice2_def)

lemma assign_slice2_well_shaped:
  assumes "well_shaped a"
  shows "well_shaped (a\<lparr>cells := assign_slice2 (cells a) r0 r1 c0 c1 v\<rparr>)"
  using assms
  by (simp add: well_shaped_def list_all_length assign_slice2_length assign_slice2_row_length)

lemma palette_indices_get:
  assumes "palette_indices grid (length palette_images)" and "well_shaped grid"
    and "i < nrows grid" and "j < ncols grid"
  shows "py_get palette_images (cells grid ! i ! j) = Inr (palette_images ! nat (cells grid ! i ! j))"
proof -
  from assms have "i < length (cells grid)" "j < length (cells grid ! i)"
    by (simp_all add: well_shaped_length well_shaped_nth)
  with assms(1) have "0 \<le> cells grid ! i ! j \<and> cells grid ! i ! j < int (length palette_images)"
    by (simp add: palette_indices_def list_all_length)
  then show ?thesis by (simp add: py_get_def)
qed

text \<open>One pass through the body of the \<open>while\<close> loop at a cell that is not covered.\<close>

lemma body_keeps_inv:
  fixes grid :: "int ndarray" and palette_images :: "'a pil_image list"
    and out :: "'a canvas"
  assumes wf: "well_shaped grid"
    and pal: "palette_indices grid (length palette_images)"
    and inv: "loop_inv grid palette_images tsize zoom max_side (covered, out)"
    and sc: "scanned covered row col"
    and row: "row < nrows grid" and col: "col < ncols grid"
    and free: "\<not> cells covered ! row ! col"
    and side: "side = largest_uniform_square grid covered row col (cells grid ! row ! col) max_side"
    and emoji: "emoji = palette_images ! nat (cells grid ! row ! col)"
    and cov': "covered' = covered\<lparr>cells :=
                 assign_slice2 (cells covered) row (row + side) col (col + side) True\<rparr>"
    and out': "out' = out\<lparr>c_pastes := c_pastes out @
                 [\<lparr>p_row = row, p_col = col, p_index = cells grid ! row ! col, p_side = side,
                   p_image = (if side \<noteq> 1 \<or> zoom \<noteq> 1
                              then Resize emoji (int side * tsize * zoom) (int side * tsize * zoom)
                              else emoji),
                   p_box = (int col * tsize * zoom, int row * tsize * zoom),
                   p_mask = (if side \<noteq> 1 \<or> zoom \<noteq> 1
                              then Resize emoji (int side * tsize * zoom) (int side * tsize * zoom)
                              else emoji)\<rparr>]\<rparr>"
  shows "loop_inv grid palette_images tsize zoom max_side (covered', out') \<and>
         scanned covered' row (col + side) \<and> col + side \<le> ncols grid"
proof -
  let ?v = "cells grid ! row ! col"
  let ?p = "\<lparr>p_row = row, p_col = col, p_index = ?v, p_side = side,
              p_image = (if side \<noteq> 1 \<or> zoom \<noteq> 1
                         then Resize emoji (int side * tsize * zoom) (int side * tsize * zoom)
                         else emoji),
              p_box = (int col * tsize * zoom, int row * tsize * zoom),
              p_mask = (if side \<noteq> 1 \<or> zoom \<noteq> 1
                         then Resize emoji (int side * tsize * zoom) (int side * tsize * zoom)
                         else emoji)\<rparr> :: 'a paste"
  from inv have wfc: "well_shaped covered" and shape: "nrows covered = nrows grid" "ncols covered = ncols grid"
    by (simp_all add: loop_inv_def)
  from wf wfc shape row col free have cell: "at_free_cell grid covered row col ?v"
    by (simp add: at_free_cell_def)
  from largest_uniform_square_free [OF cell, of max_side] side
  have bf: "block_free grid covered row col ?v side"
    and fit: "row + side \<le> nrows grid" "col + side \<le> ncols grid"
    by simp_all
  have pos: "1 \<le> side" unfolding side by (rule largest_uniform_square_pos)
  from bf have "\<forall>i j. row \<le> i \<and> i < row + side \<and> col \<le> j \<and> j < col + side \<longrightarrow>
      cells grid ! i ! j = ?v \<and> \<not> cells covered ! i ! j"
    by (simp only: block_free_iff [OF wf wfc shape fit])
  then have block: "\<And>i j. row \<le> i \<and> i < row + side \<and> col \<le> j \<and> j < col + side \<Longrightarrow>
      cells grid ! i ! j = ?v \<and> \<not> cells covered ! i ! j"
    by blast
  have cov_p: "covers i j ?p \<longleftrightarrow> row \<le> i \<and> i < row + side \<and> col \<le> j \<and> j < col + side" for i j
    by (simp add: covers_def)
  have get: "py_get palette_images ?v = Inr emoji"
    unfolding emoji using pal wf row col by (rule palette_indices_get)
  have bound: "1 \<le> max_side \<longrightarrow> int side \<le> max_side"
    unfolding side using largest_uniform_square_le [OF cell] by blast
  have uniform: "\<forall>i j. covers i j ?p \<longrightarrow> cells grid ! i ! j = ?v"
    using block cov_p by blast
  have p1: "inside grid ?p" using pos fit by (simp add: inside_def)
  have p2: "1 \<le> max_side \<longrightarrow> int (p_side ?p) \<le> max_side" using bound by simp
  have p3: "p_index ?p = cells grid ! p_row ?p ! p_col ?p" by simp
  have "p_index ?p = ?v" by simp
  then have p4: "\<forall>i j. covers i j ?p \<longrightarrow> cells grid ! i ! j = p_index ?p"
    using uniform by (simp only:)
  have p5: "\<exists>e. py_get palette_images (p_index ?p) = Inr e \<and>
        p_image ?p = (if p_side ?p \<noteq> 1 \<or> zoom \<noteq> 1
                     then Resize e (int (p_side ?p) * tsize * zoom) (int (p_side ?p) * tsize * zoom)
                     else e)"
    using get by simp
  have p6: "p_mask ?p = p_image ?p" by simp
  have p7: "p_box ?p = (int (p_col ?p) * tsize * zoom, int (p_row ?p) * tsize * zoom)" by simp
  have p_ok: "paste_ok grid palette_images tsize zoom max_side ?p"
    unfolding paste_ok_def by (intro conjI p1 p2 p3 p4 p5 p6 p7)
  have nth': "cells covered' ! i ! j =
      (if row \<le> i \<and> i < row + side \<and> col \<le> j \<and> j < col + side then True else cells covered ! i ! j)"
    if "i < nrows grid" "j < ncols grid" for i j
    using that wfc shape unfolding cov'
    by (simp add: assign_slice2_nth well_shaped_length well_shaped_nth)
  have wfc': "well_shaped covered'" unfolding cov' using wfc by (rule assign_slice2_well_shaped)
  have shape': "nrows covered' = nrows grid" "ncols covered' = ncols grid"
    using shape by (simp_all add: cov')
  have count: "length (filter (covers i j) (c_pastes out')) = (if cells covered' ! i ! j then 1 else 0)"
    if ij: "i < nrows grid" "j < ncols grid" for i j
  proof -
    from inv ij have old: "length (filter (covers i j) (c_pastes out)) = (if cells covered ! i ! j then 1 else 0)"
      by (simp add: loop_inv_def)
    have "length (filter (covers i j) (c_pastes out')) =
        length (filter (covers i j) (c_pastes out)) + (if covers i j ?p then 1 else 0)"
      by (simp add: out')
    moreover have "\<not> cells covered ! i ! j" if "covers i j ?p"
      using that block [of i j] cov_p [of i j] by blast
    ultimately show ?thesis
      using old by (cases "covers i j ?p") (simp_all add: nth' [OF ij] cov_p [symmetric])
  qed
  have pastes: "\<forall>p \<in> set (c_pastes out'). paste_ok grid palette_images tsize zoom max_side p"
    using inv p_ok by (auto simp: loop_inv_def out')
  have dims: "c_width out' = int (ncols grid) * tsize * zoom" "c_height out' = int (nrows grid) * tsize * zoom"
    using inv by (simp_all add: loop_inv_def out')
  have inv': "loop_inv grid palette_images tsize zoom max_side (covered', out')"
    unfolding loop_inv_def using wfc' shape' dims pastes count by simp
  have "cells covered' ! i ! j"
    if "i < nrows covered'" "j < ncols covered'" "i < row \<or> i = row \<and> j < col + side" for i j
  proof (cases "i = row \<and> col \<le> j")
    case True
    with that pos show ?thesis by (simp add: nth' shape')
  next
    case False
    with that have "i < row \<or> i = row \<and> j < col" by auto
    with sc that have "cells covered ! i ! j" by (simp add: scanned_def shape shape')
    with that show ?thesis by (simp add: nth' shape')
  qed
  then have "scanned covered' row (col + side)" by (simp add: scanned_def)
  with inv' fit show ?thesis by simp
qed

subsection \<open>The loops keep the invariant and cover every row\<close>

lemma row_loop_done:
  "\<not> col < ncols grid \<Longrightarrow>
   row_loop grid palette_images tsize zoom max_side row col (covered, out) = Inr (covered, out)"
  by (subst row_loop.simps) simp

lemma row_loop_skip:
  "col < ncols grid \<Longrightarrow> cells covered ! row ! col \<Longrightarrow>
   row_loop grid palette_images tsize zoom max_side row col (covered, out) =
   row_loop grid palette_images tsize zoom max_side row (col + 1) (covered, out)"
  by (subst row_loop.simps) simp

lemma row_loop_fail:
  "col < ncols grid \<Longrightarrow> \<not> cells covered ! row ! col \<Longrightarrow>
   py_get palette_images (cells grid ! row ! col) = Inl e \<Longrightarrow>
   row_loop grid palette_images tsize zoom max_side row col (covered, out) = Inl e"
  by (subst row_loop.simps) (simp add: Let_def)

lemma row_loop_place:
  "col < ncols grid \<Longrightarrow> \<not> cells covered ! row ! col \<Longrightarrow>
   py_get palette_images (cells grid ! row ! col) = Inr emoji \<Longrightarrow>
   side = largest_uniform_square grid covered row col (cells grid ! row ! col) max_side \<Longrightarrow>
   row_loop grid palette_images tsize zoom max_side row col (covered, out) =
   row_loop grid palette_images tsize zoom max_side row (col + side)
     (covered\<lparr>cells := assign_slice2 (cells covered) row (row + side) col (col + side) True\<rparr>,
      out\<lparr>c_pastes := c_pastes out @
         [\<lparr>p_row = row, p_col = col, p_index = cells grid ! row ! col, p_side = side,
           p_image = (if side \<noteq> 1 \<or> zoom \<noteq> 1
                      then Resize emoji (int side * tsize * zoom) (int side * tsize * zoom)
                      else emoji),
           p_box = (int col * tsize * zoom, int row * tsize * zoom),
           p_mask = (if side \<noteq> 1 \<or> zoom \<noteq> 1
                      then Resize emoji (int side * tsize * zoom) (int side * tsize * zoom)
                      else emoji)\<rparr>]\<rparr>)"
  by (subst row_loop.simps) (simp add: Let_def)

lemma scanned_row_end:
  assumes "scanned covered row col" and "ncols covered \<le> col"
  shows "scanned covered (Suc row) 0"
  unfolding scanned_def
proof (intro allI impI)
  fix i j
  assume a: "i < nrows covered \<and> j < ncols covered \<and> (i < Suc row \<or> i = Suc row \<and> j < 0)"
  with assms(2) have "i < row \<or> i = row \<and> j < col" by auto
  with a assms(1) show "cells covered ! i ! j" unfolding scanned_def by blast
qed

lemma scanned_skip:
  assumes "scanned covered row col" and "cells covered ! row ! col"
  shows "scanned covered row (col + 1)"
  unfolding scanned_def
proof (intro allI impI)
  fix i j
  assume a: "i < nrows covered \<and> j < ncols covered \<and> (i < row \<or> i = row \<and> j < col + 1)"
  show "cells covered ! i ! j"
  proof (cases "i = row \<and> j = col")
    case True
    with assms(2) show ?thesis by simp
  next
    case False
    with a have "i < row \<or> i = row \<and> j < col" by auto
    with a assms(1) show ?thesis unfolding scanned_def by blast
  qed
qed

lemma row_loop_inv:
  fixes grid :: "int ndarray" and palette_images :: "'a pil_image list"
    and st :: "bool ndarray \<times> 'a canvas"
  assumes wf: "well_shaped grid"
    and pal: "palette_indices grid (length palette_images)"
    and row: "row < nrows grid"
  shows "loop_inv grid palette_images tsize zoom max_side st \<Longrightarrow>
         scanned (fst st) row col \<Longrightarrow>
         \<exists>st'. row_loop grid palette_images tsize zoom max_side row col st = Inr st' \<and>
               loop_inv grid palette_images tsize zoom max_side st' \<and>
               scanned (fst st') (Suc row) 0"
proof (induction "ncols grid - col" arbitrary: col st rule: less_induct)
  case less
  obtain covered out where st: "st = (covered, out)" by (cases st)
  from less.prems st have inv: "loop_inv grid palette_images tsize zoom max_side (covered, out)"
    and sc: "scanned covered row col" by simp_all
  from inv have shape: "ncols covered = ncols grid" by (simp add: loop_inv_def)
  show ?case
  proof (cases "col < ncols grid")
    case False
    with sc shape have "scanned covered (Suc row) 0" by (simp add: scanned_row_end)
    with False inv show ?thesis by (simp add: st row_loop_done)
  next
    case col: True
    show ?thesis
    proof (cases "cells covered ! row ! col")
      case True
      from col have lt: "ncols grid - (col + 1) < ncols grid - col" by simp
      from sc True have "scanned covered row (col + 1)" by (rule scanned_skip)
      then have sc1: "scanned (fst (covered, out)) row (col + 1)" by simp
      have "\<exists>st'. row_loop grid palette_images tsize zoom max_side row (col + 1) (covered, out)
            = Inr st' \<and> loop_inv grid palette_images tsize zoom max_side st' \<and>
              scanned (fst st') (Suc row) 0"
        by (rule less.hyps [OF lt inv sc1])
      with col True show ?thesis by (simp only: st row_loop_skip)
    next
      case False
      define side where "side = largest_uniform_square grid covered row col (cells grid ! row ! col) max_side"
      define emoji where "emoji = palette_images ! nat (cells grid ! row ! col)"
      define covered' where "covered' = covered\<lparr>cells :=
                 assign_slice2 (cells covered) row (row + side) col (col + side) True\<rparr>"
      define out' where "out' = out\<lparr>c_pastes := c_pastes out @
                 [\<lparr>p_row = row, p_col = col, p_index = cells grid ! row ! col, p_side = side,
                   p_image = (if side \<noteq> 1 \<or> zoom \<noteq> 1
                              then Resize emoji (int side * tsize * zoom) (int side * tsize * zoom)
                              else emoji),
                   p_box = (int col * tsize * zoom, int row * tsize * zoom),
                   p_mask = (if side \<noteq> 1 \<or> zoom \<noteq> 1
                              then Resize emoji (int side * tsize * zoom) (int side * tsize * zoom)
                              else emoji)\<rparr>]\<rparr>"
      from body_keeps_inv [OF wf pal inv sc row col False side_def emoji_def covered'_def out'_def]
      have inv': "loop_inv grid palette_images tsize zoom max_side (covered', out')"
        and sc': "scanned (fst (covered', out')) row (col + side)"
        by simp_all
      have "1 \<le> side" unfolding side_def by (rule largest_uniform_square_pos)
      with col have "ncols grid - (col + side) < ncols grid - col" by simp
      then have IH: "\<exists>st'. row_loop grid palette_images tsize zoom max_side row (col + side) (covered', out')
            = Inr st' \<and> loop_inv grid palette_images tsize zoom max_side st' \<and>
              scanned (fst st') (Suc row) 0"
        using inv' sc' by (rule less.hyps)
      have get: "py_get palette_images (cells grid ! row ! col) = Inr emoji"
        unfolding emoji_def using pal wf row col by (rule palette_indices_get)
      have "row_loop grid palette_images tsize zoom max_side row col (covered, out) =
            row_loop grid palette_images tsize zoom max_side row (col + side) (covered', out')"
        unfolding covered'_def out'_def by (rule row_loop_place [OF col False get side_def])
      with IH show ?thesis by (simp only: st)
    qed
  qed
qed

lemma rows_loop_inv:
  fixes grid :: "int ndarray" and palette_images :: "'a pil_image list"
    and st :: "bool ndarray \<times> 'a canvas"
  assumes wf: "well_shaped grid"
    and pal: "palette_indices grid (length palette_images)"
  shows "loop_inv grid palette_images tsize zoom max_side st \<Longrightarrow>
         scanned (fst st) row 0 \<Longrightarrow> row + n = nrows grid \<Longrightarrow>
         \<exists>st'. rows_loop grid palette_images tsize zoom max_side [row..<row + n] st = Inr st' \<and>
               loop_inv grid palette_images tsize zoom max_side st' \<and>
               scanned (fst st') (nrows grid) 0"
proof (induction n arbitrary: row st)
  case 0
  then show ?case by simp
next
  case (Suc n)
  from Suc.prems have row: "row < nrows grid" by simp
  from row_loop_inv [OF wf pal row Suc.prems(1) Suc.prems(2)] obtain st1
    where run: "row_loop grid palette_images tsize zoom max_side row 0 st = Inr st1"
      and inv1: "loop_inv grid palette_images tsize zoom max_side st1"
      and sc1: "scanned (fst st1) (Suc row) 0"
    by blast
  from Suc.prems have "Suc row + n = nrows grid" by simp
  from Suc.IH [OF inv1 sc1 this] obtain st' where
    rest: "rows_loop grid palette_images tsize zoom max_side [Suc row..<Suc row + n] st1 = Inr st'"
    and inv': "loop_inv grid palette_images tsize zoom max_side st'"
    and sc': "scanned (fst st') (nrows grid) 0"
    by blast
  have "[row..<row + Suc n] = row # [Suc row..<Suc row + n]"
    by (simp add: upt_conv_Cons)
  with run rest have "rows_loop grid palette_images tsize zoom max_side [row..<row + Suc n] st = Inr st'"
    by simp
  with inv' sc' show ?case by blast
qed

lemma loop_inv_start:
  "loop_inv grid palette_images tsize zoom max_side
     (full (nrows grid) (ncols grid) False,
      image_new (int (ncols grid) * tsize * zoom, int (nrows grid) * tsize * zoom))"
  by (simp add: loop_inv_def full_def image_new_def well_shaped_def list_all_length)

text \<open>The whole of lines 94 to 116 on a grid of palette indices.\<close>

lemma render_grid_inv:
  fixes grid :: "int ndarray" and palette_images :: "'a pil_image list"
  assumes wf: "well_shaped grid"
    and pal: "palette_indices grid (length palette_images)"
  shows "\<exists>covered out.
           render_grid grid palette_images tsize zoom max_side = Inr (covered, out) \<and>
           loop_inv grid palette_images tsize zoom max_side (covered, out) \<and>
           scanned covered (nrows grid) 0"
proof -
  let ?st = "(full (nrows grid) (ncols grid) False,
      image_new (int (ncols grid) * tsize * zoom, int (nrows grid) * tsize * zoom))
      :: bool ndarray \<times> 'a canvas"
  have inv0: "loop_inv grid palette_images tsize zoom max_side ?st" by (rule loop_inv_start)
  have sc0: "scanned (fst ?st) 0 0" by (simp add: scanned_def)
  have "0 + nrows grid = nrows grid" by simp
  from rows_loop_inv [OF wf pal inv0 sc0 this]
  obtain st' where "rows_loop grid palette_images tsize zoom max_side [0..<nrows grid] ?st = Inr st'"
    and "loop_inv grid palette_images tsize zoom max_side st'"
    and "scanned (fst st') (nrows grid) 0"
    by auto
  then show ?thesis
    by (cases st') (simp add: render_grid_def Let_def)
qed

subsection \<open>The side chosen for a block\<close>

lemma block_free_spec:
  assumes "at_free_cell grid covered row col v"
    and "row + side \<le> nrows grid" and "col + side \<le> ncols grid"
  shows "block_free grid covered row col v side \<longleftrightarrow> uniform_uncovered grid covered row col v side"
proof -
  from assms(1) have "well_shaped grid" "well_shaped covered"
    "nrows covered = nrows grid" "ncols covered = ncols grid"
    by (simp_all add: at_free_cell_def)
  from block_free_iff [OF this assms(2,3)] show ?thesis
    by (simp only: uniform_uncovered_def) auto
qed

lemma range_down_descending: "sorted_wrt (\<lambda>a b. b < a) (range_down n)"
  unfolding range_down_def by (simp only: sorted_wrt_rev sorted_wrt_upt)

lemma search_side_maximal:
  assumes cell: "at_free_cell grid covered row col v" and ms: "1 \<le> max_side"
  shows "\<exists>side. search_side grid covered row col v max_side = Some side \<and>
           1 \<le> side \<and>
           int side \<le> min max_side (min (int (nrows grid) - int row) (int (ncols grid) - int col)) \<and>
           uniform_uncovered grid covered row col v side \<and>
           (\<forall>t. side < t \<and>
                int t \<le> min max_side (min (int (nrows grid) - int row) (int (ncols grid) - int col))
                \<longrightarrow> \<not> uniform_uncovered grid covered row col v t)"
proof -
  let ?m = "max_possible grid row col max_side"
  from cell have rc: "row < nrows grid" "col < ncols grid" by (simp_all add: at_free_cell_def)
  from rc ms have m: "int ?m = min max_side (min (int (nrows grid) - int row) (int (ncols grid) - int col))"
    by (simp add: max_possible_def)
  from rc have fit: "row + ?m \<le> nrows grid" "col + ?m \<le> ncols grid"
    by (simp_all add: max_possible_le)
  from search_side_Some [OF cell ms] obtain side
    where S: "search_side grid covered row col v max_side = Some side" by blast
  then have F: "1 \<le> side" "side \<le> ?m" "block_free grid covered row col v side"
    "\<forall>t. side < t \<and> t \<le> ?m \<longrightarrow> \<not> block_free grid covered row col v t"
    by (simp_all add: search_side_eq find_range_down_Some)
  from F(2) fit have "row + side \<le> nrows grid" "col + side \<le> ncols grid" by simp_all
  with F(3) cell have ok: "uniform_uncovered grid covered row col v side"
    by (simp add: block_free_spec)
  have larger: "\<not> uniform_uncovered grid covered row col v t" if "side < t \<and> int t \<le> int ?m" for t
  proof -
    from that have t: "side < t" "t \<le> ?m" by simp_all
    with F(4) have "\<not> block_free grid covered row col v t" by blast
    moreover from t fit have "row + t \<le> nrows grid" "col + t \<le> ncols grid" by simp_all
    ultimately show ?thesis using cell by (simp add: block_free_spec)
  qed
  from F(2) have "int side \<le> int ?m" by simp
  with S F(1) ok larger show ?thesis unfolding m by blast
qed

text \<open>
  C2. On an uncovered in-bounds cell holding \<open>v\<close>, with \<open>max_side \<ge> 1\<close>, the side
  returned by \<open>largest_uniform_square\<close> is the largest \<open>side\<close> with
  \<open>1 \<le> side \<le> min(max_side, rows - row, cols - col)\<close> whose block is uniformly \<open>v\<close>
  and holds no covered cell. The candidates are \<open>range(max_possible, 0, -1)\<close>, a strictly
  descending list of exactly the sides in that range, and the result is the first of
  them that passes the test.
\<close>

theorem largest_uniform_square_is_largest:
  assumes "at_free_cell grid covered row col v" and "1 \<le> max_side"
  shows "1 \<le> largest_uniform_square grid covered row col v max_side \<and>
         int (largest_uniform_square grid covered row col v max_side)
           \<le> min max_side (min (int (nrows grid) - int row) (int (ncols grid) - int col)) \<and>
         uniform_uncovered grid covered row col v
           (largest_uniform_square grid covered row col v max_side) \<and>
         (\<forall>t. largest_uniform_square grid covered row col v max_side < t \<and>
              int t \<le> min max_side (min (int (nrows grid) - int row) (int (ncols grid) - int col))
              \<longrightarrow> \<not> uniform_uncovered grid covered row col v t) \<and>
         List.find (block_free grid covered row col v)
           (range_down (min max_side (min (int (nrows grid) - int row) (int (ncols grid) - int col))))
           = Some (largest_uniform_square grid covered row col v max_side) \<and>
         sorted_wrt (\<lambda>a b. b < a)
           (range_down (min max_side (min (int (nrows grid) - int row) (int (ncols grid) - int col)))) \<and>
         set (range_down (min max_side (min (int (nrows grid) - int row) (int (ncols grid) - int col))))
           = {s. 1 \<le> s \<and>
                 int s \<le> min max_side (min (int (nrows grid) - int row) (int (ncols grid) - int col))}"
proof -
  from search_side_maximal [OF assms] obtain side where
    S: "search_side grid covered row col v max_side = Some side"
    and rest: "1 \<le> side"
      "int side \<le> min max_side (min (int (nrows grid) - int row) (int (ncols grid) - int col))"
      "uniform_uncovered grid covered row col v side"
      "\<forall>t. side < t \<and>
           int t \<le> min max_side (min (int (nrows grid) - int row) (int (ncols grid) - int col))
           \<longrightarrow> \<not> uniform_uncovered grid covered row col v t"
    by blast
  from S have L: "largest_uniform_square grid covered row col v max_side = side"
    by (simp add: largest_uniform_square_def)
  from S have "List.find (block_free grid covered row col v)
      (range_down (min max_side (min (int (nrows grid) - int row) (int (ncols grid) - int col))))
      = Some side"
    by (simp add: search_side_def Let_def)
  with rest show ?thesis
    unfolding L by (simp only: range_down_descending range_down_set simp_thms)
qed

theorem largest_uniform_square_is_largest_witness:
  "at_free_cell example_grid (full 2 3 False) 0 1 1 \<and>
   largest_uniform_square example_grid (full 2 3 False) 0 1 1 10 = 1 \<and>
   \<not> uniform_uncovered example_grid (full 2 3 False) 0 1 1 2"
proof -
  have h: "at_free_cell example_grid (full 2 3 False) 0 1 1" by code_simp
  have v: "largest_uniform_square example_grid (full 2 3 False) 0 1 1 10 = 1" by code_simp
  have b: "int 2 \<le> min 10 (min (int (nrows example_grid) - int 0) (int (ncols example_grid) - int 1))"
    by code_simp
  from largest_uniform_square_is_largest [OF h, of 10]
  have "\<forall>t. largest_uniform_square example_grid (full 2 3 False) 0 1 1 10 < t \<and>
         int t \<le> min 10 (min (int (nrows example_grid) - int 0) (int (ncols example_grid) - int 1))
         \<longrightarrow> \<not> uniform_uncovered example_grid (full 2 3 False) 0 1 1 t"
    by simp
  with v b have "\<not> uniform_uncovered example_grid (full 2 3 False) 0 1 1 2"
    by simp
  with h v show ?thesis by simp
qed

text \<open>
  C10. On an uncovered in-bounds cell holding the queried index, with
  \<open>max_side \<ge> 1\<close>, the candidate \<open>side = 1\<close> is among the candidates and passes
  the test, so the loop returns from inside (the search is never \<open>None\<close> and the
  trailing \<open>return 1\<close> is not reached), and the side returned lies between \<open>1\<close> and
  \<open>min(max_side, rows - row, cols - col)\<close>.
\<close>

theorem fallback_unreachable:
  assumes "at_free_cell grid covered row col v" and "1 \<le> max_side"
  shows "1 \<in> set (range_down
                  (min max_side (min (int (nrows grid) - int row) (int (ncols grid) - int col)))) \<and>
         block_free grid covered row col v 1 \<and>
         search_side grid covered row col v max_side \<noteq> None \<and>
         search_side grid covered row col v max_side
           = Some (largest_uniform_square grid covered row col v max_side) \<and>
         1 \<le> largest_uniform_square grid covered row col v max_side \<and>
         int (largest_uniform_square grid covered row col v max_side)
           \<le> min max_side (min (int (nrows grid) - int row) (int (ncols grid) - int col))"
proof -
  from assms have rc: "row < nrows grid" "col < ncols grid" by (simp_all add: at_free_cell_def)
  with assms(2) have cand: "1 \<in> set (range_down
      (min max_side (min (int (nrows grid) - int row) (int (ncols grid) - int col))))"
    by (simp add: range_down_set)
  from search_side_Some [OF assms] obtain side
    where S: "search_side grid covered row col v max_side = Some side" by blast
  then have L: "largest_uniform_square grid covered row col v max_side = side"
    by (simp add: largest_uniform_square_def)
  from S have "side \<le> max_possible grid row col max_side"
    by (simp add: search_side_eq find_range_down_Some)
  then have "int side \<le> int (max_possible grid row col max_side)" by simp
  also from rc assms(2) have "int (max_possible grid row col max_side)
      = min max_side (min (int (nrows grid) - int row) (int (ncols grid) - int col))"
    by (simp add: max_possible_def)
  finally have le: "int side
      \<le> min max_side (min (int (nrows grid) - int row) (int (ncols grid) - int col))" .
  have pos: "1 \<le> largest_uniform_square grid covered row col v max_side"
    by (rule largest_uniform_square_pos)
  from cand block_free_1 [OF assms(1)] S le pos show ?thesis
    unfolding L by simp
qed

theorem fallback_unreachable_witness:
  "at_free_cell example_grid (full 2 3 False) 0 0 1 \<and>
   search_side example_grid (full 2 3 False) 0 0 1 10 = Some 2 \<and>
   largest_uniform_square example_grid (full 2 3 False) 0 0 1 10 = 2"
proof -
  have h: "at_free_cell example_grid (full 2 3 False) 0 0 1" by code_simp
  have v: "largest_uniform_square example_grid (full 2 3 False) 0 0 1 10 = 2" by code_simp
  from fallback_unreachable [OF h, of 10]
  have "search_side example_grid (full 2 3 False) 0 0 1 10
          = Some (largest_uniform_square example_grid (full 2 3 False) 0 0 1 10)"
    by simp
  with h v show ?thesis by simp
qed

subsection \<open>The blocks partition the grid\<close>

text \<open>The cells of a grid counted through the blocks that cover them.\<close>

lemma unit_blocks_count:
  fixes ps :: "'a paste list"
  assumes "\<forall>p \<in> set ps. p_side p = 1 \<and> p_row p < R \<and> p_col p < C"
  shows "(\<Sum>i<R. \<Sum>j<C. length (filter (covers i j) ps)) = length ps"
  using assms
proof (induction ps)
  case Nil
  show ?case by simp
next
  case (Cons p ps)
  from Cons.prems have p: "p_side p = 1" "p_row p < R" "p_col p < C" by simp_all
  have cov: "covers i j p \<longleftrightarrow> i = p_row p \<and> j = p_col p" for i j
    using p(1) by (auto simp: covers_def)
  have inner: "(\<Sum>j<C. if i = p_row p \<and> j = p_col p then 1 else 0) = (if i = p_row p then 1 else (0::nat))" for i
    using p(3) by (cases "i = p_row p") simp_all
  have one: "(\<Sum>i<R. \<Sum>j<C. if covers i j p then 1 else (0::nat)) = 1"
    using p(2) by (simp only: cov inner) simp
  have "(\<Sum>i<R. \<Sum>j<C. length (filter (covers i j) (p # ps)))
      = (\<Sum>i<R. \<Sum>j<C. (if covers i j p then 1 else 0) + length (filter (covers i j) ps))"
    by (rule sum.cong [OF refl], rule sum.cong [OF refl]) simp
  also have "\<dots> = (\<Sum>i<R. \<Sum>j<C. if covers i j p then 1 else 0)
                  + (\<Sum>i<R. \<Sum>j<C. length (filter (covers i j) ps))"
    by (simp only: sum.distrib)
  also have "\<dots> = 1 + length ps"
    using Cons.IH Cons.prems one by simp
  finally show ?case by simp
qed

lemma render_grid_partition:
  fixes grid :: "int ndarray" and palette_images :: "'a pil_image list"
  assumes wf: "well_shaped grid"
    and pal: "palette_indices grid (length palette_images)"
  shows "\<exists>covered out.
           render_grid grid palette_images tsize zoom max_side = Inr (covered, out) \<and>
           (\<forall>p \<in> set (c_pastes out). paste_ok grid palette_images tsize zoom max_side p) \<and>
           c_width out = int (ncols grid) * tsize * zoom \<and>
           c_height out = int (nrows grid) * tsize * zoom \<and>
           (\<forall>i j. i < nrows grid \<and> j < ncols grid \<longrightarrow>
              length (filter (covers i j) (c_pastes out)) = 1 \<and> cells covered ! i ! j)"
proof -
  from render_grid_inv [OF wf pal, of tsize zoom max_side] obtain covered out
    where run: "render_grid grid palette_images tsize zoom max_side = Inr (covered, out)"
      and inv: "loop_inv grid palette_images tsize zoom max_side (covered, out)"
      and sc: "scanned covered (nrows grid) 0"
    by blast
  from inv have shape: "nrows covered = nrows grid" "ncols covered = ncols grid"
    by (simp_all add: loop_inv_def)
  have all: "cells covered ! i ! j" if "i < nrows grid" "j < ncols grid" for i j
    using sc that unfolding scanned_def shape by blast
  have cnt: "length (filter (covers i j) (c_pastes out)) = 1" if "i < nrows grid" "j < ncols grid" for i j
  proof -
    from inv that have "length (filter (covers i j) (c_pastes out))
        = (if cells covered ! i ! j then 1 else 0)"
      by (simp add: loop_inv_def)
    with all [OF that] show ?thesis by simp
  qed
  from inv have "\<forall>p \<in> set (c_pastes out). paste_ok grid palette_images tsize zoom max_side p"
    and "c_width out = int (ncols grid) * tsize * zoom"
    and "c_height out = int (nrows grid) * tsize * zoom"
    by (simp_all add: loop_inv_def)
  with run all cnt show ?thesis by blast
qed

lemma inside_covers:
  "inside grid p \<Longrightarrow> covers i j p \<Longrightarrow> i < nrows grid \<and> j < ncols grid"
  by (auto simp: inside_def covers_def)

text \<open>
  C1. For every well-shaped grid of palette indices and every \<open>max_side\<close> (so in
  particular every \<open>max_side \<ge> 1\<close>), the loops of \<open>mosaic_image\<close> return, and the
  blocks they emit partition the grid: each block has a side of at least one and lies
  inside the grid, every cell of the grid lies in exactly one block, the final coverage
  mask is true everywhere, and no block covers anything outside the grid.
\<close>

theorem blocks_partition_grid:
  fixes grid :: "int ndarray" and palette_images :: "'a pil_image list"
  assumes "well_shaped grid" and "palette_indices grid (length palette_images)"
  shows "\<exists>covered out.
           render_grid grid palette_images tsize zoom max_side = Inr (covered, out) \<and>
           (\<forall>p \<in> set (c_pastes out). inside grid p) \<and>
           (\<forall>i j. i < nrows grid \<and> j < ncols grid \<longrightarrow>
              length (filter (covers i j) (c_pastes out)) = 1 \<and> cells covered ! i ! j) \<and>
           (\<forall>i j. (\<exists>p \<in> set (c_pastes out). covers i j p) \<longrightarrow>
              i < nrows grid \<and> j < ncols grid)"
proof -
  from render_grid_partition [OF assms, of tsize zoom max_side] obtain covered out
    where run: "render_grid grid palette_images tsize zoom max_side = Inr (covered, out)"
      and ok: "\<forall>p \<in> set (c_pastes out). paste_ok grid palette_images tsize zoom max_side p"
      and cells: "\<forall>i j. i < nrows grid \<and> j < ncols grid \<longrightarrow>
              length (filter (covers i j) (c_pastes out)) = 1 \<and> cells covered ! i ! j"
    by blast
  from ok have ins: "\<forall>p \<in> set (c_pastes out). inside grid p"
    by (simp add: paste_ok_def)
  then have "\<forall>i j. (\<exists>p \<in> set (c_pastes out). covers i j p) \<longrightarrow>
      i < nrows grid \<and> j < ncols grid"
    using inside_covers by blast
  with run ins cells show ?thesis by blast
qed

theorem blocks_partition_grid_witness:
  "well_shaped example_grid \<and> palette_indices example_grid (length example_tiles) \<and>
   (\<exists>covered out. render_grid example_grid example_tiles 8 1 10 = Inr (covered, out) \<and>
      length (filter (covers 1 1) (c_pastes out)) = 1 \<and>
      length (filter (covers 1 2) (c_pastes out)) = 1)"
proof -
  have h1: "well_shaped example_grid" by code_simp
  have h2: "palette_indices example_grid (length example_tiles)" by code_simp
  have d: "1 < nrows example_grid" "1 < ncols example_grid" "2 < ncols example_grid"
    by (simp_all add: example_grid_def)
  from blocks_partition_grid [OF h1 h2, of 8 1 10] obtain covered out
    where "render_grid example_grid example_tiles 8 1 10 = Inr (covered, out)"
      and "\<forall>i j. i < nrows example_grid \<and> j < ncols example_grid \<longrightarrow>
              length (filter (covers i j) (c_pastes out)) = 1 \<and> cells covered ! i ! j"
    by blast
  with d h1 h2 show ?thesis by blast
qed

text \<open>
  C7. With \<open>max_side \<ge> 1\<close> every emitted block has \<open>1 \<le> side \<le> max_side\<close>; with
  \<open>max_side = 1\<close> there are exactly \<open>rows * cols\<close> blocks, each of side one.
\<close>

theorem merge_upper_bound:
  fixes grid :: "int ndarray" and palette_images :: "'a pil_image list"
  assumes "well_shaped grid" and "palette_indices grid (length palette_images)"
    and "1 \<le> max_side"
  shows "\<exists>covered out.
           render_grid grid palette_images tsize zoom max_side = Inr (covered, out) \<and>
           (\<forall>p \<in> set (c_pastes out). 1 \<le> p_side p \<and> int (p_side p) \<le> max_side) \<and>
           (max_side = 1 \<longrightarrow>
              length (c_pastes out) = nrows grid * ncols grid \<and>
              (\<forall>p \<in> set (c_pastes out). p_side p = 1))"
proof -
  from render_grid_partition [OF assms(1,2), of tsize zoom max_side] obtain covered out
    where run: "render_grid grid palette_images tsize zoom max_side = Inr (covered, out)"
      and ok: "\<forall>p \<in> set (c_pastes out). paste_ok grid palette_images tsize zoom max_side p"
      and cells: "\<forall>i j. i < nrows grid \<and> j < ncols grid \<longrightarrow>
              length (filter (covers i j) (c_pastes out)) = 1 \<and> cells covered ! i ! j"
    by blast
  from ok assms(3) have sides: "\<forall>p \<in> set (c_pastes out). 1 \<le> p_side p \<and> int (p_side p) \<le> max_side"
    by (simp add: paste_ok_def inside_def)
  have unit: "length (c_pastes out) = nrows grid * ncols grid \<and>
      (\<forall>p \<in> set (c_pastes out). p_side p = 1)" if one: "max_side = 1"
  proof -
    from sides one have s1: "\<forall>p \<in> set (c_pastes out). p_side p = 1" by auto
    with ok have "\<forall>p \<in> set (c_pastes out).
        p_side p = 1 \<and> p_row p < nrows grid \<and> p_col p < ncols grid"
      by (auto simp: paste_ok_def inside_def)
    then have "(\<Sum>i<nrows grid. \<Sum>j<ncols grid. length (filter (covers i j) (c_pastes out)))
        = length (c_pastes out)"
      by (rule unit_blocks_count)
    moreover have "(\<Sum>i<nrows grid. \<Sum>j<ncols grid. length (filter (covers i j) (c_pastes out)))
        = (\<Sum>i<nrows grid. \<Sum>j<ncols grid. 1)"
      using cells by (intro sum.cong refl) simp
    ultimately have "length (c_pastes out) = nrows grid * ncols grid" by simp
    with s1 show ?thesis by simp
  qed
  from run sides unit show ?thesis by blast
qed

theorem merge_upper_bound_witness:
  "well_shaped example_grid \<and> palette_indices example_grid (length example_tiles) \<and>
   (\<exists>covered out. render_grid example_grid example_tiles 8 1 1 = Inr (covered, out) \<and>
      length (c_pastes out) = 6)"
proof -
  have h1: "well_shaped example_grid" by code_simp
  have h2: "palette_indices example_grid (length example_tiles)" by code_simp
  have d: "nrows example_grid * ncols example_grid = 6" by (simp add: example_grid_def)
  from merge_upper_bound [OF h1 h2, of 1 8 1] obtain covered out
    where "render_grid example_grid example_tiles 8 1 1 = Inr (covered, out)"
      and "length (c_pastes out) = nrows example_grid * ncols example_grid"
    by auto
  with d h1 h2 show ?thesis by auto
qed

subsection \<open>Where \<open>float32\<close> arithmetic is exact\<close>

text \<open>
  A whole number below \<open>2^24\<close> in absolute value is a \<open>float32\<close>. Hence the sums of
  fewer than \<open>2^24 / 255\<close> channel values are exact, and so are the squared distances
  of colours whose channels are whole numbers from 0 to 255.
\<close>

lemma round_half_even_int: "round_half_even (of_int m) = m"
  by (simp add: round_half_even_def)

lemma bitlen_small:
  assumes "0 < n" and "n < 2 ^ 24"
  shows "1 \<le> bitlen n" and "bitlen n \<le> 24"
proof -
  from assms(1) have "bitlen n \<noteq> 0" by (simp add: bitlen_eq_zero_iff)
  with bitlen_nonneg [of n] show "1 \<le> bitlen n" by simp
  from bitlen_bounds [OF assms(1)] have "(2::int) ^ nat (bitlen n - 1) \<le> n" by (rule conjunct1)
  from this assms(2) have lt: "(2::int) ^ nat (bitlen n - 1) < 2 ^ 24" by (rule le_less_trans)
  have "nat (bitlen n - 1) < 24" by (rule power_less_imp_less_exp [OF _ lt]) simp
  then show "bitlen n \<le> 24" by simp
qed

lemma round_float32_pos_int:
  assumes "0 < n" and "n < 2 ^ 24"
  shows "round_float32 (of_int n) = of_int n"
proof -
  define e where "e = bitlen n - 1"
  define k where "k = nat (23 - e)"
  from bitlen_small [OF assms] have e: "0 \<le> e" "e \<le> 23" by (simp_all add: e_def)
  from assms(1) have nz: "real_of_int n \<noteq> 0" and pos: "\<bar>real_of_int n\<bar> = real_of_int n"
    and sgn: "sgn (real_of_int n) = 1"
    by simp_all
  from assms(1) have "floor_log2 (real_of_int n) = e"
    by (simp add: floor_log2_def e_def)
  with e have ex: "max (floor_log2 (real_of_int n)) (- 126) = e" by simp
  have ulp: "pow2 (e - 23) = 1 / 2 ^ k"
  proof (cases "e = 23")
    case True
    then show ?thesis by (simp add: pow2_def k_def)
  next
    case False
    with e have "e - 23 < 0" by simp
    then show ?thesis by (simp add: pow2_def k_def)
  qed
  have "real_of_int n / (1 / 2 ^ k) = of_int (n * 2 ^ k)" by simp
  then have whole: "round_half_even (real_of_int n / (1 / 2 ^ k)) = n * 2 ^ k"
    by (simp only: round_half_even_int)
  have "round_float32 (of_int n) = 1 * of_int (n * 2 ^ k) * (1 / 2 ^ k)"
    by (simp only: round_float32_def Let_def nz if_False pos sgn ex ulp whole)
  then show ?thesis by simp
qed

lemma round_float32_minus: "round_float32 (- x) = - round_float32 x"
  by (simp add: round_float32_def Let_def)

lemma round_float32_int:
  assumes "\<bar>n\<bar> < 2 ^ 24"
  shows "round_float32 (of_int n) = of_int n"
proof (cases "n = 0")
  case True
  then show ?thesis by (simp add: round_float32_def)
next
  case False
  show ?thesis
  proof (cases "0 < n")
    case True
    with assms show ?thesis by (simp add: round_float32_pos_int)
  next
    case False
    with \<open>n \<noteq> 0\<close> assms have "0 < - n" "- n < 2 ^ 24" by simp_all
    then have "round_float32 (of_int (- n)) = of_int (- n)" by (rule round_float32_pos_int)
    then show ?thesis by (simp add: round_float32_minus)
  qed
qed

lemma square_bound:
  fixes d :: int
  assumes "\<bar>d\<bar> \<le> 255"
  shows "0 \<le> d * d" and "d * d \<le> 65025"
proof -
  show "0 \<le> d * d" by simp
  have "d * d = \<bar>d\<bar> * \<bar>d\<bar>" by simp
  also from assms have "\<dots> \<le> 255 * 255" by (intro mult_mono) simp_all
  finally show "d * d \<le> 65025" by simp
qed

lemma float32_sq_distance_whole:
  fixes r g b pr pg pb :: int
  assumes "\<bar>pr - r\<bar> \<le> 255" and "\<bar>pg - g\<bar> \<le> 255" and "\<bar>pb - b\<bar> \<le> 255"
  shows "float32_sq_distance (RGBf (of_int r) (of_int g) (of_int b))
           (RGBf (of_int pr) (of_int pg) (of_int pb))
         = Some (squared_distance (of_int r, of_int g, of_int b) (of_int pr, of_int pg, of_int pb))"
proof -
  have diff: "round_float32 (of_int p - of_int c) = of_int (p - c)" if "\<bar>p - c\<bar> \<le> 255" for p c :: int
  proof -
    from that have "\<bar>p - c\<bar> < 2 ^ 24" by simp
    then have "round_float32 (of_int (p - c)) = of_int (p - c)" by (rule round_float32_int)
    then show ?thesis by simp
  qed
  have sq: "round_float32 (of_int d * of_int d) = of_int (d * d)" if "\<bar>d\<bar> \<le> 255" for d :: int
  proof -
    from square_bound [OF that] have "\<bar>d * d\<bar> < 2 ^ 24" by simp
    then have "round_float32 (of_int (d * d)) = of_int (d * d)" by (rule round_float32_int)
    then show ?thesis by simp
  qed
  define sr where "sr = (pr - r) * (pr - r)"
  define sg where "sg = (pg - g) * (pg - g)"
  define sb where "sb = (pb - b) * (pb - b)"
  from square_bound [OF assms(1)] square_bound [OF assms(2)] square_bound [OF assms(3)]
  have bounds: "0 \<le> sr" "sr \<le> 65025" "0 \<le> sg" "sg \<le> 65025" "0 \<le> sb" "sb \<le> 65025"
    by (simp_all add: sr_def sg_def sb_def)
  then have "\<bar>sr + sg\<bar> < 2 ^ 24" by simp
  then have "round_float32 (of_int (sr + sg)) = of_int (sr + sg)" by (rule round_float32_int)
  then have two: "round_float32 (of_int sr + of_int sg) = of_int (sr + sg)" by simp
  from bounds have "\<bar>sr + sg + sb\<bar> < 2 ^ 24" by simp
  then have "round_float32 (of_int (sr + sg + sb)) = of_int (sr + sg + sb)"
    by (rule round_float32_int)
  then have three: "round_float32 (of_int (sr + sg) + of_int sb) = of_int (sr + sg + sb)" by simp
  have "float32_sq_distance (RGBf (of_int r) (of_int g) (of_int b))
           (RGBf (of_int pr) (of_int pg) (of_int pb))
        = Some (of_int (sr + sg + sb))"
    by (simp only: float32_sq_distance.simps Let_def diff [OF assms(1)] diff [OF assms(2)]
          diff [OF assms(3)] sq [OF assms(1)] sq [OF assms(2)] sq [OF assms(3)]
          sr_def [symmetric] sg_def [symmetric] sb_def [symmetric] two three)
  also have "real_of_int (sr + sg + sb)
      = squared_distance (of_int r, of_int g, of_int b) (of_int pr, of_int pg, of_int pb)"
    by (simp add: squared_distance_def sr_def sg_def sb_def power2_eq_square algebra_simps)
  finally show ?thesis .
qed

lemma sum_float32_exact_from:
  assumes "\<forall>x \<in> set xs. \<exists>m::nat. x = real m \<and> m \<le> 255"
    and "0 \<le> a" and "a + 255 * int (length xs) < 2 ^ 24"
  shows "foldl (\<lambda>acc x. round_float32 (acc + x)) (of_int a) xs = of_int a + sum_list xs"
  using assms
proof (induction xs arbitrary: a)
  case Nil
  show ?case by simp
next
  case (Cons x xs)
  from Cons.prems(1) obtain m :: nat where x: "x = real m" "m \<le> 255" by auto
  from Cons.prems(2,3) x(2) have "\<bar>a + int m\<bar> < 2 ^ 24" by simp
  then have "round_float32 (of_int (a + int m)) = of_int (a + int m)" by (rule round_float32_int)
  then have step: "round_float32 (of_int a + real m) = of_int (a + int m)" by simp
  from Cons.prems have "\<forall>x \<in> set xs. \<exists>m::nat. x = real m \<and> m \<le> 255"
    and "0 \<le> a + int m" and "a + int m + 255 * int (length xs) < 2 ^ 24"
    using x(2) by simp_all
  from Cons.IH [OF this]
  have "foldl (\<lambda>acc x. round_float32 (acc + x)) (of_int (a + int m)) xs
      = of_int (a + int m) + sum_list xs" .
  then have "foldl (\<lambda>acc x. round_float32 (acc + x)) (of_int a) (real m # xs)
      = of_int (a + int m) + sum_list xs"
    by (simp only: foldl_Cons step)
  then show ?case by (simp add: x(1))
qed

lemma sum_float32_exact:
  assumes "\<forall>x \<in> set xs. \<exists>m::nat. x = real m \<and> m \<le> 255" and "255 * length xs < 2 ^ 24"
  shows "sum_float32 xs = sum_list xs"
proof -
  from assms(2) have "0 + 255 * int (length xs) < 2 ^ 24"
    by (metis add_0 of_nat_less_numeral_power_cancel_iff of_nat_mult of_nat_numeral)
  from sum_float32_exact_from [OF assms(1) order_refl this] show ?thesis
    by (simp add: sum_float32_def)
qed

lemma byte_value: "\<exists>m::nat. real (unat (w :: 8 word)) = real m \<and> m \<le> 255"
proof (intro exI conjI)
  show "real (unat w) = real (unat w)" by (rule refl)
  show "unat w \<le> 255" using unsigned_less [of w, where ?'a = nat] by simp
qed

lemma channel_values:
  "\<forall>x \<in> set (map red px). \<exists>m::nat. x = real m \<and> m \<le> 255"
  "\<forall>x \<in> set (map green px). \<exists>m::nat. x = real m \<and> m \<le> 255"
  "\<forall>x \<in> set (map blue px). \<exists>m::nat. x = real m \<and> m \<le> 255"
  unfolding red_def green_def blue_def set_map by (intro ballI; elim imageE; simp only: byte_value)+

lemma float32_mean_rounds_mean:
  assumes "px \<noteq> []" and "255 * length px < 2 ^ 24"
  shows "float32_mean px
         = float32_array (RGBf (channel_mean red px) (channel_mean green px) (channel_mean blue px))"
  using assms
  by (simp add: float32_mean_def channel_mean_def sum_float32_exact channel_values)

lemma region_length: "length (region img s y x) \<le> s * s"
proof -
  have "length (region img s y x)
      = (min (y * s + s) (nrows img) - y * s) * (min (x * s + s) (ncols img) - x * s)"
    by (simp add: region_def length_concat comp_def sum_list_triv)
  also have "\<dots> \<le> s * s" by (intro mult_mono) simp_all
  finally show ?thesis .
qed

subsection \<open>The nearest palette colour\<close>

text \<open>
  The scan over finite values: \<open>xs\<close> is the whole array, of which the first \<open>i\<close>
  entries have been seen, \<open>best\<close> being the first place of their least value \<open>bv\<close>.
\<close>

lemma argmin_scan_first_min:
  assumes "xs = pre @ vs" and "length pre = i" and "best < i" and "xs ! best = bv"
    and "\<forall>k<i. bv \<le> xs ! k" and "\<forall>k<best. bv < xs ! k"
  shows "argmin_scan best bv i (map Some vs) < length xs \<and>
         (\<forall>k<length xs. xs ! argmin_scan best bv i (map Some vs) \<le> xs ! k) \<and>
         (\<forall>k<argmin_scan best bv i (map Some vs). xs ! argmin_scan best bv i (map Some vs) < xs ! k)"
  using assms
proof (induction vs arbitrary: pre i best bv)
  case Nil
  then show ?case by simp
next
  case (Cons d vs)
  from Cons.prems have xi: "xs ! i = d" and split: "xs = (pre @ [d]) @ vs"
    and len: "length (pre @ [d]) = Suc i"
    by (simp_all add: nth_append)
  show ?case
  proof (cases "d < bv")
    case True
    have a: "i < Suc i" by simp
    have b: "\<forall>k<Suc i. d \<le> xs ! k"
    proof (intro allI impI)
      fix k assume "k < Suc i"
      then show "d \<le> xs ! k"
        using Cons.prems(5) True xi by (cases "k = i") (auto simp: less_Suc_eq dest!: spec [where x = k])
    qed
    have c: "\<forall>k<i. d < xs ! k"
    proof (intro allI impI)
      fix k assume "k < i"
      with Cons.prems(5) have "bv \<le> xs ! k" by blast
      with True show "d < xs ! k" by simp
    qed
    from Cons.IH [OF split len a xi b c] True show ?thesis by simp
  next
    case False
    from Cons.prems have a: "best < Suc i" by simp
    have b: "\<forall>k<Suc i. bv \<le> xs ! k"
    proof (intro allI impI)
      fix k assume "k < Suc i"
      then show "bv \<le> xs ! k"
        using Cons.prems(5) False xi by (cases "k = i") (auto simp: less_Suc_eq)
    qed
    from Cons.IH [OF split len a Cons.prems(4) b Cons.prems(6)] False show ?thesis by simp
  qed
qed

lemma np_argmin_first_min:
  assumes "vs \<noteq> []"
  shows "\<exists>i. np_argmin (map Some vs) = Inr i \<and> i < length vs \<and>
             (\<forall>k<length vs. vs ! i \<le> vs ! k) \<and> (\<forall>k<i. vs ! i < vs ! k)"
proof -
  from assms obtain d ds where vs: "vs = d # ds" by (cases vs) auto
  have "vs = [d] @ ds" "length [d] = 1" "(0::nat) < 1" "vs ! 0 = d"
    "\<forall>k<1. d \<le> vs ! k" "\<forall>k<0::nat. d < vs ! k"
    by (simp_all add: vs)
  from argmin_scan_first_min [OF this]
  show ?thesis by (simp add: vs)
qed

text \<open>
  C4, as stated, fails: the distances are computed in \<open>float32\<close>, and two palette
  colours at different distances from the region colour can get the same computed
  distance. Here tile 1 is strictly nearer to black than tile 0 (by \<open>2^-20\<close> in
  \<open>130050\<close>), both computed distances are \<open>130050\<close>, and tile 0 is returned.
\<close>

theorem nearest_emoji_index_rounding_counterexample:
  "nearest_emoji_index float32_ops (RGBf 0 0 0) [RGBf 255 255 (1 / 1024), RGBf 255 255 0]
     = Inr 0 \<and>
   f32_sq_distance float32_ops (RGBf 0 0 0) (RGBf 255 255 (1 / 1024)) = Some 130050 \<and>
   f32_sq_distance float32_ops (RGBf 0 0 0) (RGBf 255 255 0) = Some 130050 \<and>
   squared_distance (0, 0, 0) (255, 255, 0) < squared_distance (0, 0, 0) (255, 255, 1 / 1024)"
  by code_simp

text \<open>
  C4, amended. For a non-empty palette whose computed distances to the colour are
  numbers, \<open>nearest_emoji_index\<close> returns an index of the palette whose computed
  distance is least among the computed distances, and it is the lowest index of that
  computed distance: every earlier entry has a strictly greater one. The computed
  distance is the value that numpy's \<open>float32\<close> arithmetic gives for the squared
  Euclidean distance; between colours whose channels are whole numbers at most 255
  apart it is the squared Euclidean distance itself. A palette of one tile gives index
  0 for every colour.
\<close>

theorem nearest_emoji_index_first_least_computed:
  assumes "palette_colors \<noteq> []"
    and "map (f32_sq_distance np color) palette_colors = map Some ds"
  shows "(\<exists>i. nearest_emoji_index np color palette_colors = Inr i \<and>
              i < length palette_colors \<and>
              (\<forall>k<length palette_colors. ds ! i \<le> ds ! k) \<and>
              (\<forall>k<i. ds ! i < ds ! k)) \<and>
         (\<forall>c tile. nearest_emoji_index np c [tile] = Inr 0) \<and>
         (\<forall>r g b pr pg pb :: int.
            \<bar>pr - r\<bar> \<le> 255 \<and> \<bar>pg - g\<bar> \<le> 255 \<and> \<bar>pb - b\<bar> \<le> 255 \<longrightarrow>
            f32_sq_distance float32_ops (RGBf (of_int r) (of_int g) (of_int b))
                (RGBf (of_int pr) (of_int pg) (of_int pb))
              = Some (squared_distance (of_int r, of_int g, of_int b)
                        (of_int pr, of_int pg, of_int pb)))"
proof -
  from assms(2) have len: "length ds = length palette_colors"
    by (metis length_map)
  with assms(1) have ne: "ds \<noteq> []" by auto
  from assms have run: "nearest_emoji_index np color palette_colors = np_argmin (map Some ds)"
    by (simp only: nearest_emoji_index_def if_False)
  from np_argmin_first_min [OF ne] obtain i where
    i: "np_argmin (map Some ds) = Inr i" "i < length ds"
    "\<forall>k<length ds. ds ! i \<le> ds ! k" "\<forall>k<i. ds ! i < ds ! k"
    by blast
  have single: "nearest_emoji_index np c [tile] = Inr 0" for c tile
    by (cases "f32_sq_distance np c tile") (simp_all add: nearest_emoji_index_def)
  have whole: "f32_sq_distance float32_ops (RGBf (of_int r) (of_int g) (of_int b))
                (RGBf (of_int pr) (of_int pg) (of_int pb))
              = Some (squared_distance (of_int r, of_int g, of_int b)
                        (of_int pr, of_int pg, of_int pb))"
    if "\<bar>pr - r\<bar> \<le> 255 \<and> \<bar>pg - g\<bar> \<le> 255 \<and> \<bar>pb - b\<bar> \<le> 255" for r g b pr pg pb :: int
  proof -
    from that have near: "\<bar>pr - r\<bar> \<le> 255" "\<bar>pg - g\<bar> \<le> 255" "\<bar>pb - b\<bar> \<le> 255" by blast+
    have "f32_sq_distance float32_ops = float32_sq_distance" by (simp add: float32_ops_def)
    then show ?thesis by (simp only: float32_sq_distance_whole [OF near])
  qed
  from run i have "\<exists>i. nearest_emoji_index np color palette_colors = Inr i \<and>
              i < length palette_colors \<and>
              (\<forall>k<length palette_colors. ds ! i \<le> ds ! k) \<and>
              (\<forall>k<i. ds ! i < ds ! k)"
    unfolding len by simp
  with single whole show ?thesis by blast
qed

theorem nearest_emoji_index_first_least_computed_witness:
  "map (f32_sq_distance float32_ops (RGBf 127.5 127.5 127.5))
     [RGBf 255 255 255, RGBf 0 0 0, RGBf 255 255 255, RGBf 0 0 1]
     = map Some [48768.75, 48768.75, 48768.75, 48514.75] \<and>
   nearest_emoji_index float32_ops (RGBf 127.5 127.5 127.5)
     [RGBf 255 255 255, RGBf 0 0 0, RGBf 255 255 255, RGBf 0 0 1] = Inr 3 \<and>
   nearest_emoji_index float32_ops (RGBf 127.5 127.5 127.5) [RGBf 0 0 0] = Inr 0 \<and>
   f32_sq_distance float32_ops (RGBf 250 0 7) (RGBf 0 255 8) = Some 127526"
proof -
  let ?c = "RGBf 127.5 127.5 127.5"
  let ?p = "[RGBf 255 255 255, RGBf 0 0 0, RGBf 255 255 255, RGBf 0 0 1]"
  let ?ds = "[48768.75, 48768.75, 48768.75, 48514.75] :: real list"
  have ne: "?p \<noteq> []" by simp
  have ds: "map (f32_sq_distance float32_ops ?c) ?p = map Some ?ds"
    by code_simp
  from nearest_emoji_index_first_least_computed [OF ne ds] obtain i
    where i: "nearest_emoji_index float32_ops ?c ?p = Inr i" "i < length ?p"
      and least: "\<forall>k<length ?p. ?ds ! i \<le> ?ds ! k"
      and single: "nearest_emoji_index float32_ops ?c [RGBf 0 0 0] = Inr 0"
      and whole: "\<forall>r g b pr pg pb :: int.
            \<bar>pr - r\<bar> \<le> 255 \<and> \<bar>pg - g\<bar> \<le> 255 \<and> \<bar>pb - b\<bar> \<le> 255 \<longrightarrow>
            f32_sq_distance float32_ops (RGBf (of_int r) (of_int g) (of_int b))
                (RGBf (of_int pr) (of_int pg) (of_int pb))
              = Some (squared_distance (of_int r, of_int g, of_int b)
                        (of_int pr, of_int pg, of_int pb))"
    by blast
  have "\<bar>0 - 250\<bar> \<le> (255::int) \<and> \<bar>255 - 0\<bar> \<le> (255::int) \<and> \<bar>8 - 7\<bar> \<le> (255::int)" by simp
  with whole have "f32_sq_distance float32_ops (RGBf (of_int 250) (of_int 0) (of_int 7))
                (RGBf (of_int 0) (of_int 255) (of_int 8))
              = Some (squared_distance (of_int 250, of_int 0, of_int 7)
                        (of_int 0, of_int 255, of_int 8))"
    by blast
  then have exact: "f32_sq_distance float32_ops (RGBf 250 0 7) (RGBf 0 255 8) = Some 127526"
    by (simp add: squared_distance_def)
  from least [THEN spec, of 3] have le: "?ds ! i \<le> ?ds ! 3" by simp
  from i(2) have "i = 0 \<or> i = 1 \<or> i = 2 \<or> i = 3" by auto
  with le have "i = 3" by auto
  with i(1) ds single exact show ?thesis by simp
qed

subsection \<open>The representative colour of a tile\<close>

lemma mean_rgb_channels:
  "pixels \<noteq> [] \<Longrightarrow>
   mean_rgb pixels = RGBf (channel_mean red pixels) (channel_mean green pixels)
                        (channel_mean blue pixels)"
  by (simp add: mean_rgb_def channel_mean_def)

lemma alpha_mask: "(0 < (unsigned (a :: 8 word) :: real)) = (0 < a)"
  by (metis word_less_iff_unsigned unsigned_eq_0_iff)

lemma visible_pixels:
  "map (\<lambda>(r, g, b, a). (r, g, b)) (filter (\<lambda>(r, g, b, a). real (unat a) / 255 > 0) pixels)
     = [(r, g, b). (r, g, b, a) \<leftarrow> pixels, 0 < (a :: 8 word)]"
  by (induction pixels) (auto simp: alpha_mask)

lemma no_visible_pixels:
  "\<not> list_ex (\<lambda>(r, g, b, a). real (unat a) / 255 > 0) pixels
     \<longleftrightarrow> [(r, g, b). (r, g, b, a) \<leftarrow> pixels, 0 < (a :: 8 word)] = []"
  by (induction pixels) (auto simp: alpha_mask)

lemma all_transparent:
  "\<forall>(r, g, b, a) \<in> set pixels. a = 0 \<Longrightarrow>
   [(r, g, b). (r, g, b, a) \<leftarrow> pixels, 0 < (a :: 8 word)] = []"
  by (induction pixels) auto

text \<open>
  C5. With an alpha channel, the colour is the mean of the red, green and blue
  channels over exactly the pixels whose alpha is greater than zero, and pure black
  when there is no such pixel; without an alpha channel it is the mean over all the
  pixels (of an image that has any).
\<close>

theorem average_color_spec:
  "average_color (RGBA arr) =
     (let visible = [(r, g, b). (r, g, b, a) \<leftarrow> concat (cells arr), 0 < a]
      in if visible = [] then RGBf 0 0 0
         else RGBf (channel_mean red visible) (channel_mean green visible)
                   (channel_mean blue visible)) \<and>
   ((\<forall>(r, g, b, a) \<in> set (concat (cells arr)). a = 0) \<longrightarrow>
      average_color (RGBA arr) = RGBf 0 0 0) \<and>
   (concat (cells img) \<noteq> [] \<longrightarrow>
      average_color (RGB img) =
        RGBf (channel_mean red (concat (cells img))) (channel_mean green (concat (cells img)))
             (channel_mean blue (concat (cells img))))"
proof -
  define vis where "vis = [(r, g, b). (r, g, b, a) \<leftarrow> concat (cells arr), 0 < a]"
  have unfold: "average_color (RGBA arr) = (if vis = [] then RGBf 0 0 0 else mean_rgb vis)"
    unfolding vis_def
    by (simp only: average_color.simps Let_def no_visible_pixels visible_pixels)
  have main: "average_color (RGBA arr) =
      (if vis = [] then RGBf 0 0 0
       else RGBf (channel_mean red vis) (channel_mean green vis) (channel_mean blue vis))"
  proof (cases "vis = []")
    case True
    with unfold show ?thesis by simp
  next
    case False
    from unfold False mean_rgb_channels [OF False] show ?thesis by simp
  qed
  have "vis = []" if "\<forall>(r, g, b, a) \<in> set (concat (cells arr)). a = 0"
    unfolding vis_def using that by (rule all_transparent)
  with main have transparent: "(\<forall>(r, g, b, a) \<in> set (concat (cells arr)). a = 0) \<longrightarrow>
      average_color (RGBA arr) = RGBf 0 0 0"
    by simp
  have opaque: "concat (cells img) \<noteq> [] \<longrightarrow>
      average_color (RGB img) =
        RGBf (channel_mean red (concat (cells img))) (channel_mean green (concat (cells img)))
             (channel_mean blue (concat (cells img)))"
    by (simp add: mean_rgb_channels)
  from main [unfolded vis_def] transparent opaque show ?thesis
    by (simp only: Let_def simp_thms)
qed

theorem average_color_spec_witness:
  "average_color (RGBA example_tile) = RGBf 155 0 50 \<and>
   average_color (RGBA transparent_tile) = RGBf 0 0 0 \<and>
   average_color (RGB example_image) = RGBf (535 / 6) (515 / 6) (515 / 6)"
proof -
  have t: "\<forall>(r, g, b, a) \<in> set (concat (cells transparent_tile)). a = 0"
    by (simp add: transparent_tile_def)
  have n: "concat (cells example_image) \<noteq> []"
    by (simp add: example_image_def)
  have e: "average_color (RGBA example_tile) = RGBf 155 0 50" by code_simp
  have m: "channel_mean red (concat (cells example_image)) = 535 / 6"
    "channel_mean green (concat (cells example_image)) = 515 / 6"
    "channel_mean blue (concat (cells example_image)) = 515 / 6"
    by code_simp+
  from average_color_spec [of transparent_tile example_image] t n
  have "average_color (RGBA transparent_tile) = RGBf 0 0 0"
    and "average_color (RGB example_image) =
      RGBf (channel_mean red (concat (cells example_image)))
           (channel_mean green (concat (cells example_image)))
           (channel_mean blue (concat (cells example_image)))"
    by blast+
  with e m show ?thesis by simp
qed

subsection \<open>The grid of regions\<close>

lemma sequence_all_Inr:
  "(\<And>x. x \<in> set xs \<Longrightarrow> f x = Inr (g x)) \<Longrightarrow> sequence (map f xs) = Inr (map g xs)"
  by (induction xs) simp_all

lemma slice_as_map_nth:
  "b \<le> length xs \<Longrightarrow> take (b - a) (drop a xs) = map ((!) xs) [a..<b]"
proof (induction xs arbitrary: a b rule: rev_induct)
  case Nil
  then show ?case by simp
next
  case (snoc x xs)
  show ?case
  proof (cases "b \<le> length xs")
    case True
    with snoc.IH [of b a] show ?thesis
      by (simp add: nth_append)
  next
    case False
    with snoc.prems have b: "b = Suc (length xs)" by simp
    show ?thesis
    proof (cases "a \<le> length xs")
      case True
      from snoc.IH [of "length xs" a] True show ?thesis
        by (simp add: b nth_append Suc_diff_le)
    next
      case False
      then show ?thesis by (simp add: b)
    qed
  qed
qed

lemma py_slice_between:
  "b \<le> length xs \<Longrightarrow> py_slice (int a) (int b) xs = map ((!) xs) [a..<b]"
proof -
  assume b: "b \<le> length xs"
  have "py_slice (int a) (int b) xs
      = take (min (length xs) b - min (length xs) a) (drop (min (length xs) a) xs)"
    by (simp only: py_slice_def py_bound_int Let_def)
  also from b have "\<dots> = take (b - a) (drop a xs)"
    by (cases "a \<le> length xs") (simp_all add: min_def)
  also from b have "\<dots> = map ((!) xs) [a..<b]" by (rule slice_as_map_nth)
  finally show ?thesis .
qed

lemma slice2_between:
  assumes "well_shaped a" and "r1 \<le> nrows a" and "c1 \<le> ncols a"
  shows "concat (slice2 (cells a) (int r0) (int r1) (int c0) (int c1))
           = [cells a ! i ! j. i \<leftarrow> [r0..<r1], j \<leftarrow> [c0..<c1]]"
proof -
  from assms have len: "r1 \<le> length (cells a)" by (simp add: well_shaped_length)
  have row: "py_slice (int c0) (int c1) (cells a ! i) = map ((!) (cells a ! i)) [c0..<c1]"
    if "i \<in> set [r0..<r1]" for i
  proof -
    from that assms have "length (cells a ! i) = ncols a" by (simp add: well_shaped_nth)
    with assms(3) show ?thesis by (simp add: py_slice_between)
  qed
  have "slice2 (cells a) (int r0) (int r1) (int c0) (int c1)
      = map (\<lambda>i. py_slice (int c0) (int c1) (cells a ! i)) [r0..<r1]"
    by (simp add: slice2_def py_slice_between [OF len] comp_def)
  also have "\<dots> = map (\<lambda>i. map ((!) (cells a ! i)) [c0..<c1]) [r0..<r1]"
    using row by (intro map_cong refl)
  finally show ?thesis by (simp add: comp_def)
qed

lemma ceil_cells:
  assumes "0 < tsize"
  shows "0 \<le> \<lceil>real n / real_of_int tsize\<rceil>"
    and "y < nat \<lceil>real n / real_of_int tsize\<rceil> \<longleftrightarrow> y * nat tsize < n"
proof -
  from assms have pos: "0 < real_of_int tsize" by simp
  then have "0 \<le> real n / real_of_int tsize" by simp
  then show "0 \<le> \<lceil>real n / real_of_int tsize\<rceil>" by (simp add: ceiling_le_iff [symmetric] order_trans [OF _ le_of_int_ceiling])
  have a: "y < nat \<lceil>real n / real_of_int tsize\<rceil> \<longleftrightarrow> int y < \<lceil>real n / real_of_int tsize\<rceil>"
    by (rule zless_nat_eq_int_zless)
  have b: "int y < \<lceil>real n / real_of_int tsize\<rceil> \<longleftrightarrow> real y < real n / real_of_int tsize"
    by (simp add: less_ceiling_iff)
  from pos have c: "real y < real n / real_of_int tsize \<longleftrightarrow> real y * real_of_int tsize < real n"
    by (simp add: pos_less_divide_eq)
  from assms have "real_of_int tsize = real (nat tsize)" by simp
  then have d: "real y * real_of_int tsize < real n \<longleftrightarrow> y * nat tsize < n"
    by (simp only: of_nat_mult [symmetric] of_nat_less_iff)
  from a b c d show "y < nat \<lceil>real n / real_of_int tsize\<rceil> \<longleftrightarrow> y * nat tsize < n"
    by (simp only:)
qed

lemma argmin_scan_bound:
  "best < i \<Longrightarrow> argmin_scan best bv i ds < i + length ds \<or> argmin_scan best bv i ds = best"
proof (induction ds arbitrary: best bv i)
  case Nil
  show ?case by simp
next
  case (Cons d ds)
  show ?case
  proof (cases d)
    case None
    then show ?thesis by simp
  next
    case (Some v)
    have a: "i < Suc i" by simp
    from Cons.prems have b: "best < Suc i" by simp
    from Cons.IH [OF a, of v] Cons.IH [OF b, of bv] Some show ?thesis
      by (cases "v < bv") auto
  qed
qed

lemma nearest_emoji_index_bound:
  assumes "palette_colors \<noteq> []"
  shows "\<exists>i. nearest_emoji_index np color palette_colors = Inr i \<and> i < length palette_colors"
proof -
  from assms obtain p ps where pal: "palette_colors = p # ps" by (cases palette_colors) auto
  show ?thesis
  proof (cases "f32_sq_distance np color p")
    case None
    then show ?thesis by (simp add: nearest_emoji_index_def pal)
  next
    case (Some d)
    have "(0::nat) < 1" by simp
    from argmin_scan_bound [OF this, of d "map (f32_sq_distance np color) ps"] Some
    show ?thesis by (auto simp: nearest_emoji_index_def pal)
  qed
qed

lemma region_nonempty:
  "0 < s \<Longrightarrow> y * s < nrows img \<Longrightarrow> x * s < ncols img \<Longrightarrow> region img s y x \<noteq> []"
  by (auto simp: region_def)

text \<open>The grid that \<open>build_emoji_grid\<close> builds for a positive tile size.\<close>

lemma build_emoji_grid_cells:
  assumes size: "0 < tsize" and wf: "well_shaped img" and pal: "palette_colors \<noteq> []"
  shows "\<exists>grid. build_emoji_grid np img tsize palette_colors = Inr grid \<and>
           well_shaped grid \<and>
           int (nrows grid) = \<lceil>real (nrows img) / real_of_int tsize\<rceil> \<and>
           int (ncols grid) = \<lceil>real (ncols img) / real_of_int tsize\<rceil> \<and>
           (\<forall>y x. y < nrows grid \<and> x < ncols grid \<longrightarrow>
              y * nat tsize < nrows img \<and> x * nat tsize < ncols img \<and>
              (\<exists>i. nearest_emoji_index np (f32_mean np (region img (nat tsize) y x)) palette_colors
                     = Inr i \<and>
                   i < length palette_colors \<and> cells grid ! y ! x = int i))"
proof -
  define s where "s = nat tsize"
  define rows where "rows = \<lceil>real_of_int (int (nrows img)) / real_of_int tsize\<rceil>"
  define cols where "cols = \<lceil>real_of_int (int (ncols img)) / real_of_int tsize\<rceil>"
  have rows_alt: "rows = \<lceil>real (nrows img) / real_of_int tsize\<rceil>"
    and cols_alt: "cols = \<lceil>real (ncols img) / real_of_int tsize\<rceil>"
    by (simp_all add: rows_def cols_def)
  define idx where "idx y x = projr (nearest_emoji_index np (f32_mean np (region img s y x)) palette_colors)"
    for y x
  from size have s: "0 < s" "int s = tsize" by (simp_all add: s_def)
  from size have nonneg: "0 \<le> rows" "0 \<le> cols"
    unfolding rows_alt cols_alt by (rule ceil_cells(1))+
  have in_rows: "y < nat rows \<longleftrightarrow> y * s < nrows img" for y
    unfolding rows_alt s_def using size by (rule ceil_cells(2))
  have in_cols: "x < nat cols \<longleftrightarrow> x * s < ncols img" for x
    unfolding cols_alt s_def using size by (rule ceil_cells(2))
  have near: "nearest_emoji_index np (f32_mean np (region img s y x)) palette_colors = Inr (idx y x) \<and>
      idx y x < length palette_colors" for y x
    using nearest_emoji_index_bound [OF pal, of np "f32_mean np (region img s y x)"]
    by (auto simp: idx_def)
  have cell: "(let left = int x * tsize; right = min (left + tsize) (int (ncols img));
                   tile_pixels = slice2 (cells img) (int y * tsize)
                                   (min (int y * tsize + tsize) (int (nrows img))) left right;
                   color = f32_mean np (concat tile_pixels)
               in map_sum id int (nearest_emoji_index np color palette_colors))
              = Inr (int (idx y x))" for y x
  proof -
    have top: "int y * tsize = int (y * s)" and left: "int x * tsize = int (x * s)"
      unfolding s(2) [symmetric] by simp_all
    have clip: "min (int a + tsize) (int n) = int (min (a + s) n)" for a n
    proof -
      have "int a + int s = int (a + s)" by simp
      then show ?thesis unfolding s(2) [symmetric] by (simp only: of_nat_min)
    qed
    have bottom: "min (int (y * s) + tsize) (int (nrows img)) = int (min (y * s + s) (nrows img))"
      and right: "min (int (x * s) + tsize) (int (ncols img)) = int (min (x * s + s) (ncols img))"
      by (rule clip)+
    have "concat (slice2 (cells img) (int (y * s)) (int (min (y * s + s) (nrows img)))
                    (int (x * s)) (int (min (x * s + s) (ncols img))))
          = region img s y x"
      unfolding region_def by (rule slice2_between [OF wf]) simp_all
    with near [of y x] show ?thesis
      by (simp only: Let_def top left bottom right) simp
  qed
  define grid where "grid = map (\<lambda>y. map (\<lambda>x. int (idx y x)) [0..<nat cols]) [0..<nat rows]"
  have inner: "sequence (map (\<lambda>x.
        let left = int x * tsize; right = min (left + tsize) (int (ncols img));
            tile_pixels = slice2 (cells img) (int y * tsize)
                            (min (int y * tsize + tsize) (int (nrows img))) left right;
            color = f32_mean np (concat tile_pixels)
        in map_sum id int (nearest_emoji_index np color palette_colors)) [0..<nat cols])
      = Inr (map (\<lambda>x. int (idx y x)) [0..<nat cols])" for y
    by (rule sequence_all_Inr) (rule cell)
  have outer: "sequence (map (\<lambda>y.
        let top = int y * tsize; bottom = min (top + tsize) (int (nrows img))
        in sequence (map (\<lambda>x.
             let left = int x * tsize; right = min (left + tsize) (int (ncols img));
                 tile_pixels = slice2 (cells img) top bottom left right;
                 color = f32_mean np (concat tile_pixels)
             in map_sum id int (nearest_emoji_index np color palette_colors)) [0..<nat cols]))
        [0..<nat rows])
      = Inr grid"
    unfolding grid_def by (rule sequence_all_Inr) (simp only: Let_def inner [unfolded Let_def])
  from size nonneg have run: "build_emoji_grid np img tsize palette_colors
      = Inr \<lparr>nrows = nat rows, ncols = nat cols, cells = grid\<rparr>"
    unfolding build_emoji_grid_def
    by (simp only: Let_def rows_def [symmetric] cols_def [symmetric] outer [unfolded Let_def]) simp
  let ?g = "\<lparr>nrows = nat rows, ncols = nat cols, cells = grid\<rparr>"
  have wfg: "well_shaped ?g"
    by (simp add: well_shaped_def grid_def list_all_iff)
  have dims: "int (nrows ?g) = rows" "int (ncols ?g) = cols"
    using nonneg by simp_all
  have cells: "y * nat tsize < nrows img \<and> x * nat tsize < ncols img \<and>
      (\<exists>i. nearest_emoji_index np (f32_mean np (region img (nat tsize) y x)) palette_colors = Inr i \<and>
           i < length palette_colors \<and> cells ?g ! y ! x = int i)"
    if "y < nrows ?g \<and> x < ncols ?g" for y x
  proof -
    from that have yx: "y < nat rows" "x < nat cols" by simp_all
    then have "cells ?g ! y ! x = int (idx y x)" by (simp add: grid_def)
    with yx near [of y x] show ?thesis
      by (auto simp: in_rows in_cols s_def [symmetric])
  qed
  from run wfg dims cells show ?thesis
    unfolding rows_alt cols_alt by blast
qed

text \<open>
  C6, as stated, fails in its last clause: the colour of a region is numpy's
  \<open>float32\<close> mean, which need not be the mean, and the difference can decide the cell.
  The one region of \<open>third_image\<close> has the mean \<open>(1/3, 0, 0)\<close>, which is strictly nearer
  to tile 1 than to tile 0; its computed colour is \<open>(11184811 / 2^25, 0, 0)\<close>, at the
  same distance from both tiles, and the cell holds 0.
\<close>

theorem build_emoji_grid_mean_counterexample:
  "build_emoji_grid float32_ops third_image 3 third_palette
     = Inr \<lparr>nrows = 1, ncols = 1, cells = [[0]]\<rparr> \<and>
   region third_image 3 0 0 = [(1, 0, 0), (0, 0, 0), (0, 0, 0)] \<and>
   f32_mean float32_ops (region third_image 3 0 0) = RGBf (11184811 / 33554432) 0 0 \<and>
   channel_mean red (region third_image 3 0 0) = 1 / 3 \<and>
   channel_mean green (region third_image 3 0 0) = 0 \<and>
   channel_mean blue (region third_image 3 0 0) = 0 \<and>
   squared_distance (1 / 3, 0, 0) (11184810 / 33554432, 0, 0)
     < squared_distance (1 / 3, 0, 0) (11184812 / 33554432, 0, 0)"
  by code_simp

text \<open>
  C6, amended. For a tile size \<open>S > 0\<close> and a non-empty palette, \<open>build_emoji_grid\<close>
  returns a well-shaped grid of \<open>ceil(h / S)\<close> rows and \<open>ceil(w / S)\<close> columns. Cell
  \<open>(y, x)\<close> holds the palette index of the region of \<open>(y, x)\<close>: the pixels of rows
  \<open>y * S\<close> to \<open>min(y * S + S, h)\<close> and columns \<open>x * S\<close> to \<open>min(x * S + S, w)\<close>, clipped
  and never empty. The colour of the region is the \<open>float32\<close> mean that numpy computes
  over these pixels, taken in row-major order; for \<open>S \<le> 256\<close> it is the mean of each
  channel over these pixels, rounded to \<open>float32\<close>.
\<close>

theorem build_emoji_grid_regions:
  assumes "0 < tsize" and "well_shaped img" and "palette_colors \<noteq> []"
  shows "\<exists>grid. build_emoji_grid np img tsize palette_colors = Inr grid \<and>
           well_shaped grid \<and>
           int (nrows grid) = \<lceil>real (nrows img) / real_of_int tsize\<rceil> \<and>
           int (ncols grid) = \<lceil>real (ncols img) / real_of_int tsize\<rceil> \<and>
           (\<forall>y x. y < nrows grid \<and> x < ncols grid \<longrightarrow>
              region img (nat tsize) y x \<noteq> [] \<and>
              (\<exists>i. nearest_emoji_index np (f32_mean np (region img (nat tsize) y x))
                     palette_colors = Inr i \<and>
                   cells grid ! y ! x = int i) \<and>
              (tsize \<le> 256 \<longrightarrow>
                 f32_mean float32_ops (region img (nat tsize) y x) =
                   f32_array float32_ops
                     (RGBf (channel_mean red (region img (nat tsize) y x))
                           (channel_mean green (region img (nat tsize) y x))
                           (channel_mean blue (region img (nat tsize) y x)))))"
proof -
  from build_emoji_grid_cells [OF assms] obtain grid where
    run: "build_emoji_grid np img tsize palette_colors = Inr grid" "well_shaped grid"
      "int (nrows grid) = \<lceil>real (nrows img) / real_of_int tsize\<rceil>"
      "int (ncols grid) = \<lceil>real (ncols img) / real_of_int tsize\<rceil>"
    and cells: "\<forall>y x. y < nrows grid \<and> x < ncols grid \<longrightarrow>
              y * nat tsize < nrows img \<and> x * nat tsize < ncols img \<and>
              (\<exists>i. nearest_emoji_index np (f32_mean np (region img (nat tsize) y x)) palette_colors
                     = Inr i \<and>
                   i < length palette_colors \<and> cells grid ! y ! x = int i)"
    by blast
  have "region img (nat tsize) y x \<noteq> [] \<and>
        (\<exists>i. nearest_emoji_index np (f32_mean np (region img (nat tsize) y x))
               palette_colors = Inr i \<and>
             cells grid ! y ! x = int i) \<and>
        (tsize \<le> 256 \<longrightarrow>
           f32_mean float32_ops (region img (nat tsize) y x) =
             f32_array float32_ops
               (RGBf (channel_mean red (region img (nat tsize) y x))
                     (channel_mean green (region img (nat tsize) y x))
                     (channel_mean blue (region img (nat tsize) y x))))"
    if yx: "y < nrows grid \<and> x < ncols grid" for y x
  proof -
    from cells yx have in_img: "y * nat tsize < nrows img" "x * nat tsize < ncols img"
      by blast+
    from assms(1) have "0 < nat tsize" by simp
    from region_nonempty [OF this in_img] have ne: "region img (nat tsize) y x \<noteq> []" .
    from cells yx obtain i where
      "nearest_emoji_index np (f32_mean np (region img (nat tsize) y x)) palette_colors = Inr i"
      "cells grid ! y ! x = int i"
      by blast
    then have cell: "\<exists>i. nearest_emoji_index np (f32_mean np (region img (nat tsize) y x))
               palette_colors = Inr i \<and> cells grid ! y ! x = int i"
      by blast
    have rounded: "f32_mean float32_ops (region img (nat tsize) y x) =
             f32_array float32_ops
               (RGBf (channel_mean red (region img (nat tsize) y x))
                     (channel_mean green (region img (nat tsize) y x))
                     (channel_mean blue (region img (nat tsize) y x)))"
      if "tsize \<le> 256"
    proof -
      from that have "nat tsize \<le> 256" by simp
      then have "nat tsize * nat tsize \<le> 256 * 256" by (intro mult_mono) simp_all
      with region_length [of img "nat tsize" y x]
      have "length (region img (nat tsize) y x) \<le> 65536" by simp
      then have "255 * length (region img (nat tsize) y x) < 2 ^ 24" by simp
      have "f32_mean float32_ops = float32_mean" "f32_array float32_ops = float32_array"
        by (simp_all add: float32_ops_def)
      then show ?thesis
        by (simp only: float32_mean_rounds_mean [OF ne \<open>255 * length (region img (nat tsize) y x) < 2 ^ 24\<close>])
    qed
    from ne cell rounded show ?thesis by blast
  qed
  with run show ?thesis by blast
qed

theorem build_emoji_grid_regions_witness:
  "well_shaped example_image \<and>
   build_emoji_grid float32_ops example_image 2 example_palette
     = Inr \<lparr>nrows = 1, ncols = 2, cells = [[0, 1]]\<rparr> \<and>
   \<lceil>real (ncols example_image) / real_of_int 2\<rceil> = 2 \<and>
   region example_image (nat 2) 0 1 = [(250, 250, 250), (255, 255, 255)] \<and>
   nearest_emoji_index float32_ops (f32_mean float32_ops (region example_image (nat 2) 0 1))
     example_palette = Inr 1 \<and>
   f32_mean float32_ops (region example_image (nat 2) 0 1) = RGBf 252.5 252.5 252.5"
proof -
  have wf: "well_shaped example_image" by code_simp
  have pal: "example_palette \<noteq> []" by (simp add: example_palette_def)
  have run: "build_emoji_grid float32_ops example_image 2 example_palette
     = Inr \<lparr>nrows = 1, ncols = 2, cells = [[0, 1]]\<rparr>"
    by code_simp
  have reg: "region example_image (nat 2) 0 1 = [(250, 250, 250), (255, 255, 255)]"
    by code_simp
  have mean: "f32_array float32_ops
      (RGBf (channel_mean red [(250, 250, 250), (255, 255, 255)])
            (channel_mean green [(250, 250, 250), (255, 255, 255)])
            (channel_mean blue [(250, 250, 250), (255, 255, 255)]))
      = RGBf 252.5 252.5 252.5"
    by code_simp
  have "(0::int) < 2" by simp
  from build_emoji_grid_regions [OF this wf pal, of float32_ops] obtain grid
    where grid: "build_emoji_grid float32_ops example_image 2 example_palette = Inr grid"
      and cols: "int (ncols grid) = \<lceil>real (ncols example_image) / real_of_int 2\<rceil>"
      and cells: "\<forall>y x. y < nrows grid \<and> x < ncols grid \<longrightarrow>
              region example_image (nat 2) y x \<noteq> [] \<and>
              (\<exists>i. nearest_emoji_index float32_ops
                     (f32_mean float32_ops (region example_image (nat 2) y x))
                     example_palette = Inr i \<and>
                   cells grid ! y ! x = int i) \<and>
              ((2::int) \<le> 256 \<longrightarrow>
                 f32_mean float32_ops (region example_image (nat 2) y x) =
                   f32_array float32_ops
                     (RGBf (channel_mean red (region example_image (nat 2) y x))
                           (channel_mean green (region example_image (nat 2) y x))
                           (channel_mean blue (region example_image (nat 2) y x))))"
    by blast
  from grid run have g: "grid = \<lparr>nrows = 1, ncols = 2, cells = [[0, 1]]\<rparr>" by simp
  from cols g have c: "\<lceil>real (ncols example_image) / real_of_int 2\<rceil> = 2" by simp
  have in_grid: "0 < nrows grid \<and> 1 < ncols grid" by (simp add: g)
  with cells obtain i where
    i: "nearest_emoji_index float32_ops (f32_mean float32_ops (region example_image (nat 2) 0 1))
       example_palette = Inr i" "cells grid ! 0 ! 1 = int i"
    and rounded: "(2::int) \<le> 256 \<longrightarrow>
      f32_mean float32_ops (region example_image (nat 2) 0 1) =
        f32_array float32_ops
          (RGBf (channel_mean red (region example_image (nat 2) 0 1))
                (channel_mean green (region example_image (nat 2) 0 1))
                (channel_mean blue (region example_image (nat 2) 0 1)))"
    by blast
  from i(2) have "i = 1" by (simp add: g)
  with i(1) have near: "nearest_emoji_index float32_ops
      (f32_mean float32_ops (region example_image (nat 2) 0 1)) example_palette = Inr 1"
    by simp
  from rounded have "f32_mean float32_ops (region example_image (nat 2) 0 1) =
        f32_array float32_ops
          (RGBf (channel_mean red (region example_image (nat 2) 0 1))
                (channel_mean green (region example_image (nat 2) 0 1))
                (channel_mean blue (region example_image (nat 2) 0 1)))"
    by simp
  then have m: "f32_mean float32_ops (region example_image (nat 2) 0 1) = RGBf 252.5 252.5 252.5"
    unfolding reg mean .
  show ?thesis by (rule conjI [OF wf conjI [OF run conjI [OF c conjI [OF reg conjI [OF near m]]]]])
qed

subsection \<open>The loops when the imaging library grants every request\<close>

lemma row_loop_pil_done:
  "\<not> col < ncols grid \<Longrightarrow>
   row_loop_pil grid palette_images tsize zoom max_side row col (covered, out) = Inr (covered, out)"
  by (subst row_loop_pil.simps) simp

lemma row_loop_pil_skip:
  "col < ncols grid \<Longrightarrow> cells covered ! row ! col \<Longrightarrow>
   row_loop_pil grid palette_images tsize zoom max_side row col (covered, out) =
   row_loop_pil grid palette_images tsize zoom max_side row (col + 1) (covered, out)"
  by (subst row_loop_pil.simps) simp

lemma row_loop_pil_fail:
  "col < ncols grid \<Longrightarrow> \<not> cells covered ! row ! col \<Longrightarrow>
   py_get palette_images (cells grid ! row ! col) = Inl e \<Longrightarrow>
   row_loop_pil grid palette_images tsize zoom max_side row col (covered, out) = Inl e"
  by (subst row_loop_pil.simps) (simp add: Let_def)

lemma row_loop_pil_step:
  assumes "col < ncols grid" and "\<not> cells covered ! row ! col"
    and "py_get palette_images (cells grid ! row ! col) = Inr emoji"
    and "side = largest_uniform_square grid covered row col (cells grid ! row ! col) max_side"
  shows "row_loop_pil grid palette_images tsize zoom max_side row col (covered, out) =
   (case (if side \<noteq> 1 \<or> zoom \<noteq> 1
          then pil_resize emoji (int side * tsize * zoom, int side * tsize * zoom)
          else Inr emoji) of
      Inl e \<Rightarrow> Inl e
    | Inr emoji' \<Rightarrow>
        row_loop_pil grid palette_images tsize zoom max_side row (col + side)
          (covered\<lparr>cells := assign_slice2 (cells covered) row (row + side) col (col + side) True\<rparr>,
           out\<lparr>c_pastes := c_pastes out @
              [\<lparr>p_row = row, p_col = col, p_index = cells grid ! row ! col, p_side = side,
                p_image = emoji',
                p_box = (int col * tsize * zoom, int row * tsize * zoom),
                p_mask = emoji'\<rparr>]\<rparr>))"
  unfolding assms(4)
  apply (subst row_loop_pil.simps)
  unfolding Let_def
  using assms(1-3) by (simp only: if_True if_False sum.case)

text \<open>
  For a positive tile size and a zoom of at least one, every size asked for is at
  least one, and the loops are those of \<open>row_loop\<close>, \<open>rows_loop\<close> and \<open>render_grid\<close>.
\<close>

lemma row_loop_pil_eq:
  fixes st :: "bool ndarray \<times> 'a canvas"
  assumes "1 \<le> tsize * zoom"
  shows "row_loop_pil grid palette_images tsize zoom max_side row col st
           = row_loop grid palette_images tsize zoom max_side row col st"
proof (induction "ncols grid - col" arbitrary: col st rule: less_induct)
  case less
  obtain covered out where st: "st = (covered, out)" by (cases st)
  show ?case
  proof (cases "col < ncols grid")
    case False
    then show ?thesis by (simp add: st row_loop_done row_loop_pil_done)
  next
    case col: True
    show ?thesis
    proof (cases "cells covered ! row ! col")
      case True
      from col have "ncols grid - (col + 1) < ncols grid - col" by simp
      from less.hyps [OF this] col True show ?thesis
        by (simp only: st row_loop_skip row_loop_pil_skip)
    next
      case False
      show ?thesis
      proof (cases "py_get palette_images (cells grid ! row ! col)")
        case (Inl e)
        show ?thesis unfolding st
          by (simp only: row_loop_fail [OF col False Inl] row_loop_pil_fail [OF col False Inl])
      next
        case (Inr emoji)
        define side where
          "side = largest_uniform_square grid covered row col (cells grid ! row ! col) max_side"
        have "1 \<le> side" unfolding side_def by (rule largest_uniform_square_pos)
        then have "1 * 1 \<le> int side * (tsize * zoom)"
          using assms by (intro mult_mono) simp_all
        then have target: "1 \<le> int side * tsize * zoom" by (simp add: mult.assoc)
        then have granted: "(if side \<noteq> 1 \<or> zoom \<noteq> 1
              then pil_resize emoji (int side * tsize * zoom, int side * tsize * zoom)
              else Inr emoji)
            = Inr (if side \<noteq> 1 \<or> zoom \<noteq> 1
                   then Resize emoji (int side * tsize * zoom) (int side * tsize * zoom)
                   else emoji)"
          by (simp add: pil_resize_def)
        from \<open>1 \<le> side\<close> col have "ncols grid - (col + side) < ncols grid - col" by simp
        from less.hyps [OF this] show ?thesis
          unfolding st
          by (simp only: row_loop_place [OF col False Inr side_def]
                row_loop_pil_step [OF col False Inr side_def] granted sum.case)
      qed
    qed
  qed
qed

lemma rows_loop_pil_eq:
  fixes st :: "bool ndarray \<times> 'a canvas"
  assumes "1 \<le> tsize * zoom"
  shows "rows_loop_pil grid palette_images tsize zoom max_side rows st
           = rows_loop grid palette_images tsize zoom max_side rows st"
proof (induction rows arbitrary: st)
  case Nil
  show ?case by simp
next
  case (Cons row rows)
  have head: "row_loop_pil grid palette_images tsize zoom max_side row 0 st
      = row_loop grid palette_images tsize zoom max_side row 0 st"
    using assms by (rule row_loop_pil_eq)
  show ?case
  proof (cases "row_loop grid palette_images tsize zoom max_side row 0 st")
    case (Inl e)
    with head show ?thesis by simp
  next
    case (Inr st')
    with head Cons.IH [of st'] show ?thesis by simp
  qed
qed

lemma render_grid_pil_eq:
  assumes "0 < tsize" and "1 \<le> zoom"
  shows "render_grid_pil grid palette_images tsize zoom max_side
           = render_grid grid palette_images tsize zoom max_side"
proof -
  from assms have "1 * 1 \<le> tsize * zoom" by (intro mult_mono) simp_all
  then have one: "1 \<le> tsize * zoom" by simp
  then have "0 \<le> int n * (tsize * zoom)" for n by simp
  then have "0 \<le> int n * tsize * zoom" for n by (simp add: mult.assoc)
  then have new: "pil_new (int (ncols grid) * tsize * zoom, int (nrows grid) * tsize * zoom)
      = Inr (image_new (int (ncols grid) * tsize * zoom, int (nrows grid) * tsize * zoom)
             :: 'a canvas)"
    by (simp add: pil_new_def not_less)
  show ?thesis
    unfolding render_grid_pil_def render_grid_def Let_def new sum.case
    using one by (rule rows_loop_pil_eq)
qed

subsection \<open>The canvas and its pastes\<close>

lemma build_emoji_grid_indices:
  assumes "0 < tsize" and "well_shaped img" and "palette_colors \<noteq> []"
  shows "\<exists>grid. build_emoji_grid np img tsize palette_colors = Inr grid \<and>
           well_shaped grid \<and> palette_indices grid (length palette_colors) \<and>
           int (nrows grid) = \<lceil>real (nrows img) / real_of_int tsize\<rceil> \<and>
           int (ncols grid) = \<lceil>real (ncols img) / real_of_int tsize\<rceil>"
proof -
  from build_emoji_grid_cells [OF assms] obtain grid where
    run: "build_emoji_grid np img tsize palette_colors = Inr grid"
      "int (nrows grid) = \<lceil>real (nrows img) / real_of_int tsize\<rceil>"
      "int (ncols grid) = \<lceil>real (ncols img) / real_of_int tsize\<rceil>"
    and wf: "well_shaped grid"
    and cells: "\<forall>y x. y < nrows grid \<and> x < ncols grid \<longrightarrow>
              y * nat tsize < nrows img \<and> x * nat tsize < ncols img \<and>
              (\<exists>i. nearest_emoji_index np (f32_mean np (region img (nat tsize) y x)) palette_colors
                     = Inr i \<and>
                   i < length palette_colors \<and> cells grid ! y ! x = int i)"
    by blast
  have "0 \<le> cells grid ! y ! x \<and> cells grid ! y ! x < int (length palette_colors)"
    if "y < length (cells grid)" "x < length (cells grid ! y)" for y x
  proof -
    from that wf have "y < nrows grid \<and> x < ncols grid"
      by (simp add: well_shaped_length well_shaped_nth)
    with cells obtain i where "i < length palette_colors" "cells grid ! y ! x = int i"
      by blast
    then show ?thesis by simp
  qed
  then have "palette_indices grid (length palette_colors)"
    by (simp add: palette_indices_def list_all_length)
  with run wf show ?thesis by blast
qed

lemma resize_condition: "1 \<le> side \<Longrightarrow> (side \<noteq> 1 \<or> zoom \<noteq> 1) \<longleftrightarrow> int side * zoom \<noteq> 1"
  by (auto simp: zmult_eq_1_iff)

lemma example_image_grid:
  "build_emoji_grid float32_ops example_image 1 example_palette
     = Inr \<lparr>nrows = 2, ncols = 3, cells = [[0, 0, 1], [0, 0, 1]]\<rparr>"
  by code_simp

text \<open>
  C8. For a tile size \<open>S > 0\<close>, a zoom of at least one, a non-empty palette with one
  tile image per colour and every maximal block side, \<open>mosaic_image\<close> returns a canvas
  of \<open>cols * S * zoom\<close> by \<open>rows * S * zoom\<close> pixels, where \<open>rows = ceil(h / S)\<close> and
  \<open>cols = ceil(w / S)\<close> are the dimensions of the grid of the image. Every paste is a
  block inside the grid, and every cell of the grid lies in exactly one paste. That
  paste puts the tile of the index the cell holds at \<open>(col * S * zoom, row * S * zoom)\<close>
  for the block's \<open>row\<close> and \<open>col\<close>, with the pasted image itself as the mask, resized
  to a square of \<open>side * S * zoom\<close> exactly when \<open>side * zoom \<noteq> 1\<close> and unresized
  otherwise.
\<close>

theorem mosaic_image_canvas:
  fixes palette_images :: "'a pil_image list"
  assumes "0 < tsize" and "1 \<le> zoom" and "well_shaped img" and "palette_colors \<noteq> []"
    and "length palette_images = length palette_colors"
  shows "\<exists>grid out.
           build_emoji_grid np img tsize palette_colors = Inr grid \<and>
           mosaic_image np img palette_colors palette_images tsize zoom max_emoji_block = Inr out \<and>
           int (nrows grid) = \<lceil>real (nrows img) / real_of_int tsize\<rceil> \<and>
           int (ncols grid) = \<lceil>real (ncols img) / real_of_int tsize\<rceil> \<and>
           c_width out = int (ncols grid) * tsize * zoom \<and>
           c_height out = int (nrows grid) * tsize * zoom \<and>
           (\<forall>p \<in> set (c_pastes out). inside grid p) \<and>
           (\<forall>i j. i < nrows grid \<and> j < ncols grid \<longrightarrow>
              (\<exists>p tile.
                 filter (covers i j) (c_pastes out) = [p] \<and>
                 py_get palette_images (cells grid ! i ! j) = Inr tile \<and>
                 p_image p =
                   (if int (p_side p) * zoom \<noteq> 1
                    then Resize tile (int (p_side p) * tsize * zoom) (int (p_side p) * tsize * zoom)
                    else tile) \<and>
                 p_mask p = p_image p \<and>
                 p_box p = (int (p_col p) * tsize * zoom, int (p_row p) * tsize * zoom)))"
proof -
  from build_emoji_grid_indices [OF assms(1,3,4), of np] obtain grid where
    grid: "build_emoji_grid np img tsize palette_colors = Inr grid"
    and wf: "well_shaped grid"
    and pal: "palette_indices grid (length palette_colors)"
    and dims: "int (nrows grid) = \<lceil>real (nrows img) / real_of_int tsize\<rceil>"
      "int (ncols grid) = \<lceil>real (ncols img) / real_of_int tsize\<rceil>"
    by blast
  from pal assms(5) have pal': "palette_indices grid (length palette_images)" by simp
  from render_grid_partition [OF wf pal', of tsize zoom max_emoji_block] obtain covered out
    where run: "render_grid grid palette_images tsize zoom max_emoji_block = Inr (covered, out)"
      and ok: "\<forall>p \<in> set (c_pastes out). paste_ok grid palette_images tsize zoom max_emoji_block p"
      and size: "c_width out = int (ncols grid) * tsize * zoom"
        "c_height out = int (nrows grid) * tsize * zoom"
      and once: "\<forall>i j. i < nrows grid \<and> j < ncols grid \<longrightarrow>
              length (filter (covers i j) (c_pastes out)) = 1 \<and> cells covered ! i ! j"
    by blast
  from run have "render_grid_pil grid palette_images tsize zoom max_emoji_block = Inr (covered, out)"
    by (simp only: render_grid_pil_eq [OF assms(1,2)])
  with grid have res: "mosaic_image np img palette_colors palette_images tsize zoom max_emoji_block
      = Inr out"
    by (simp add: mosaic_image_def)
  from ok have ins: "\<forall>p \<in> set (c_pastes out). inside grid p"
    by (simp add: paste_ok_def)
  have cell: "\<exists>p tile.
      filter (covers i j) (c_pastes out) = [p] \<and>
      py_get palette_images (cells grid ! i ! j) = Inr tile \<and>
      p_image p =
        (if int (p_side p) * zoom \<noteq> 1
         then Resize tile (int (p_side p) * tsize * zoom) (int (p_side p) * tsize * zoom)
         else tile) \<and>
      p_mask p = p_image p \<and>
      p_box p = (int (p_col p) * tsize * zoom, int (p_row p) * tsize * zoom)"
    if ij: "i < nrows grid \<and> j < ncols grid" for i j
  proof -
    from once ij have "length (filter (covers i j) (c_pastes out)) = 1" by blast
    then obtain p where one: "filter (covers i j) (c_pastes out) = [p]"
      by (cases "filter (covers i j) (c_pastes out)") auto
    then have "p \<in> set (filter (covers i j) (c_pastes out))" by simp
    then have mem: "p \<in> set (c_pastes out)" and cov: "covers i j p" by simp_all
    from ok mem have p: "paste_ok grid palette_images tsize zoom max_emoji_block p" by blast
    then have "1 \<le> p_side p" by (simp add: paste_ok_def inside_def)
    then have cond: "(p_side p \<noteq> 1 \<or> zoom \<noteq> 1) \<longleftrightarrow> int (p_side p) * zoom \<noteq> 1"
      by (rule resize_condition)
    from p cov have idx: "cells grid ! i ! j = p_index p"
      unfolding paste_ok_def by blast
    from p obtain emoji where "py_get palette_images (p_index p) = Inr emoji"
      and "p_image p = (if p_side p \<noteq> 1 \<or> zoom \<noteq> 1
             then Resize emoji (int (p_side p) * tsize * zoom) (int (p_side p) * tsize * zoom)
             else emoji)"
      unfolding paste_ok_def by blast
    then have "py_get palette_images (cells grid ! i ! j) = Inr emoji \<and>
         p_image p =
           (if int (p_side p) * zoom \<noteq> 1
            then Resize emoji (int (p_side p) * tsize * zoom) (int (p_side p) * tsize * zoom)
            else emoji)"
      unfolding cond idx by blast
    moreover from p have "p_mask p = p_image p"
      and "p_box p = (int (p_col p) * tsize * zoom, int (p_row p) * tsize * zoom)"
      unfolding paste_ok_def by blast+
    ultimately show ?thesis using one by blast
  qed
  from grid res dims size ins cell show ?thesis by blast
qed

theorem mosaic_image_canvas_witness:
  "well_shaped example_image \<and>
   mosaic_image float32_ops example_image example_palette example_tiles 1 3 10
     = Inr \<lparr>c_width = 9, c_height = 6,
            c_pastes =
              [\<lparr>p_row = 0, p_col = 0, p_index = 0, p_side = 2, p_image = Resize (Source 0) 6 6,
                p_box = (0, 0), p_mask = Resize (Source 0) 6 6\<rparr>,
               \<lparr>p_row = 0, p_col = 2, p_index = 1, p_side = 1, p_image = Resize (Source 1) 3 3,
                p_box = (6, 0), p_mask = Resize (Source 1) 3 3\<rparr>,
               \<lparr>p_row = 1, p_col = 2, p_index = 1, p_side = 1, p_image = Resize (Source 1) 3 3,
                p_box = (6, 3), p_mask = Resize (Source 1) 3 3\<rparr>]\<rparr> \<and>
   (\<exists>out p. mosaic_image float32_ops example_image example_palette example_tiles 1 3 10 = Inr out \<and>
      c_width out = 9 \<and> c_height out = 6 \<and>
      filter (covers 1 1) (c_pastes out) = [p] \<and>
      p_image p = Resize (Source 0) (int (p_side p) * 1 * 3) (int (p_side p) * 1 * 3) \<and>
      p_mask p = p_image p)"
proof -
  let ?g = "\<lparr>nrows = 2, ncols = 3, cells = [[0, 0, 1], [0, 0, 1]]\<rparr> :: int ndarray"
  have h: "(0::int) < 1" "(1::int) \<le> 3" "well_shaped example_image" "example_palette \<noteq> []"
    "length example_tiles = length example_palette"
    by (simp_all add: example_palette_def example_tiles_def example_image_def well_shaped_def)
  have render: "render_grid_pil ?g example_tiles 1 3 10
     = Inr (full 2 3 True,
            \<lparr>c_width = 9, c_height = 6,
            c_pastes =
              [\<lparr>p_row = 0, p_col = 0, p_index = 0, p_side = 2, p_image = Resize (Source 0) 6 6,
                p_box = (0, 0), p_mask = Resize (Source 0) 6 6\<rparr>,
               \<lparr>p_row = 0, p_col = 2, p_index = 1, p_side = 1, p_image = Resize (Source 1) 3 3,
                p_box = (6, 0), p_mask = Resize (Source 1) 3 3\<rparr>,
               \<lparr>p_row = 1, p_col = 2, p_index = 1, p_side = 1, p_image = Resize (Source 1) 3 3,
                p_box = (6, 3), p_mask = Resize (Source 1) 3 3\<rparr>]\<rparr>)"
    by code_simp
  have run: "mosaic_image float32_ops example_image example_palette example_tiles 1 3 10
     = Inr \<lparr>c_width = 9, c_height = 6,
            c_pastes =
              [\<lparr>p_row = 0, p_col = 0, p_index = 0, p_side = 2, p_image = Resize (Source 0) 6 6,
                p_box = (0, 0), p_mask = Resize (Source 0) 6 6\<rparr>,
               \<lparr>p_row = 0, p_col = 2, p_index = 1, p_side = 1, p_image = Resize (Source 1) 3 3,
                p_box = (6, 0), p_mask = Resize (Source 1) 3 3\<rparr>,
               \<lparr>p_row = 1, p_col = 2, p_index = 1, p_side = 1, p_image = Resize (Source 1) 3 3,
                p_box = (6, 3), p_mask = Resize (Source 1) 3 3\<rparr>]\<rparr>"
    by (simp add: mosaic_image_def example_image_grid render)
  from mosaic_image_canvas [OF h, of float32_ops 10] obtain grid out where
    a: "build_emoji_grid float32_ops example_image 1 example_palette = Inr grid"
    and b: "mosaic_image float32_ops example_image example_palette example_tiles 1 3 10 = Inr out"
    and w: "c_width out = int (ncols grid) * 1 * 3" "c_height out = int (nrows grid) * 1 * 3"
    and c: "\<forall>i j. i < nrows grid \<and> j < ncols grid \<longrightarrow>
              (\<exists>p tile.
                 filter (covers i j) (c_pastes out) = [p] \<and>
                 py_get example_tiles (cells grid ! i ! j) = Inr tile \<and>
                 p_image p =
                   (if int (p_side p) * 3 \<noteq> 1
                    then Resize tile (int (p_side p) * 1 * 3) (int (p_side p) * 1 * 3)
                    else tile) \<and>
                 p_mask p = p_image p \<and>
                 p_box p = (int (p_col p) * 1 * 3, int (p_row p) * 1 * 3))"
    by blast
  from a have grid: "grid = ?g" unfolding example_image_grid by simp
  have in_grid: "1 < nrows grid \<and> 1 < ncols grid" and cell: "cells grid ! 1 ! 1 = 0"
    by (simp_all add: grid)
  from c in_grid obtain p tile where
    p: "filter (covers 1 1) (c_pastes out) = [p]"
      "py_get example_tiles (cells grid ! 1 ! 1) = Inr tile"
      "p_image p = (if int (p_side p) * 3 \<noteq> 1
                    then Resize tile (int (p_side p) * 1 * 3) (int (p_side p) * 1 * 3)
                    else tile)"
      "p_mask p = p_image p"
    by blast
  from p(2) have tile: "tile = Source 0"
    unfolding cell by (simp add: py_get_def example_tiles_def)
  have "int (p_side p) * 3 \<noteq> 1" by presburger
  with p(3) tile have img: "p_image p = Resize (Source 0) (int (p_side p) * 1 * 3) (int (p_side p) * 1 * 3)"
    by simp
  from w have "c_width out = 9" "c_height out = 6" by (simp_all add: grid)
  with b p(1,4) img h(3) run show ?thesis by blast
qed

subsection \<open>The palette of a directory\<close>

lemma png_entries:
  "filter (\<lambda>(path, content). glob_png path) xs = filter (\<lambda>e. glob_png (fst e)) xs"
  by (simp add: case_prod_unfold)

lemma build_emoji_palette_decoded:
  assumes "0 < tsize" and "\<forall>e \<in> set emojis_dir. glob_png (fst e) \<longrightarrow> snd e \<noteq> None"
  shows "build_emoji_palette np emojis_dir tsize =
           Inr (map (\<lambda>e. f32_array np (average_color (RGBA (the (snd e)))))
                  (sort_key fst (filter (\<lambda>e. glob_png (fst e)) emojis_dir)),
                map (\<lambda>e. Resize (Source (the (snd e))) tsize tsize)
                  (sort_key fst (filter (\<lambda>e. glob_png (fst e)) emojis_dir)))"
proof -
  let ?tiles = "sort_key fst (filter (\<lambda>e. glob_png (fst e)) emojis_dir)"
  have "(case e of (path, content) \<Rightarrow>
           case content of None \<Rightarrow> Inl DecodeError
           | Some img \<Rightarrow>
               (case pil_resize (Source img) (tsize, tsize) of
                  Inl e \<Rightarrow> Inl e
                | Inr render \<Rightarrow> Inr (average_color (RGBA img), render)))
        = Inr (average_color (RGBA (the (snd e))), Resize (Source (the (snd e))) tsize tsize)"
    if "e \<in> set ?tiles" for e
  proof -
    from that assms(2) have "snd e \<noteq> None" by auto
    with assms(1) show ?thesis by (cases e) (auto simp: pil_resize_def)
  qed
  then have "sequence (map (\<lambda>(path, content).
           case content of None \<Rightarrow> Inl DecodeError
           | Some img \<Rightarrow>
               (case pil_resize (Source img) (tsize, tsize) of
                  Inl e \<Rightarrow> Inl e
                | Inr render \<Rightarrow> Inr (average_color (RGBA img), render))) ?tiles)
      = Inr (map (\<lambda>e. (average_color (RGBA (the (snd e))),
                        Resize (Source (the (snd e))) tsize tsize)) ?tiles)"
    by (rule sequence_all_Inr)
  then show ?thesis
    by (simp add: build_emoji_palette_def png_entries comp_def)
qed

text \<open>A tile size below one: the first \<open>resize\<close> is refused.\<close>

lemma build_emoji_palette_refused:
  assumes "tsize < 1" and "\<exists>e \<in> set emojis_dir. glob_png (fst e)"
    and "\<forall>e \<in> set emojis_dir. glob_png (fst e) \<longrightarrow> snd e \<noteq> None"
  shows "build_emoji_palette np emojis_dir tsize = Inl ValueError"
proof -
  let ?tiles = "sort_key fst (filter (\<lambda>e. glob_png (fst e)) emojis_dir)"
  from assms(2) have "set ?tiles \<noteq> {}" by auto
  then obtain e rest where tiles: "?tiles = e # rest" by (cases ?tiles) auto
  then have "e \<in> set ?tiles" by simp
  with assms(3) obtain path img where e: "e = (path, Some img)" by (cases e) auto
  from assms(1) have "pil_resize (Source img) (tsize, tsize) = Inl ValueError"
    by (simp add: pil_resize_def)
  then show ?thesis
    by (simp add: build_emoji_palette_def png_entries tiles e)
qed

text \<open>
  C9. Entries whose names do not end in \<open>.png\<close> play no part: the palette is that of
  the directory without them, and a directory with no such name gives the empty
  palette. For a tile size of at least one, when the \<open>.png\<close> entries can be opened, the
  colours and the render images are those of exactly these entries, in ascending order
  of their names.
\<close>

theorem palette_of_sorted_png_entries:
  "build_emoji_palette np emojis_dir tsize
     = build_emoji_palette np (filter (\<lambda>e. glob_png (fst e)) emojis_dir) tsize \<and>
   ((\<forall>e \<in> set emojis_dir. \<not> glob_png (fst e)) \<longrightarrow>
      build_emoji_palette np emojis_dir tsize = Inr ([], [])) \<and>
   (0 < tsize \<and> (\<forall>e \<in> set emojis_dir. glob_png (fst e) \<longrightarrow> snd e \<noteq> None) \<longrightarrow>
      (\<exists>tiles. mset tiles = mset (filter (\<lambda>e. glob_png (fst e)) emojis_dir) \<and>
               sorted (map fst tiles) \<and>
               build_emoji_palette np emojis_dir tsize =
                 Inr (map (\<lambda>e. f32_array np (average_color (RGBA (the (snd e))))) tiles,
                      map (\<lambda>e. Resize (Source (the (snd e))) tsize tsize) tiles)))"
proof -
  have "filter (\<lambda>(path, content). glob_png path) (filter (\<lambda>e. glob_png (fst e)) emojis_dir)
      = filter (\<lambda>(path, content). glob_png path) emojis_dir"
    by (simp add: case_prod_unfold)
  then have ignore: "build_emoji_palette np emojis_dir tsize
     = build_emoji_palette np (filter (\<lambda>e. glob_png (fst e)) emojis_dir) tsize"
    by (simp only: build_emoji_palette_def)
  have none: "build_emoji_palette np emojis_dir tsize = Inr ([], [])"
    if "\<forall>e \<in> set emojis_dir. \<not> glob_png (fst e)"
  proof -
    from that have "filter (\<lambda>e. glob_png (fst e)) emojis_dir = []" by (simp add: filter_empty_conv)
    then show ?thesis by (simp add: build_emoji_palette_def png_entries)
  qed
  have sorted: "\<exists>tiles. mset tiles = mset (filter (\<lambda>e. glob_png (fst e)) emojis_dir) \<and>
               sorted (map fst tiles) \<and>
               build_emoji_palette np emojis_dir tsize =
                 Inr (map (\<lambda>e. f32_array np (average_color (RGBA (the (snd e))))) tiles,
                      map (\<lambda>e. Resize (Source (the (snd e))) tsize tsize) tiles)"
    if "0 < tsize \<and> (\<forall>e \<in> set emojis_dir. glob_png (fst e) \<longrightarrow> snd e \<noteq> None)"
  proof -
    from that have "0 < tsize" and "\<forall>e \<in> set emojis_dir. glob_png (fst e) \<longrightarrow> snd e \<noteq> None"
      by blast+
    from build_emoji_palette_decoded [OF this, of np] show ?thesis
      by (intro exI [where x = "sort_key fst (filter (\<lambda>e. glob_png (fst e)) emojis_dir)"]) simp
  qed
  from ignore none sorted show ?thesis by blast
qed

theorem palette_of_sorted_png_entries_witness:
  "build_emoji_palette float32_ops example_dir 8
     = build_emoji_palette float32_ops
         [(''b.png'', Some \<lparr>nrows = 1, ncols = 1, cells = [[(255, 0, 0, 255)]]\<rparr>),
          (''a.png'', Some \<lparr>nrows = 1, ncols = 1, cells = [[(0, 0, 9, 0)]]\<rparr>)] 8 \<and>
   build_emoji_palette float32_ops example_dir 8
     = Inr ([RGBf 0 0 0, RGBf 255 0 0],
            [Resize (Source \<lparr>nrows = 1, ncols = 1, cells = [[(0, 0, 9, 0)]]\<rparr>) 8 8,
             Resize (Source \<lparr>nrows = 1, ncols = 1, cells = [[(255, 0, 0, 255)]]\<rparr>) 8 8]) \<and>
   build_emoji_palette float32_ops [(''a.jpg'', None), (''notes.txt'', None)] 8 = Inr ([], []) \<and>
   (\<exists>tiles :: dir_entry list. length tiles = 2 \<and> sorted (map fst tiles) \<and>
      build_emoji_palette float32_ops example_dir 8 =
        Inr (map (\<lambda>e. f32_array float32_ops (average_color (RGBA (the (snd e))))) tiles,
             map (\<lambda>e. Resize (Source (the (snd e))) 8 8) tiles))"
proof -
  let ?b = "(''b.png'', Some \<lparr>nrows = 1, ncols = 1, cells = [[(255, 0, 0, 255)]]\<rparr>) :: dir_entry"
  let ?a = "(''a.png'', Some \<lparr>nrows = 1, ncols = 1, cells = [[(0, 0, 9, 0)]]\<rparr>) :: dir_entry"
  have f: "filter (\<lambda>e. glob_png (fst e)) example_dir = [?b, ?a]"
    by code_simp
  have v: "build_emoji_palette float32_ops example_dir 8
     = Inr ([RGBf 0 0 0, RGBf 255 0 0],
            [Resize (Source \<lparr>nrows = 1, ncols = 1, cells = [[(0, 0, 9, 0)]]\<rparr>) 8 8,
             Resize (Source \<lparr>nrows = 1, ncols = 1, cells = [[(255, 0, 0, 255)]]\<rparr>) 8 8])"
    by code_simp
  have n: "\<forall>e \<in> set [(''a.jpg'', None), (''notes.txt'', None :: rgba ndarray option)].
      \<not> glob_png (fst e)"
    by (simp add: glob_png_def)
  have d: "(0::int) < 8 \<and> (\<forall>e \<in> set example_dir. glob_png (fst e) \<longrightarrow> snd e \<noteq> None)"
    by (simp add: example_dir_def glob_png_def)
  from palette_of_sorted_png_entries [of float32_ops example_dir 8]
  have same: "build_emoji_palette float32_ops example_dir 8
     = build_emoji_palette float32_ops (filter (\<lambda>e. glob_png (fst e)) example_dir) 8"
    by blast
  from palette_of_sorted_png_entries
    [of float32_ops "[(''a.jpg'', None), (''notes.txt'', None)]" 8] n
  have empty: "build_emoji_palette float32_ops [(''a.jpg'', None), (''notes.txt'', None)] 8
      = Inr ([], [])"
    by blast
  from palette_of_sorted_png_entries [of float32_ops example_dir 8] d obtain tiles where
    t: "mset tiles = mset (filter (\<lambda>e. glob_png (fst e)) example_dir)"
      "sorted (map fst tiles)"
      "build_emoji_palette float32_ops example_dir 8 =
         Inr (map (\<lambda>e. f32_array float32_ops (average_color (RGBA (the (snd e))))) tiles,
              map (\<lambda>e. Resize (Source (the (snd e))) 8 8) tiles)"
    by blast
  from t(1) have "length tiles = length (filter (\<lambda>e. glob_png (fst e)) example_dir)"
    by (rule mset_eq_length)
  then have len: "length tiles = 2" unfolding f by simp
  have c4: "\<exists>tiles :: dir_entry list. length tiles = 2 \<and> sorted (map fst tiles) \<and>
      build_emoji_palette float32_ops example_dir 8 =
        Inr (map (\<lambda>e. f32_array float32_ops (average_color (RGBA (the (snd e))))) tiles,
             map (\<lambda>e. Resize (Source (the (snd e))) 8 8) tiles)"
  proof (intro exI conjI)
    show "length tiles = 2" by (rule len)
    show "sorted (map fst tiles)" by (rule t(2))
    show "build_emoji_palette float32_ops example_dir 8 =
        Inr (map (\<lambda>e. f32_array float32_ops (average_color (RGBA (the (snd e))))) tiles,
             map (\<lambda>e. Resize (Source (the (snd e))) 8 8) tiles)"
      by (rule t(3))
  qed
  from same have c1: "build_emoji_palette float32_ops example_dir 8
     = build_emoji_palette float32_ops [?b, ?a] 8"
    unfolding f .
  show ?thesis by (rule conjI [OF c1 conjI [OF v conjI [OF empty c4]]])
qed

subsection \<open>Invalid configurations\<close>

lemma largest_uniform_square_small:
  assumes "max_side \<le> 1"
  shows "largest_uniform_square grid covered row col v max_side = 1"
proof (cases "search_side grid covered row col v max_side")
  case None
  then show ?thesis by (simp add: largest_uniform_square_def)
next
  case (Some side)
  then have "side \<in> set (range_down (min max_side
      (min (int (nrows grid) - int row) (int (ncols grid) - int col))))"
    by (auto simp: search_side_def find_Some_iff in_set_conv_nth)
  with assms have "side = 1" by (auto simp: range_down_set)
  with Some show ?thesis by (simp add: largest_uniform_square_def)
qed

lemma row_loop_pil_small:
  fixes st :: "bool ndarray \<times> 'a canvas"
  assumes "max_side \<le> 1"
  shows "row_loop_pil grid palette_images tsize zoom max_side row col st
           = row_loop_pil grid palette_images tsize zoom 1 row col st"
proof (induction "ncols grid - col" arbitrary: col st rule: less_induct)
  case less
  obtain covered out where st: "st = (covered, out)" by (cases st)
  show ?case
  proof (cases "col < ncols grid")
    case False
    then show ?thesis by (simp add: st row_loop_pil_done)
  next
    case col: True
    show ?thesis
    proof (cases "cells covered ! row ! col")
      case True
      from col have "ncols grid - (col + 1) < ncols grid - col" by simp
      from less.hyps [OF this] col True show ?thesis by (simp only: st row_loop_pil_skip)
    next
      case False
      show ?thesis
      proof (cases "py_get palette_images (cells grid ! row ! col)")
        case (Inl e)
        show ?thesis unfolding st by (simp only: row_loop_pil_fail [OF col False Inl])
      next
        case (Inr emoji)
        have s1: "1 = largest_uniform_square grid covered row col (cells grid ! row ! col) max_side"
          using assms by (simp add: largest_uniform_square_small)
        have s2: "1 = largest_uniform_square grid covered row col (cells grid ! row ! col) 1"
          by (simp add: largest_uniform_square_small)
        from col have "ncols grid - (col + 1) < ncols grid - col" by simp
        from less.hyps [OF this] show ?thesis
          unfolding st
          by (simp only: row_loop_pil_step [OF col False Inr s1]
                row_loop_pil_step [OF col False Inr s2])
      qed
    qed
  qed
qed

lemma rows_loop_pil_small:
  fixes st :: "bool ndarray \<times> 'a canvas"
  assumes "max_side \<le> 1"
  shows "rows_loop_pil grid palette_images tsize zoom max_side rows st
           = rows_loop_pil grid palette_images tsize zoom 1 rows st"
proof (induction rows arbitrary: st)
  case Nil
  show ?case by simp
next
  case (Cons row rows)
  have head: "row_loop_pil grid palette_images tsize zoom max_side row 0 st
      = row_loop_pil grid palette_images tsize zoom 1 row 0 st"
    using assms by (rule row_loop_pil_small)
  show ?case
  proof (cases "row_loop_pil grid palette_images tsize zoom 1 row 0 st")
    case (Inl e)
    with head show ?thesis by simp
  next
    case (Inr st')
    with head Cons.IH [of st'] show ?thesis by simp
  qed
qed

lemma render_grid_pil_small:
  assumes "max_side \<le> 1"
  shows "render_grid_pil grid palette_images tsize zoom max_side
           = render_grid_pil grid palette_images tsize zoom 1"
proof (cases "pil_new (int (ncols grid) * tsize * zoom, int (nrows grid) * tsize * zoom)
                :: error + 'a canvas")
  case (Inl e)
  then show ?thesis by (simp add: render_grid_pil_def)
next
  case (Inr out)
  have "rows_loop_pil grid palette_images tsize zoom max_side [0..<nrows grid]
          (full (nrows grid) (ncols grid) False, out)
      = rows_loop_pil grid palette_images tsize zoom 1 [0..<nrows grid]
          (full (nrows grid) (ncols grid) False, out)"
    using assms by (rule rows_loop_pil_small)
  with Inr show ?thesis by (simp add: render_grid_pil_def)
qed

text \<open>A zoom below one: \<open>Image.new\<close> or the first \<open>resize\<close> is refused.\<close>

lemma render_grid_pil_zoom:
  fixes palette_images :: "'a pil_image list"
  assumes size: "0 < tsize" and zoom: "zoom < 1" and wf: "well_shaped grid"
    and pal: "palette_indices grid (length palette_images)"
    and rows: "0 < nrows grid" and cols: "0 < ncols grid"
  shows "render_grid_pil grid palette_images tsize zoom max_side = Inl ValueError"
proof (cases "zoom < 0")
  case True
  from size cols have "0 < int (ncols grid) * tsize" by simp
  from this True have "int (ncols grid) * tsize * zoom < 0" by (rule mult_pos_neg)
  then show ?thesis by (simp add: render_grid_pil_def pil_new_def)
next
  case False
  with zoom have z: "zoom = 0" by simp
  let ?covered = "full (nrows grid) (ncols grid) False"
  let ?out = "image_new (0, 0) :: 'a canvas"
  have free: "\<not> cells ?covered ! 0 ! 0" using rows cols by (simp add: full_def)
  have get: "py_get palette_images (cells grid ! 0 ! 0)
      = Inr (palette_images ! nat (cells grid ! 0 ! 0))"
    using pal wf rows cols by (rule palette_indices_get)
  have "row_loop_pil grid palette_images tsize zoom max_side 0 0 (?covered, ?out)
      = Inl ValueError"
    by (simp add: row_loop_pil_step [OF cols free get refl] z pil_resize_def)
  moreover from rows have "[0..<nrows grid] = 0 # [1..<nrows grid]"
    by (simp add: upt_conv_Cons)
  ultimately show ?thesis
    by (simp add: render_grid_pil_def pil_new_def z)
qed

lemma build_emoji_grid_empty_palette:
  assumes "0 < tsize" and "0 < nrows img" and "0 < ncols img"
  shows "build_emoji_grid np img tsize [] = Inl ValueError"
proof -
  define rows where "rows = \<lceil>real_of_int (int (nrows img)) / real_of_int tsize\<rceil>"
  define cols where "cols = \<lceil>real_of_int (int (ncols img)) / real_of_int tsize\<rceil>"
  have rows_alt: "rows = \<lceil>real (nrows img) / real_of_int tsize\<rceil>"
    and cols_alt: "cols = \<lceil>real (ncols img) / real_of_int tsize\<rceil>"
    by (simp_all add: rows_def cols_def)
  from assms(1) have nonneg: "0 \<le> rows" "0 \<le> cols"
    unfolding rows_alt cols_alt by (rule ceil_cells(1))+
  from assms have "0 < nat rows" "0 < nat cols"
    unfolding rows_alt cols_alt by (simp_all only: ceil_cells(2) [OF assms(1)] mult_0)
  then have r: "[0..<nat rows] = 0 # [1..<nat rows]" and c: "[0..<nat cols] = 0 # [1..<nat cols]"
    by (simp_all add: upt_conv_Cons)
  from assms(1) nonneg show ?thesis
    unfolding build_emoji_grid_def
    by (simp only: Let_def rows_def [symmetric] cols_def [symmetric] r c)
       (simp add: nearest_emoji_index_def)
qed

text \<open>
  A negative tile size: \<open>math.ceil(n / size)\<close> is negative as soon as \<open>n\<close> reaches
  \<open>-size\<close>, and zero below.
\<close>

lemma ceil_negative:
  assumes "tsize < 0"
  shows "\<lceil>real_of_int (int n) / real_of_int tsize\<rceil> < 0 \<longleftrightarrow> - tsize \<le> int n"
    and "\<lceil>real_of_int (int n) / real_of_int tsize\<rceil> \<le> 0"
proof -
  from assms have neg: "real_of_int tsize < 0" by simp
  have "\<lceil>real_of_int (int n) / real_of_int tsize\<rceil> < 0
      \<longleftrightarrow> real_of_int (int n) / real_of_int tsize \<le> - 1"
    by (simp add: ceiling_less_iff)
  also from neg have "\<dots> \<longleftrightarrow> - 1 * real_of_int tsize \<le> real_of_int (int n)"
    by (rule neg_divide_le_eq)
  also have "\<dots> \<longleftrightarrow> real_of_int (- tsize) \<le> real_of_int (int n)" by simp
  also have "\<dots> \<longleftrightarrow> - tsize \<le> int n" by (rule of_int_le_iff)
  finally show "\<lceil>real_of_int (int n) / real_of_int tsize\<rceil> < 0 \<longleftrightarrow> - tsize \<le> int n" .
  from neg have "real_of_int (int n) / real_of_int tsize \<le> 0"
    by (simp add: divide_nonneg_neg)
  then show "\<lceil>real_of_int (int n) / real_of_int tsize\<rceil> \<le> 0"
    by (simp add: ceiling_le_iff)
qed

lemma build_emoji_grid_negative:
  assumes "tsize < 0"
  shows "- tsize \<le> int (nrows img) \<or> - tsize \<le> int (ncols img) \<Longrightarrow>
           build_emoji_grid np img tsize palette_colors = Inl ValueError"
    and "int (nrows img) < - tsize \<Longrightarrow> int (ncols img) < - tsize \<Longrightarrow>
           build_emoji_grid np img tsize palette_colors
             = Inr \<lparr>nrows = 0, ncols = 0, cells = []\<rparr>"
proof -
  define rows where "rows = \<lceil>real_of_int (int (nrows img)) / real_of_int tsize\<rceil>"
  define cols where "cols = \<lceil>real_of_int (int (ncols img)) / real_of_int tsize\<rceil>"
  from assms have sign: "rows < 0 \<longleftrightarrow> - tsize \<le> int (nrows img)"
    "cols < 0 \<longleftrightarrow> - tsize \<le> int (ncols img)" "rows \<le> 0" "cols \<le> 0"
    unfolding rows_def cols_def by (simp_all only: ceil_negative)
  from assms have nz: "tsize \<noteq> 0" by simp
  show "build_emoji_grid np img tsize palette_colors = Inl ValueError"
    if "- tsize \<le> int (nrows img) \<or> - tsize \<le> int (ncols img)"
  proof -
    from that sign have "rows < 0 \<or> cols < 0" by blast
    with nz show ?thesis
      unfolding build_emoji_grid_def
      by (simp only: Let_def rows_def [symmetric] cols_def [symmetric] if_False if_True)
  qed
  show "build_emoji_grid np img tsize palette_colors = Inr \<lparr>nrows = 0, ncols = 0, cells = []\<rparr>"
    if "int (nrows img) < - tsize" "int (ncols img) < - tsize"
  proof -
    from that sign have "rows = 0" "cols = 0" by auto
    with nz show ?thesis
      unfolding build_emoji_grid_def
      by (simp only: Let_def rows_def [symmetric] cols_def [symmetric]) simp
  qed
qed

lemma render_grid_pil_empty:
  "render_grid_pil \<lparr>nrows = 0, ncols = 0, cells = []\<rparr> palette_images tsize zoom max_side
     = Inr (full 0 0 False, \<lparr>c_width = 0, c_height = 0, c_pastes = []\<rparr>)"
  by (simp add: render_grid_pil_def pil_new_def image_new_def)

text \<open>
  C3, as stated, fails: nothing in the source validates the configuration. An empty
  tile directory gives the empty palette, not a failure; a maximal block side of zero
  is not rejected, it gives a canvas tiled with blocks of side one; and a negative
  tile size that exceeds the image in both dimensions gives an empty canvas. A zoom of
  zero and a tile size of zero do fail, but with the \<open>ValueError\<close> of the imaging
  library, once the grid is built, and with the \<open>ZeroDivisionError\<close> of Python.
\<close>

theorem configuration_error_counterexample:
  "build_emoji_palette float32_ops [] 8 = Inr ([], []) \<and>
   mosaic_image float32_ops example_image example_palette example_tiles 1 1 0
     = Inr \<lparr>c_width = 3, c_height = 2,
            c_pastes =
              [\<lparr>p_row = 0, p_col = 0, p_index = 0, p_side = 1, p_image = Source 0,
                p_box = (0, 0), p_mask = Source 0\<rparr>,
               \<lparr>p_row = 0, p_col = 1, p_index = 0, p_side = 1, p_image = Source 0,
                p_box = (1, 0), p_mask = Source 0\<rparr>,
               \<lparr>p_row = 0, p_col = 2, p_index = 1, p_side = 1, p_image = Source 1,
                p_box = (2, 0), p_mask = Source 1\<rparr>,
               \<lparr>p_row = 1, p_col = 0, p_index = 0, p_side = 1, p_image = Source 0,
                p_box = (0, 1), p_mask = Source 0\<rparr>,
               \<lparr>p_row = 1, p_col = 1, p_index = 0, p_side = 1, p_image = Source 0,
                p_box = (1, 1), p_mask = Source 0\<rparr>,
               \<lparr>p_row = 1, p_col = 2, p_index = 1, p_side = 1, p_image = Source 1,
                p_box = (2, 1), p_mask = Source 1\<rparr>]\<rparr> \<and>
   mosaic_image float32_ops example_image example_palette example_tiles (- 100) 1 10
     = Inr \<lparr>c_width = 0, c_height = 0, c_pastes = []\<rparr> \<and>
   mosaic_image float32_ops example_image example_palette example_tiles 1 0 10
     = Inl ValueError \<and>
   mosaic_image float32_ops example_image example_palette example_tiles 0 1 10
     = Inl ZeroDivisionError"
proof -
  have a: "build_emoji_palette float32_ops [] 8 = Inr ([], [])" by code_simp
  have r: "render_grid_pil \<lparr>nrows = 2, ncols = 3, cells = [[0, 0, 1], [0, 0, 1]]\<rparr>
             example_tiles 1 1 0
     = Inr (full 2 3 True,
            \<lparr>c_width = 3, c_height = 2,
            c_pastes =
              [\<lparr>p_row = 0, p_col = 0, p_index = 0, p_side = 1, p_image = Source 0,
                p_box = (0, 0), p_mask = Source 0\<rparr>,
               \<lparr>p_row = 0, p_col = 1, p_index = 0, p_side = 1, p_image = Source 0,
                p_box = (1, 0), p_mask = Source 0\<rparr>,
               \<lparr>p_row = 0, p_col = 2, p_index = 1, p_side = 1, p_image = Source 1,
                p_box = (2, 0), p_mask = Source 1\<rparr>,
               \<lparr>p_row = 1, p_col = 0, p_index = 0, p_side = 1, p_image = Source 0,
                p_box = (0, 1), p_mask = Source 0\<rparr>,
               \<lparr>p_row = 1, p_col = 1, p_index = 0, p_side = 1, p_image = Source 0,
                p_box = (1, 1), p_mask = Source 0\<rparr>,
               \<lparr>p_row = 1, p_col = 2, p_index = 1, p_side = 1, p_image = Source 1,
                p_box = (2, 1), p_mask = Source 1\<rparr>]\<rparr>)"
    by code_simp
  have b: "mosaic_image float32_ops example_image example_palette example_tiles 1 1 0
     = Inr \<lparr>c_width = 3, c_height = 2,
            c_pastes =
              [\<lparr>p_row = 0, p_col = 0, p_index = 0, p_side = 1, p_image = Source 0,
                p_box = (0, 0), p_mask = Source 0\<rparr>,
               \<lparr>p_row = 0, p_col = 1, p_index = 0, p_side = 1, p_image = Source 0,
                p_box = (1, 0), p_mask = Source 0\<rparr>,
               \<lparr>p_row = 0, p_col = 2, p_index = 1, p_side = 1, p_image = Source 1,
                p_box = (2, 0), p_mask = Source 1\<rparr>,
               \<lparr>p_row = 1, p_col = 0, p_index = 0, p_side = 1, p_image = Source 0,
                p_box = (0, 1), p_mask = Source 0\<rparr>,
               \<lparr>p_row = 1, p_col = 1, p_index = 0, p_side = 1, p_image = Source 0,
                p_box = (1, 1), p_mask = Source 0\<rparr>,
               \<lparr>p_row = 1, p_col = 2, p_index = 1, p_side = 1, p_image = Source 1,
                p_box = (2, 1), p_mask = Source 1\<rparr>]\<rparr>"
    by (simp add: mosaic_image_def example_image_grid r)
  have c: "mosaic_image float32_ops example_image example_palette example_tiles (- 100) 1 10
     = Inr \<lparr>c_width = 0, c_height = 0, c_pastes = []\<rparr>"
    by code_simp
  have "render_grid_pil \<lparr>nrows = 2, ncols = 3, cells = [[0, 0, 1], [0, 0, 1]]\<rparr>
          example_tiles 1 0 10 = Inl ValueError"
    by code_simp
  then have d: "mosaic_image float32_ops example_image example_palette example_tiles 1 0 10
     = Inl ValueError"
    by (simp add: mosaic_image_def example_image_grid)
  have e: "mosaic_image float32_ops example_image example_palette example_tiles 0 1 10
     = Inl ZeroDivisionError"
    by code_simp
  show ?thesis by (rule conjI [OF a conjI [OF b conjI [OF c conjI [OF d e]]]])
qed

text \<open>
  C3, amended. The core raises no configuration error of its own; what an invalid
  configuration does is what Python, numpy and the imaging library do with it.
  \<^item> Palette construction over a directory with no \<open>.png\<close> entry returns the empty
    palette. With a tile size below one and at least one \<open>.png\<close> entry, all of which
    can be opened, it fails with \<open>ValueError\<close>.
  \<^item> A tile size of zero makes \<open>mosaic_image\<close> fail with \<open>ZeroDivisionError\<close>. A
    negative tile size makes it fail with \<open>ValueError\<close> when the image has at least
    \<open>-size\<close> rows or columns, and return an empty canvas otherwise.
  \<^item> For a positive tile size and an image of at least one pixel, an empty palette
    makes \<open>mosaic_image\<close> fail with \<open>ValueError\<close>, and so does a zoom below one (with a
    non-empty palette of one tile image per colour).
  \<^item> A maximal block side below one is accepted and gives what a maximal block side
    of one gives, which is the value the command line replaces it by.
\<close>

theorem configuration_not_validated:
  fixes palette_images :: "'a pil_image list"
  shows "((\<forall>e \<in> set emojis_dir. \<not> glob_png (fst e)) \<longrightarrow>
            build_emoji_palette np emojis_dir tsize = Inr ([], [])) \<and>
         (tsize < 1 \<and> (\<exists>e \<in> set emojis_dir. glob_png (fst e)) \<and>
          (\<forall>e \<in> set emojis_dir. glob_png (fst e) \<longrightarrow> snd e \<noteq> None) \<longrightarrow>
            build_emoji_palette np emojis_dir tsize = Inl ValueError) \<and>
         mosaic_image np img palette_colors palette_images 0 zoom max_emoji_block
           = Inl ZeroDivisionError \<and>
         (tsize < 0 \<and> (- tsize \<le> int (nrows img) \<or> - tsize \<le> int (ncols img)) \<longrightarrow>
            mosaic_image np img palette_colors palette_images tsize zoom max_emoji_block
              = Inl ValueError) \<and>
         (tsize < 0 \<and> int (nrows img) < - tsize \<and> int (ncols img) < - tsize \<longrightarrow>
            mosaic_image np img palette_colors palette_images tsize zoom max_emoji_block
              = Inr \<lparr>c_width = 0, c_height = 0, c_pastes = []\<rparr>) \<and>
         (0 < tsize \<and> 0 < nrows img \<and> 0 < ncols img \<longrightarrow>
            mosaic_image np img [] palette_images tsize zoom max_emoji_block = Inl ValueError) \<and>
         (0 < tsize \<and> zoom < 1 \<and> well_shaped img \<and> 0 < nrows img \<and> 0 < ncols img \<and>
          palette_colors \<noteq> [] \<and> length palette_images = length palette_colors \<longrightarrow>
            mosaic_image np img palette_colors palette_images tsize zoom max_emoji_block
              = Inl ValueError) \<and>
         (max_emoji_block < 1 \<longrightarrow>
            main_max_emoji_block max_emoji_block = 1 \<and>
            mosaic_image np img palette_colors palette_images tsize zoom max_emoji_block
              = mosaic_image np img palette_colors palette_images tsize zoom 1)"
proof -
  have none: "(\<forall>e \<in> set emojis_dir. \<not> glob_png (fst e)) \<longrightarrow>
      build_emoji_palette np emojis_dir tsize = Inr ([], [])"
  proof
    assume "\<forall>e \<in> set emojis_dir. \<not> glob_png (fst e)"
    then have "filter (\<lambda>(path, content). glob_png path) emojis_dir = []"
      by (auto simp: filter_empty_conv)
    then show "build_emoji_palette np emojis_dir tsize = Inr ([], [])"
      by (simp add: build_emoji_palette_def)
  qed
  have refused: "tsize < 1 \<and> (\<exists>e \<in> set emojis_dir. glob_png (fst e)) \<and>
      (\<forall>e \<in> set emojis_dir. glob_png (fst e) \<longrightarrow> snd e \<noteq> None) \<longrightarrow>
      build_emoji_palette np emojis_dir tsize = Inl ValueError"
    using build_emoji_palette_refused [of tsize emojis_dir np] by blast
  have zero: "mosaic_image np img palette_colors palette_images 0 zoom max_emoji_block
      = Inl ZeroDivisionError"
    by (simp add: mosaic_image_def build_emoji_grid_def)
  have negative: "tsize < 0 \<and> (- tsize \<le> int (nrows img) \<or> - tsize \<le> int (ncols img)) \<longrightarrow>
      mosaic_image np img palette_colors palette_images tsize zoom max_emoji_block = Inl ValueError"
  proof
    assume "tsize < 0 \<and> (- tsize \<le> int (nrows img) \<or> - tsize \<le> int (ncols img))"
    then have "build_emoji_grid np img tsize palette_colors = Inl ValueError"
      using build_emoji_grid_negative(1) [of tsize img np palette_colors] by blast
    then show "mosaic_image np img palette_colors palette_images tsize zoom max_emoji_block
        = Inl ValueError"
      by (simp add: mosaic_image_def)
  qed
  have vacant: "tsize < 0 \<and> int (nrows img) < - tsize \<and> int (ncols img) < - tsize \<longrightarrow>
      mosaic_image np img palette_colors palette_images tsize zoom max_emoji_block
        = Inr \<lparr>c_width = 0, c_height = 0, c_pastes = []\<rparr>"
  proof
    assume "tsize < 0 \<and> int (nrows img) < - tsize \<and> int (ncols img) < - tsize"
    then have "build_emoji_grid np img tsize palette_colors
        = Inr \<lparr>nrows = 0, ncols = 0, cells = []\<rparr>"
      using build_emoji_grid_negative(2) [of tsize img np palette_colors] by blast
    then show "mosaic_image np img palette_colors palette_images tsize zoom max_emoji_block
        = Inr \<lparr>c_width = 0, c_height = 0, c_pastes = []\<rparr>"
      by (simp add: mosaic_image_def render_grid_pil_empty)
  qed
  have empty: "0 < tsize \<and> 0 < nrows img \<and> 0 < ncols img \<longrightarrow>
      mosaic_image np img [] palette_images tsize zoom max_emoji_block = Inl ValueError"
    by (simp add: mosaic_image_def build_emoji_grid_empty_palette)
  have zoomed: "0 < tsize \<and> zoom < 1 \<and> well_shaped img \<and> 0 < nrows img \<and> 0 < ncols img \<and>
      palette_colors \<noteq> [] \<and> length palette_images = length palette_colors \<longrightarrow>
      mosaic_image np img palette_colors palette_images tsize zoom max_emoji_block = Inl ValueError"
  proof
    assume a: "0 < tsize \<and> zoom < 1 \<and> well_shaped img \<and> 0 < nrows img \<and> 0 < ncols img \<and>
      palette_colors \<noteq> [] \<and> length palette_images = length palette_colors"
    then have size: "0 < tsize" and wf: "well_shaped img" and pc: "palette_colors \<noteq> []"
      by blast+
    from build_emoji_grid_indices [OF size wf pc, of np] obtain grid where
      grid: "build_emoji_grid np img tsize palette_colors = Inr grid"
      and wfg: "well_shaped grid"
      and pal: "palette_indices grid (length palette_colors)"
      and dims: "int (nrows grid) = \<lceil>real (nrows img) / real_of_int tsize\<rceil>"
        "int (ncols grid) = \<lceil>real (ncols img) / real_of_int tsize\<rceil>"
      by blast
    from a have "0 * nat tsize < nrows img" "0 * nat tsize < ncols img" by simp_all
    then have "0 < nat \<lceil>real (nrows img) / real_of_int tsize\<rceil>"
      "0 < nat \<lceil>real (ncols img) / real_of_int tsize\<rceil>"
      by (simp_all only: ceil_cells(2) [OF size])
    with dims have pos: "0 < nrows grid" "0 < ncols grid" by linarith+
    from pal a have pal': "palette_indices grid (length palette_images)" by simp
    from a have "zoom < 1" by blast
    from render_grid_pil_zoom [OF size this wfg pal' pos, of max_emoji_block] grid
    show "mosaic_image np img palette_colors palette_images tsize zoom max_emoji_block
        = Inl ValueError"
      by (simp add: mosaic_image_def)
  qed
  have small: "max_emoji_block < 1 \<longrightarrow>
      main_max_emoji_block max_emoji_block = 1 \<and>
      mosaic_image np img palette_colors palette_images tsize zoom max_emoji_block
        = mosaic_image np img palette_colors palette_images tsize zoom 1"
  proof
    assume lt: "max_emoji_block < 1"
    then have "max_emoji_block \<le> 1" by simp
    then have "render_grid_pil grid palette_images tsize zoom max_emoji_block
        = render_grid_pil grid palette_images tsize zoom 1" for grid
      by (rule render_grid_pil_small)
    then have "mosaic_image np img palette_colors palette_images tsize zoom max_emoji_block
        = mosaic_image np img palette_colors palette_images tsize zoom 1"
      unfolding mosaic_image_def by (simp only:)
    with lt show "main_max_emoji_block max_emoji_block = 1 \<and>
      mosaic_image np img palette_colors palette_images tsize zoom max_emoji_block
        = mosaic_image np img palette_colors palette_images tsize zoom 1"
      by (simp add: main_max_emoji_block_def)
  qed
  show ?thesis
    by (rule conjI [OF none conjI [OF refused conjI [OF zero conjI [OF negative
          conjI [OF vacant conjI [OF empty conjI [OF zoomed small]]]]]]])
qed

theorem configuration_not_validated_witness:
  "build_emoji_palette float32_ops [(''a.jpg'', None)] 8 = Inr ([], []) \<and>
   build_emoji_palette float32_ops example_dir 0 = Inl ValueError \<and>
   mosaic_image float32_ops example_image example_palette example_tiles (- 2) 1 10
     = Inl ValueError \<and>
   mosaic_image float32_ops example_image example_palette example_tiles (- 4) 1 10
     = Inr \<lparr>c_width = 0, c_height = 0, c_pastes = []\<rparr> \<and>
   mosaic_image float32_ops example_image [] example_tiles 2 1 10 = Inl ValueError \<and>
   mosaic_image float32_ops example_image example_palette example_tiles 2 0 10
     = Inl ValueError \<and>
   mosaic_image float32_ops example_image example_palette example_tiles 2 (- 1) 10
     = Inl ValueError \<and>
   mosaic_image float32_ops example_image example_palette example_tiles 2 1 (- 3)
     = mosaic_image float32_ops example_image example_palette example_tiles 2 1 1"
proof -
  have a: "\<forall>e \<in> set [(''a.jpg'', None :: rgba ndarray option)]. \<not> glob_png (fst e)"
    by (simp add: glob_png_def)
  have b: "(0::int) < 1 \<and> (\<exists>e \<in> set example_dir. glob_png (fst e)) \<and>
      (\<forall>e \<in> set example_dir. glob_png (fst e) \<longrightarrow> snd e \<noteq> None)"
    by (simp add: example_dir_def glob_png_def)
  have c: "(- 2 :: int) < 0 \<and> (- (- 2) \<le> int (nrows example_image) \<or>
      - (- 2) \<le> int (ncols example_image))"
    by (simp add: example_image_def)
  have d: "(- 4 :: int) < 0 \<and> int (nrows example_image) < - (- 4) \<and>
      int (ncols example_image) < - (- 4)"
    by (simp add: example_image_def)
  have e: "(0::int) < 2 \<and> 0 < nrows example_image \<and> 0 < ncols example_image"
    by (simp add: example_image_def)
  have f: "(0::int) < 2 \<and> (0::int) < 1 \<and> well_shaped example_image \<and>
      0 < nrows example_image \<and> 0 < ncols example_image \<and> example_palette \<noteq> [] \<and>
      length example_tiles = length example_palette"
    "(0::int) < 2 \<and> (- 1 :: int) < 1 \<and> well_shaped example_image \<and>
      0 < nrows example_image \<and> 0 < ncols example_image \<and> example_palette \<noteq> [] \<and>
      length example_tiles = length example_palette"
    by (simp_all add: example_image_def example_palette_def example_tiles_def well_shaped_def)
  have g: "(- 3 :: int) < 1" by simp
  from configuration_not_validated
      [of "[(''a.jpg'', None)]" float32_ops 8 example_image example_palette example_tiles 1 10] a
  have 1: "build_emoji_palette float32_ops [(''a.jpg'', None)] 8 = Inr ([], [])"
    by blast
  from configuration_not_validated
      [of example_dir float32_ops 0 example_image example_palette example_tiles 1 10] b
  have 2: "build_emoji_palette float32_ops example_dir 0 = Inl ValueError"
    by blast
  from configuration_not_validated
      [of "[]" float32_ops "- 2" example_image example_palette example_tiles 1 10] c
  have 3: "mosaic_image float32_ops example_image example_palette example_tiles (- 2) 1 10
      = Inl ValueError"
    by blast
  from configuration_not_validated
      [of "[]" float32_ops "- 4" example_image example_palette example_tiles 1 10] d
  have 4: "mosaic_image float32_ops example_image example_palette example_tiles (- 4) 1 10
      = Inr \<lparr>c_width = 0, c_height = 0, c_pastes = []\<rparr>"
    by blast
  from configuration_not_validated
      [of "[]" float32_ops 2 example_image "[]" example_tiles 1 10] e
  have 5: "mosaic_image float32_ops example_image [] example_tiles 2 1 10 = Inl ValueError"
    by blast
  from configuration_not_validated
      [of "[]" float32_ops 2 example_image example_palette example_tiles 0 10] f(1)
  have 6: "mosaic_image float32_ops example_image example_palette example_tiles 2 0 10
      = Inl ValueError"
    by blast
  from configuration_not_validated
      [of "[]" float32_ops 2 example_image example_palette example_tiles "- 1" 10] f(2)
  have 7: "mosaic_image float32_ops example_image example_palette example_tiles 2 (- 1) 10
      = Inl ValueError"
    by blast
  from configuration_not_validated
      [of "[]" float32_ops 2 example_image example_palette example_tiles 1 "- 3"] g
  have 8: "mosaic_image float32_ops example_image example_palette example_tiles 2 1 (- 3)
      = mosaic_image float32_ops example_image example_palette example_tiles 2 1 1"
    by blast
  show ?thesis
    by (rule conjI [OF 1 conjI [OF 2 conjI [OF 3 conjI [OF 4 conjI [OF 5 conjI [OF 6
          conjI [OF 7 8]]]]]]])
qed

end
